(* ===== verification/Prelude.thy ===== *)
theory Prelude
  imports Main "HOL-Library.Word" "HOL-Library.Sublist"
begin

text \<open>
  Shared vocabulary of the development: the integer widths and the clock, Rust's
  \<open>Result\<close> as a sum with the \<open>?\<close> operator, and the part of \<open>str\<close> the sources use.

  A Rust \<open>&str\<close> or \<open>String\<close> is the list of its UTF-8 bytes (\<^typ>\<open>string\<close>), so
  \<open>len\<close> is \<^const>\<open>length\<close> and the byte comparisons of the sources are list
  comparisons.  \<open>Instant\<close> and \<open>Duration\<close> are numbers of nanoseconds;
  \<open>Instant::elapsed\<close> saturates at zero, as subtraction on \<^typ>\<open>nat\<close> does.
\<close>

named_theorems result_simps \<open>equations of the error-propagation combinators\<close>
named_theorems str_simps \<open>equations of the string functions\<close>

type_synonym u8 = "8 word"
type_synonym u16 = "16 word"
type_synonym u32 = "32 word"
type_synonym u64 = "64 word"
type_synonym nanos = nat

abbreviation millis :: "nat \<Rightarrow> nanos" where
  "millis n \<equiv> n * 1000000"

abbreviation secs :: "nat \<Rightarrow> nanos" where
  "secs n \<equiv> n * 1000000000"

lemma unat_u32_less: "unat (w :: u32) < 4294967296"
  using unsigned_less [of w] by simp

lemma unat_Suc_u32: "x < (w :: u32) \<Longrightarrow> unat (x + 1) = unat x + 1"
  using unat_u32_less [of w] by (simp add: unat_word_ariths word_less_nat_alt)

lemma unat_Suc_u32_small: "unat (x :: u32) < 4294967295 \<Longrightarrow> unat (x + 1) = unat x + 1"
  by (simp add: unat_word_ariths)

lemma unat_Suc_u64: "unat (x :: u64) < 18446744073709551615 \<Longrightarrow> unat (x + 1) = unat x + 1"
  by (simp add: unat_word_ariths)

section \<open>Results and early returns\<close>

text \<open>\<open>Err e\<close> is \<^term>\<open>Inl e\<close>, \<open>Ok v\<close> is \<^term>\<open>Inr v\<close>.\<close>

fun and_then :: "'e + 'a \<Rightarrow> ('a \<Rightarrow> 'e + 'b) \<Rightarrow> 'e + 'b" where
  "and_then (Inl e) f = Inl e"
| "and_then (Inr v) f = f v"

fun map_err :: "('e \<Rightarrow> 'f) \<Rightarrow> 'e + 'a \<Rightarrow> 'f + 'a" where
  "map_err f (Inl e) = Inl (f e)"
| "map_err f (Inr v) = Inr v"

definition ok_or :: "'e \<Rightarrow> 'a option \<Rightarrow> 'e + 'a" where
  "ok_or e x = (case x of None \<Rightarrow> Inl e | Some v \<Rightarrow> Inr v)"

definition reject_if :: "bool \<Rightarrow> 'e \<Rightarrow> 'e + unit" where
  "reject_if bad e = (if bad then Inl e else Inr ())"

fun is_ok :: "'e + 'a \<Rightarrow> bool" where
  "is_ok (Inl e) = False"
| "is_ok (Inr v) = True"

text \<open>\<open>for x in xs { f(x)?; }\<close>: the first error stops the loop.\<close>

fun for_each :: "('a \<Rightarrow> 'e + unit) \<Rightarrow> 'a list \<Rightarrow> 'e + unit" where
  "for_each f [] = Inr ()"
| "for_each f (x # xs) = and_then (f x) (\<lambda>_. for_each f xs)"

text \<open>Consecutive checks, each ending in \<open>?\<close> or an early return: the first error counts.\<close>

fun all_ok :: "('e + unit) list \<Rightarrow> 'e + unit" where
  "all_ok [] = Inr ()"
| "all_ok (r # rs) = (case r of Inl e \<Rightarrow> Inl e | Inr u \<Rightarrow> all_ok rs)"

lemma set_map_filter: "x \<in> set (List.map_filter f xs) \<longleftrightarrow> (\<exists>y \<in> set xs. f y = Some x)"
  by (induction xs) (auto split: option.splits)

definition when_some :: "('a \<Rightarrow> 'e + unit) \<Rightarrow> 'a option \<Rightarrow> 'e + unit" where
  "when_some f x = (case x of None \<Rightarrow> Inr () | Some v \<Rightarrow> f v)"

lemma all_ok_Inr_iff [result_simps]: "all_ok rs = Inr u \<longleftrightarrow> list_all (\<lambda>r. r = Inr ()) rs"
  by (induction rs) (auto split: sum.splits)

declare all_ok.simps [simp del]

lemma when_some_Inr_iff [result_simps]:
  "when_some f x = Inr u \<longleftrightarrow> (\<forall>v. x = Some v \<longrightarrow> f v = Inr ())"
  by (auto simp: when_some_def split: option.splits)

lemma and_then_Inr_iff [result_simps]:
  "and_then r f = Inr v \<longleftrightarrow> (\<exists>x. r = Inr x \<and> f x = Inr v)"
  by (cases r) auto

lemma map_err_Inr_iff [result_simps]: "map_err f r = Inr v \<longleftrightarrow> r = Inr v"
  by (cases r) auto

lemma is_ok_iff [result_simps]: "is_ok r \<longleftrightarrow> (\<exists>v. r = Inr v)"
  by (cases r) auto

lemma reject_if_Inr_iff [result_simps]: "reject_if bad e = Inr u \<longleftrightarrow> \<not> bad"
  by (simp add: reject_if_def)

lemma reject_if_Inl_iff [result_simps]: "reject_if bad e = Inl e' \<longleftrightarrow> bad \<and> e' = e"
  by (auto simp: reject_if_def)

lemma for_each_Inr_iff [result_simps]:
  "for_each f xs = Inr u \<longleftrightarrow> (\<forall>x\<in>set xs. f x = Inr ())"
  by (induction xs) (auto simp: result_simps)

lemma for_each_Inl:
  "for_each f xs = Inl e \<Longrightarrow> \<exists>x\<in>set xs. f x = Inl e"
proof (induction xs)
  case Nil
  then show ?case by simp
next
  case (Cons x xs)
  then show ?case by (cases "f x") auto
qed

lemma and_then_Inl_iff [result_simps]:
  "and_then r f = Inl e \<longleftrightarrow> r = Inl e \<or> (\<exists>x. r = Inr x \<and> f x = Inl e)"
  by (cases r) auto

lemma ok_or_iff [result_simps]:
  "ok_or e x = Inr v \<longleftrightarrow> x = Some v"
  "ok_or e x = Inl e' \<longleftrightarrow> x = None \<and> e' = e"
  by (auto simp: ok_or_def split: option.splits)

section \<open>Strings\<close>

definition starts_with :: "string \<Rightarrow> string \<Rightarrow> bool" where
  "starts_with s p = (take (length p) s = p)"

definition ends_with :: "string \<Rightarrow> string \<Rightarrow> bool" where
  "ends_with s p = starts_with (rev s) (rev p)"

fun contains_str :: "string \<Rightarrow> string \<Rightarrow> bool" where
  "contains_str [] p = (p = [])"
| "contains_str (c # s) p = (starts_with (c # s) p \<or> contains_str s p)"

definition strip_prefix :: "string \<Rightarrow> string \<Rightarrow> string option" where
  "strip_prefix s p = (if starts_with s p then Some (drop (length p) s) else None)"

lemma starts_with_Nil [simp]: "starts_with s []"
  by (simp add: starts_with_def)

lemma starts_with_prefix: "starts_with s p \<longleftrightarrow> prefix p s"
  by (metis append_eq_conv_conj prefix_def starts_with_def)

lemma starts_with_append [simp]: "starts_with (p @ s) p"
  by (simp add: starts_with_def)

lemma starts_with_trans: "starts_with s p \<Longrightarrow> starts_with p q \<Longrightarrow> starts_with s q"
  unfolding starts_with_prefix by (rule prefix_order.trans)

lemma strip_prefix_Some [str_simps]: "strip_prefix s p = Some t \<longleftrightarrow> s = p @ t"
  by (auto simp: strip_prefix_def starts_with_def) (metis append_take_drop_id)

lemma starts_with_split: "starts_with s p \<Longrightarrow> s = p @ drop (length p) s"
  by (metis append_take_drop_id starts_with_def)

lemma strip_prefix_append [simp]: "strip_prefix (p @ s) p = Some s"
  by (simp add: str_simps)

text \<open>\<open>str::split_once\<close> and \<open>str::split\<close> at a character.\<close>

fun split_once :: "char \<Rightarrow> string \<Rightarrow> (string \<times> string) option" where
  "split_once d [] = None"
| "split_once d (c # s) =
     (if c = d then Some ([], s)
      else (case split_once d s of None \<Rightarrow> None | Some (a, b) \<Rightarrow> Some (c # a, b)))"

fun split_on :: "char \<Rightarrow> string \<Rightarrow> string list" where
  "split_on d [] = [[]]"
| "split_on d (c # s) =
     (if c = d then [] # split_on d s
      else (case split_on d s of [] \<Rightarrow> [[c]] | x # xs \<Rightarrow> (c # x) # xs))"

lemma split_once_append: "d \<notin> set a \<Longrightarrow> split_once d (a @ d # b) = Some (a, b)"
  by (induction a) auto

lemma split_once_Some: "split_once d s = Some (a, b) \<Longrightarrow> s = a @ d # b \<and> d \<notin> set a"
  by (induction s arbitrary: a b) (auto split: if_splits option.splits)

lemma split_once_iff: "split_once d s = Some (a, b) \<longleftrightarrow> s = a @ d # b \<and> d \<notin> set a"
  using split_once_append split_once_Some by metis

lemma split_on_not_Nil [simp]: "split_on d s \<noteq> []"
  by (induction s) (auto split: list.splits)

lemma split_on_pieces: "x \<in> set (split_on d s) \<Longrightarrow> d \<notin> set x"
  by (induction s arbitrary: x) (auto split: if_splits list.splits)

subsection \<open>Whitespace and trimming\<close>

text \<open>
  \<open>str::trim\<close> and the class \<open>\s\<close> of the \<open>regex\<close> crate use Unicode's \<open>White_Space\<close>.
  These are its characters as UTF-8 byte sequences.
\<close>

definition ws_seqs :: "string list" where
  "ws_seqs =
     [[CHR 0x09], [CHR 0x0A], [CHR 0x0B], [CHR 0x0C], [CHR 0x0D], [CHR 0x20],
      [CHR 0xC2, CHR 0x85], [CHR 0xC2, CHR 0xA0], [CHR 0xE1, CHR 0x9A, CHR 0x80],
      [CHR 0xE2, CHR 0x80, CHR 0x80], [CHR 0xE2, CHR 0x80, CHR 0x81],
      [CHR 0xE2, CHR 0x80, CHR 0x82], [CHR 0xE2, CHR 0x80, CHR 0x83],
      [CHR 0xE2, CHR 0x80, CHR 0x84], [CHR 0xE2, CHR 0x80, CHR 0x85],
      [CHR 0xE2, CHR 0x80, CHR 0x86], [CHR 0xE2, CHR 0x80, CHR 0x87],
      [CHR 0xE2, CHR 0x80, CHR 0x88], [CHR 0xE2, CHR 0x80, CHR 0x89],
      [CHR 0xE2, CHR 0x80, CHR 0x8A], [CHR 0xE2, CHR 0x80, CHR 0xA8],
      [CHR 0xE2, CHR 0x80, CHR 0xA9], [CHR 0xE2, CHR 0x80, CHR 0xAF],
      [CHR 0xE2, CHR 0x81, CHR 0x9F], [CHR 0xE3, CHR 0x80, CHR 0x80]]"

definition strip_len :: "string list \<Rightarrow> string \<Rightarrow> nat" where
  "strip_len seqs s =
     (case find (\<lambda>w. w \<noteq> [] \<and> starts_with s w) seqs of None \<Rightarrow> 0 | Some w \<Rightarrow> length w)"

lemma strip_len_Nil [simp]: "strip_len seqs [] = 0"
  by (auto simp: strip_len_def starts_with_def find_Some_iff split: option.splits)

lemma strip_len_le: "strip_len seqs s \<le> length s"
proof (cases "find (\<lambda>w. w \<noteq> [] \<and> starts_with s w) seqs")
  case None
  then show ?thesis by (simp add: strip_len_def)
next
  case (Some w)
  then have "take (length w) s = w"
    by (auto simp: find_Some_iff starts_with_def)
  then have "length w \<le> length s"
    by (metis length_take min.cobounded1)
  with Some show ?thesis by (simp add: strip_len_def)
qed

function strip_all :: "string list \<Rightarrow> string \<Rightarrow> string" where
  "strip_all seqs s =
     (if strip_len seqs s = 0 then s else strip_all seqs (drop (strip_len seqs s) s))"
  by pat_completeness auto
termination
proof (relation "measure (\<lambda>(seqs, s). length s)", goal_cases)
  case 1
  show ?case by simp
next
  case (2 seqs s)
  then have "s \<noteq> []" by (auto intro: ccontr)
  with 2 show ?case by simp
qed

declare strip_all.simps [simp del]

definition trim_start :: "string \<Rightarrow> string" where
  "trim_start s = strip_all ws_seqs s"

definition trim_end :: "string \<Rightarrow> string" where
  "trim_end s = rev (strip_all (map rev ws_seqs) (rev s))"

definition trim :: "string \<Rightarrow> string" where
  "trim s = trim_end (trim_start s)"

lemma strip_all_suffix: "suffix (strip_all seqs s) s"
proof (induction seqs s rule: strip_all.induct)
  case (1 seqs s)
  show ?case
  proof (cases "strip_len seqs s = 0")
    case True
    then show ?thesis by (simp add: strip_all.simps [of seqs s])
  next
    case False
    then show ?thesis
      using 1 by (simp add: strip_all.simps [of seqs s])
        (metis suffix_drop suffix_order.trans)
  qed
qed

lemma strip_all_done: "strip_len seqs (strip_all seqs s) = 0"
proof (induction seqs s rule: strip_all.induct)
  case (1 seqs s)
  then show ?case
    by (cases "strip_len seqs s = 0") (simp_all add: strip_all.simps [of seqs s])
qed

lemma strip_all_Nil [simp]: "strip_all seqs [] = []"
  by (simp add: strip_all.simps)

lemma trim_Nil [simp]: "trim [] = []"
  by (simp add: trim_def trim_start_def trim_end_def)

lemma set_trim: "set (trim s) \<subseteq> set s"
proof -
  have "set (strip_all seqs t) \<subseteq> set t" for seqs t
    using strip_all_suffix [of seqs t] by (rule set_mono_suffix)
  then have "set (trim s) \<subseteq> set (trim_start s)" "set (trim_start s) \<subseteq> set s"
    by (auto simp: trim_def trim_end_def trim_start_def) (metis set_rev subset_code(1))
  then show ?thesis by blast
qed

lemma trim_nonempty_imp: "trim s \<noteq> [] \<Longrightarrow> s \<noteq> []"
  by auto

text \<open>A string without whitespace bytes at either end is its own trim.\<close>

definition ws_head :: "char \<Rightarrow> bool" where
  "ws_head c = (c \<in> set (map hd ws_seqs))"

definition ws_last :: "char \<Rightarrow> bool" where
  "ws_last c = (c \<in> set (map last ws_seqs))"

lemma strip_len_0:
  assumes "\<And>w. w \<in> set seqs \<Longrightarrow> w \<noteq> [] \<Longrightarrow> hd w \<noteq> c"
  shows "strip_len seqs (c # s) = 0"
proof -
  have "find (\<lambda>w. w \<noteq> [] \<and> starts_with (c # s) w) seqs = None"
    unfolding find_None_iff
  proof
    assume "\<exists>x. x \<in> set seqs \<and> x \<noteq> [] \<and> starts_with (c # s) x"
    then obtain w where w: "w \<in> set seqs" "w \<noteq> []" "starts_with (c # s) w" by blast
    then have "hd (take (length w) (c # s)) = c" by (cases "length w") auto
    then have "hd w = c" using w(3) by (simp add: starts_with_def)
    with assms [of w] w show False by blast
  qed
  then show ?thesis by (simp add: strip_len_def)
qed

lemma trim_id:
  assumes "s \<noteq> []" "\<not> ws_head (hd s)" "\<not> ws_last (last s)"
  shows "trim s = s"
proof -
  have *: "\<And>w. w \<in> set ws_seqs \<Longrightarrow> w \<noteq> []" by (auto simp: ws_seqs_def)
  obtain c t where s: "s = c # t" using assms(1) by (cases s) auto
  have "strip_len ws_seqs s = 0" unfolding s
    by (rule strip_len_0) (use assms(2) s in \<open>auto simp: ws_head_def\<close>)
  then have 1: "trim_start s = s" by (simp add: trim_start_def strip_all.simps)
  obtain d u where r: "rev s = d # u" using assms(1) by (cases "rev s") auto
  then have d: "d = last s" by (metis hd_rev list.sel(1))
  have "strip_len (map rev ws_seqs) (rev s) = 0" unfolding r
  proof (rule strip_len_0)
    fix w assume "w \<in> set (map rev ws_seqs)"
    then obtain v where "v \<in> set ws_seqs" "w = rev v" by auto
    moreover from this have "hd w = last v" using * [of v] by (simp add: hd_rev)
    ultimately show "hd w \<noteq> d" using assms(3) d unfolding ws_last_def by (metis image_eqI image_set)
  qed
  then have "trim_end s = s" by (simp add: trim_end_def strip_all.simps)
  with 1 show ?thesis by (simp add: trim_def)
qed

subsection \<open>UTF-8\<close>

text \<open>\<open>String::from_utf8\<close> accepts exactly the well-formed sequences.\<close>

definition byte_in :: "nat \<Rightarrow> nat \<Rightarrow> char \<Rightarrow> bool" where
  "byte_in lo hi c = (lo \<le> (of_char c :: nat) \<and> (of_char c :: nat) \<le> hi)"

definition utf8_width :: "string \<Rightarrow> nat" where
  "utf8_width s =
     (let cont = byte_in 0x80 0xBF
      in case s of
           [] \<Rightarrow> 0
         | a # t \<Rightarrow>
             if byte_in 0 0x7F a then 1
             else (case t of
                     [] \<Rightarrow> 0
                   | b # u \<Rightarrow>
                       if byte_in 0xC2 0xDF a \<and> cont b then 2
                       else (case u of
                               [] \<Rightarrow> 0
                             | c # v \<Rightarrow>
                                 if (a = CHR 0xE0 \<and> byte_in 0xA0 0xBF b
                                     \<or> byte_in 0xE1 0xEC a \<and> cont b
                                     \<or> a = CHR 0xED \<and> byte_in 0x80 0x9F b
                                     \<or> byte_in 0xEE 0xEF a \<and> cont b) \<and> cont c then 3
                                 else (case v of
                                         [] \<Rightarrow> 0
                                       | d # w \<Rightarrow>
                                           if (a = CHR 0xF0 \<and> byte_in 0x90 0xBF b
                                               \<or> byte_in 0xF1 0xF3 a \<and> cont b
                                               \<or> a = CHR 0xF4 \<and> byte_in 0x80 0x8F b)
                                              \<and> cont c \<and> cont d then 4 else 0))))"

function utf8_valid :: "string \<Rightarrow> bool" where
  "utf8_valid s =
     (if s = [] then True
      else if utf8_width s = 0 then False
      else utf8_valid (drop (utf8_width s) s))"
  by pat_completeness auto
termination
  by (relation "measure length") auto

declare utf8_valid.simps [simp del]

lemma utf8_valid_ascii: "list_all (byte_in 0 0x7F) s \<Longrightarrow> utf8_valid s"
proof (induction s)
  case (Cons c s)
  then have "utf8_width (c # s) = 1" by (simp add: utf8_width_def Let_def)
  then show ?case using Cons by (subst utf8_valid.simps) simp
qed (subst utf8_valid.simps, simp)

subsection \<open>ASCII classes and decimal numbers\<close>

definition is_ascii_digit :: "char \<Rightarrow> bool" where
  "is_ascii_digit c = (48 \<le> (of_char c :: nat) \<and> (of_char c :: nat) \<le> 57)"

definition is_ascii_upper :: "char \<Rightarrow> bool" where
  "is_ascii_upper c = (65 \<le> (of_char c :: nat) \<and> (of_char c :: nat) \<le> 90)"

definition is_ascii_lower :: "char \<Rightarrow> bool" where
  "is_ascii_lower c = (97 \<le> (of_char c :: nat) \<and> (of_char c :: nat) \<le> 122)"

definition is_ascii_alphanumeric :: "char \<Rightarrow> bool" where
  "is_ascii_alphanumeric c = (is_ascii_digit c \<or> is_ascii_upper c \<or> is_ascii_lower c)"

definition to_ascii_lower :: "char \<Rightarrow> char" where
  "to_ascii_lower c = (if is_ascii_upper c then char_of ((of_char c :: nat) + 32) else c)"

definition to_ascii_upper :: "char \<Rightarrow> char" where
  "to_ascii_upper c = (if is_ascii_lower c then char_of ((of_char c :: nat) - 32) else c)"

text \<open>
  \<open>str::parse::<u32>\<close>: an optional \<open>+\<close>, then at least one ASCII digit, and the value
  must fit.  \<open>show_nat\<close> is the decimal \<open>Display\<close> of an unsigned integer.
\<close>

fun digits_val :: "nat \<Rightarrow> string \<Rightarrow> nat" where
  "digits_val acc [] = acc"
| "digits_val acc (c # s) = digits_val (10 * acc + (of_char c - 48)) s"

definition parse_u32 :: "string \<Rightarrow> u32 option" where
  "parse_u32 s =
     (let ds = (case s of [] \<Rightarrow> [] | c # t \<Rightarrow> if c = CHR ''+'' then t else s)
      in if ds \<noteq> [] \<and> list_all is_ascii_digit ds \<and> digits_val 0 ds < 2 ^ 32
         then Some (word_of_nat (digits_val 0 ds)) else None)"

fun show_nat :: "nat \<Rightarrow> string" where
  "show_nat n =
     (if n < 10 then [char_of (48 + n)] else show_nat (n div 10) @ [char_of (48 + n mod 10)])"

declare show_nat.simps [simp del]

lemma digits_val_append: "digits_val acc (s @ [c]) = 10 * digits_val acc s + (of_char c - 48)"
  by (induction s arbitrary: acc) auto

lemma is_ascii_digit_char_of [simp]: "n < 10 \<Longrightarrow> is_ascii_digit (char_of (48 + n :: nat))"
  by (simp add: is_ascii_digit_def)

lemma show_nat_digits: "list_all is_ascii_digit (show_nat n)"
proof (induction n rule: show_nat.induct)
  case (1 n)
  then show ?case
    by (cases "n < 10") (simp_all add: show_nat.simps [of n])
qed

lemma show_nat_not_Nil [simp]: "show_nat n \<noteq> []"
  by (subst show_nat.simps) simp

lemma digits_val_show_nat: "digits_val 0 (show_nat n) = n"
proof (induction n rule: show_nat.induct)
  case (1 n)
  then show ?case
    by (cases "n < 10") (simp_all add: show_nat.simps [of n] digits_val_append)
qed

lemma show_nat_head: "\<exists>c s. show_nat n = c # s \<and> is_ascii_digit c"
  using show_nat_digits [of n] by (cases "show_nat n") auto

lemma is_ascii_digit_neq:
  "is_ascii_digit c \<Longrightarrow> c \<noteq> CHR ''+''" "is_ascii_digit c \<Longrightarrow> c \<noteq> CHR ''/''"
  by (auto simp: is_ascii_digit_def)

lemma parse_u32_show_nat: "n < 2 ^ 32 \<Longrightarrow> parse_u32 (show_nat n) = Some (word_of_nat n)"
proof -
  assume n: "n < 2 ^ 32"
  obtain c s where cs: "show_nat n = c # s" "is_ascii_digit c"
    using show_nat_head by blast
  then have "c \<noteq> CHR ''+''" using is_ascii_digit_neq(1) by blast
  then have "(case show_nat n of [] \<Rightarrow> [] | c # t \<Rightarrow> if c = CHR ''+'' then t else c # t)
      = show_nat n" using cs by simp
  moreover have "(case show_nat n of [] \<Rightarrow> [] | c # t \<Rightarrow> if c = CHR ''+'' then t else show_nat n)
      = show_nat n" using cs \<open>c \<noteq> CHR ''+''\<close> by simp
  ultimately show ?thesis
    using n show_nat_digits [of n] by (simp add: parse_u32_def Let_def digits_val_show_nat)
qed

end
