(* ===== verification/Errors.thy ===== *)
theory Errors
  imports Prelude
begin

text \<open>
  \<open>src/error.rs\<close>: the crate's opaque error type, its classification (HTTP status,
  client-safe, transient), the redaction of internal detail in responses, and the
  conversions from foreign errors.  The boxed source is represented by what it
  displays.
\<close>

datatype error_kind =
    Database | Authentication | Configuration | Tls | Io | InvalidInput
  | CircuitBreakerOpen | CircuitBreakerFailed | Internal

record error =
  err_kind :: error_kind
  err_source :: string

record error_response =
  er_error_code :: string
  er_message :: string
  er_details :: "string option"

definition error_new :: "error_kind \<Rightarrow> string \<Rightarrow> error" where
  "error_new k msg = \<lparr>err_kind = k, err_source = msg\<rparr>"

definition error_kind_of :: "error \<Rightarrow> error_kind" where
  "error_kind_of e = err_kind e"

fun kind_code :: "error_kind \<Rightarrow> string" where
  "kind_code Database = ''DATABASE_ERROR''"
| "kind_code Authentication = ''AUTH_ERROR''"
| "kind_code Configuration = ''CONFIG_ERROR''"
| "kind_code Tls = ''TLS_ERROR''"
| "kind_code Io = ''IO_ERROR''"
| "kind_code InvalidInput = ''INVALID_INPUT''"
| "kind_code CircuitBreakerOpen = ''CIRCUIT_BREAKER_OPEN''"
| "kind_code CircuitBreakerFailed = ''CIRCUIT_BREAKER_CALL_FAILED''"
| "kind_code Internal = ''INTERNAL_ERROR''"

definition error_code :: "error \<Rightarrow> string" where
  "error_code e = kind_code (err_kind e)"

fun kind_status :: "error_kind \<Rightarrow> nat" where
  "kind_status Database = 503"
| "kind_status Authentication = 401"
| "kind_status Configuration = 500"
| "kind_status Tls = 500"
| "kind_status Io = 500"
| "kind_status InvalidInput = 400"
| "kind_status CircuitBreakerOpen = 503"
| "kind_status CircuitBreakerFailed = 502"
| "kind_status Internal = 500"

definition status_code :: "error \<Rightarrow> nat" where
  "status_code e = kind_status (err_kind e)"

definition is_client_safe :: "error \<Rightarrow> bool" where
  "is_client_safe e =
     (err_kind e \<in> {Authentication, InvalidInput, CircuitBreakerOpen, CircuitBreakerFailed})"

definition is_transient :: "error \<Rightarrow> bool" where
  "is_transient e = (err_kind e \<in> {Io, Database, CircuitBreakerFailed})"

definition error_display :: "error \<Rightarrow> string" where
  "error_display e = err_source e"

definition error_response_new :: "string \<Rightarrow> string \<Rightarrow> error_response" where
  "error_response_new code msg =
     \<lparr>er_error_code = code, er_message = msg, er_details = None\<rparr>"

definition with_details :: "error_response \<Rightarrow> string \<Rightarrow> error_response" where
  "with_details r d = r\<lparr>er_details := Some d\<rparr>"

definition to_error_response :: "error \<Rightarrow> error_response" where
  "to_error_response e =
     error_response_new (error_code e)
       (if is_client_safe e then error_display e else ''An internal error occurred'')"

definition into_inner :: "error \<Rightarrow> string" where
  "into_inner e = err_source e"

section \<open>Constructors\<close>

definition database_error :: "string \<Rightarrow> error" where
  "database_error msg = error_new Database msg"

definition database_config_error :: "string \<Rightarrow> error" where
  "database_config_error msg =
     error_new Database (''Database configuration error: '' @ msg)"

definition authentication_error :: "string \<Rightarrow> error" where
  "authentication_error msg = error_new Authentication msg"

definition config_error :: "string \<Rightarrow> error" where
  "config_error msg = error_new Configuration msg"

definition tls_error :: "string \<Rightarrow> error" where
  "tls_error msg = error_new Tls msg"

definition io_error :: "string \<Rightarrow> error" where
  "io_error msg = error_new Io msg"

text \<open>The argument is the text of the \<open>std::io::Error\<close>.\<close>

definition error_from_io :: "string \<Rightarrow> error" where
  "error_from_io err = error_new Io err"

definition invalid_input_error :: "string \<Rightarrow> error" where
  "invalid_input_error msg = error_new InvalidInput msg"

definition circuit_breaker_open_error :: "string \<Rightarrow> error" where
  "circuit_breaker_open_error target =
     error_new CircuitBreakerOpen (''Circuit breaker open for target: '' @ target)"

definition circuit_breaker_failed_error :: "string \<Rightarrow> error" where
  "circuit_breaker_failed_error msg = error_new CircuitBreakerFailed msg"

definition internal_error :: "string \<Rightarrow> error" where
  "internal_error msg = error_new Internal msg"

lemmas error_constructors =
  database_error_def database_config_error_def authentication_error_def config_error_def
  tls_error_def io_error_def invalid_input_error_def circuit_breaker_open_error_def
  circuit_breaker_failed_error_def internal_error_def error_new_def

text \<open>The foreign errors with a \<open>From\<close> instance, each by what it displays.\<close>

datatype foreign_error =
    IoError string | TomlError string | UrlParseError string | VarError string
  | InvalidHeaderValue string | SqlxError string | RustlsError string

fun error_from :: "foreign_error \<Rightarrow> error" where
  "error_from (IoError m) = error_new Io m"
| "error_from (TomlError m) = error_new Configuration m"
| "error_from (UrlParseError m) = error_new InvalidInput m"
| "error_from (VarError m) = error_new Configuration m"
| "error_from (InvalidHeaderValue m) = error_new InvalidInput m"
| "error_from (SqlxError m) = error_new Database m"
| "error_from (RustlsError m) = error_new Tls m"

section \<open>Responses\<close>

datatype log_level = LogDebug | LogError

record error_log =
  log_level :: log_level
  log_code :: string
  log_detail :: string
  log_status :: nat

record json_response =
  jr_status :: nat
  jr_body :: error_response

text \<open>\<open>IntoResponse\<close>: the response with the record it logs.\<close>

definition is_server_error :: "nat \<Rightarrow> bool" where
  "is_server_error s = (500 \<le> s \<and> s < 600)"

definition error_into_response :: "error \<Rightarrow> error_log \<times> json_response" where
  "error_into_response e =
     (let status = status_code e; resp = to_error_response e
      in (\<lparr>log_level = (if is_server_error status then LogError else LogDebug),
           log_code = er_error_code resp, log_detail = err_source e, log_status = status\<rparr>,
          \<lparr>jr_status = status, jr_body = resp\<rparr>))"

lemmas error_defs =
  error_code_def status_code_def is_client_safe_def is_transient_def error_display_def
  error_response_new_def to_error_response_def error_into_response_def is_server_error_def Let_def

lemma status_range: "400 \<le> status_code e \<and> status_code e < 600"
  by (cases "err_kind e") (simp_all add: error_defs)

lemma kind_code_inj: "kind_code a = kind_code b \<longleftrightarrow> a = b"
  by (cases a; cases b; simp)

lemma error_new_simps [simp]:
  "err_kind (error_new k m) = k" "err_source (error_new k m) = m"
  by (simp_all add: error_new_def)

end
