(* ===== verification/Http.thy ===== *)
theory Http
  imports Prelude Errors
begin

text \<open>
  The parts of requests and responses the middlewares read and build.  A header lookup
  \<open>req.headers().get(name)\<close> is an abstract function of the request: absent, present but
  not a visible ASCII string (\<open>to_str\<close> fails), or present with its text.
\<close>

datatype header_value = Absent | NotText | HeaderText string

fun to_str_ok :: "header_value \<Rightarrow> string option" where
  "to_str_ok (HeaderText s) = Some s"
| "to_str_ok _ = None"

fun header_present :: "header_value \<Rightarrow> bool" where
  "header_present Absent = False"
| "header_present _ = True"

datatype http_method = GET | HEAD | POST | PUT | DELETE | PATCH | OPTIONS | OtherMethod string

datatype body = EmptyBody | TextBody string | JsonError error_response | Handler string

record response =
  rs_status :: nat
  rs_headers :: "(string \<times> string) list"
  rs_body :: body

text \<open>
  What a middleware decides: to run the rest of the stack on a (possibly changed) request,
  or to answer without it.
\<close>

datatype 'q decision = Next 'q | Reply response

definition status_response :: "nat \<Rightarrow> response" where
  "status_response s = \<lparr>rs_status = s, rs_headers = [], rs_body = EmptyBody\<rparr>"

definition text_response :: "nat \<Rightarrow> string \<Rightarrow> response" where
  "text_response s t = \<lparr>rs_status = s, rs_headers = [], rs_body = TextBody t\<rparr>"

definition error_response :: "error \<Rightarrow> response" where
  "error_response e =
     \<lparr>rs_status = jr_status (snd (error_into_response e)), rs_headers = [],
      rs_body = JsonError (jr_body (snd (error_into_response e)))\<rparr>"

definition add_header :: "string \<Rightarrow> string \<Rightarrow> response \<Rightarrow> response" where
  "add_header k v r = r\<lparr>rs_headers := rs_headers r @ [(k, v)]\<rparr>"

end
