(* ===== verification/Utils.thy ===== *)
theory Utils
  imports Http
begin

text \<open>
  \<open>src/utils.rs\<close>: placeholder substitution in configuration text, API versions from
  paths, headers and query strings, request identifiers, redirect targets and secrets.

  The regular expressions are written out as the scanners they denote: leftmost match, and
  greedy repetitions, which never need to give back a character here because what follows a
  repetition is outside its class.  \<open>\d\<close> is the Unicode class of decimal digits; its
  non-ASCII members are the argument \<open>nd\<close>, which gives the length in bytes of such a digit
  at the head of a string, or zero.
\<close>

section \<open>Secrets and small predicates\<close>

datatype 'a sensitive = Sensitive 'a

fun expose_secret :: "'a sensitive \<Rightarrow> 'a" where
  "expose_secret (Sensitive x) = x"

definition sensitive_from_str :: "string \<Rightarrow> string sensitive" where
  "sensitive_from_str s = Sensitive s"

definition sensitive_eq :: "'a sensitive \<Rightarrow> 'a sensitive \<Rightarrow> bool" where
  "sensitive_eq a b = (expose_secret a = expose_secret b)"

definition sensitive_debug :: "'a sensitive \<Rightarrow> string" where
  "sensitive_debug s = ''Sensitive(****)''"

text \<open>The comparison itself is the \<open>subtle\<close> crate's \<open>ct_eq\<close>.\<close>

definition constant_time_eq :: "(string \<Rightarrow> string \<Rightarrow> bool) \<Rightarrow> string \<Rightarrow> string \<Rightarrow> bool" where
  "constant_time_eq ct_eq a b = ct_eq a b"

definition is_safe_local_path :: "string \<Rightarrow> bool" where
  "is_safe_local_path path =
     (starts_with path ''/'' \<and> \<not> starts_with path ''//'' \<and> \<not> starts_with path [CHR ''/'', CHR 0x5C])"

definition is_valid_request_id :: "string \<Rightarrow> bool" where
  "is_valid_request_id value =
     (value \<noteq> [] \<and> length value \<le> 128
      \<and> list_all (\<lambda>b. is_ascii_alphanumeric b \<or> b \<in> {CHR ''-'', CHR ''.'', CHR ''_'', CHR '':''}) value)"

text \<open>\<open>compile\<close> is \<open>Regex::new\<close>; \<open>None\<close> is the panic of \<open>expect\<close>.\<close>

definition compile_const_regex :: "(string \<Rightarrow> string + 'r) \<Rightarrow> string \<Rightarrow> 'r option" where
  "compile_const_regex compile pattern = (case compile pattern of Inr r \<Rightarrow> Some r | Inl e \<Rightarrow> None)"

text \<open>\<open>uuid\<close> is the fresh UUIDv7 as text and \<open>from_str\<close> is \<open>HeaderValue::from_str(..).ok()\<close>.\<close>

definition make_request_id ::
  "string \<Rightarrow> (string \<Rightarrow> string option) \<Rightarrow> (string \<Rightarrow> header_value) \<Rightarrow> string option" where
  "make_request_id uuid from_str header =
     (case header ''x-request-id'' of
        HeaderText v \<Rightarrow> if is_valid_request_id v then Some v else from_str uuid
      | _ \<Rightarrow> from_str uuid)"

section \<open>Placeholders\<close>

definition is_var_char :: "char \<Rightarrow> bool" where
  "is_var_char c = (is_ascii_upper c \<or> is_ascii_digit c \<or> c = CHR ''_'')"

text \<open>A match of \<open>{{\s*([A-Z0-9_]+)\s*}}\<close> at the head: the name and the rest.\<close>

definition handlebar_match :: "string \<Rightarrow> (string \<times> string) option" where
  "handlebar_match s =
     (case strip_prefix s ''{{'' of
        None \<Rightarrow> None
      | Some t \<Rightarrow>
          (let u = strip_all ws_seqs t; name = takeWhile is_var_char u
           in if name = [] then None
              else (case strip_prefix (strip_all ws_seqs (dropWhile is_var_char u)) ''}}'' of
                      None \<Rightarrow> None
                    | Some rest \<Rightarrow> Some (name, rest))))"

lemma strip_all_length: "length (strip_all seqs s) \<le> length s"
  using strip_all_suffix by (rule suffix_length_le)

lemma strip_prefix_length: "strip_prefix s p = Some t \<Longrightarrow> length s = length p + length t"
  by (auto simp: str_simps)

lemma handlebar_match_length: "handlebar_match s = Some (name, rest) \<Longrightarrow> length rest < length s"
proof -
  assume "handlebar_match s = Some (name, rest)"
  then obtain t where t: "strip_prefix s ''{{'' = Some t"
    and r: "strip_prefix (strip_all ws_seqs (dropWhile is_var_char (strip_all ws_seqs t))) ''}}''
      = Some rest"
    by (auto simp: handlebar_match_def Let_def split: option.splits if_splits)
  have "length rest \<le> length (strip_all ws_seqs (dropWhile is_var_char (strip_all ws_seqs t)))"
    using strip_prefix_length [OF r] by simp
  also have "\<dots> \<le> length (dropWhile is_var_char (strip_all ws_seqs t))" by (rule strip_all_length)
  also have "\<dots> \<le> length (strip_all ws_seqs t)" by (rule length_dropWhile_le)
  also have "\<dots> \<le> length t" by (rule strip_all_length)
  finally show ?thesis using strip_prefix_length [OF t] by simp
qed

text \<open>\<open>env name\<close> is \<open>env::var(name).ok()\<close>; an unset variable becomes the empty string.\<close>

function replace_handlebars_with_env :: "(string \<Rightarrow> string option) \<Rightarrow> string \<Rightarrow> string" where
  "replace_handlebars_with_env env s =
     (case handlebar_match s of
        Some (name, rest) \<Rightarrow>
          (case env name of None \<Rightarrow> [] | Some v \<Rightarrow> v) @ replace_handlebars_with_env env rest
      | None \<Rightarrow> (case s of [] \<Rightarrow> [] | c # t \<Rightarrow> c # replace_handlebars_with_env env t))"
  by pat_completeness auto
termination
  by (relation "measure (\<lambda>(env, s). length s)") (auto dest: handlebar_match_length)

declare replace_handlebars_with_env.simps [simp del]

abbreviation replace_hb :: "(string \<Rightarrow> string option) \<Rightarrow> string \<Rightarrow> string" where
  "replace_hb \<equiv> replace_handlebars_with_env"

lemma replace_hb_Nil [simp]: "replace_hb env [] = []"
  by (simp add: replace_handlebars_with_env.simps handlebar_match_def strip_prefix_def starts_with_def)

lemma handlebar_match_head: "c \<noteq> CHR ''{'' \<Longrightarrow> handlebar_match (c # s) = None"
  by (simp add: handlebar_match_def strip_prefix_def starts_with_def)

lemma replace_hb_skip: "c \<noteq> CHR ''{'' \<Longrightarrow> replace_hb env (c # s) = c # replace_hb env s"
  by (subst replace_handlebars_with_env.simps) (simp add: handlebar_match_head)

lemma replace_hb_plain: "CHR ''{'' \<notin> set p \<Longrightarrow> replace_hb env (p @ s) = p @ replace_hb env s"
  by (induction p) (auto simp: replace_hb_skip)

text \<open>A placeholder as the documentation writes it, with any number of blanks.\<close>

definition placeholder :: "nat \<Rightarrow> string \<Rightarrow> nat \<Rightarrow> string" where
  "placeholder i name j = ''{{'' @ replicate i CHR '' '' @ name @ replicate j CHR '' '' @ ''}}''"

definition var_value :: "(string \<Rightarrow> string option) \<Rightarrow> string \<Rightarrow> string" where
  "var_value env name = (case env name of None \<Rightarrow> [] | Some v \<Rightarrow> v)"

lemma strip_all_blanks:
  "strip_len ws_seqs s = 0 \<Longrightarrow> strip_all ws_seqs (replicate i CHR '' '' @ s) = s"
proof (induction i)
  case 0
  then show ?case by (simp add: strip_all.simps)
next
  case (Suc i)
  have "strip_len ws_seqs (CHR '' '' # t) = 1" for t
    by (simp add: strip_len_def ws_seqs_def starts_with_def)
  then show ?case using Suc by (subst strip_all.simps) simp
qed

lemma strip_len_ascii:
  assumes "0x20 < (of_char c :: nat)" "(of_char c :: nat) < 0x80"
  shows "strip_len ws_seqs (c # s) = 0"
  by (rule strip_len_0) (use assms in \<open>auto simp: ws_seqs_def\<close>)

lemma var_char_ascii: "is_var_char c \<Longrightarrow> 0x20 < (of_char c :: nat) \<and> (of_char c :: nat) < 0x80"
  by (auto simp: is_var_char_def is_ascii_upper_def is_ascii_digit_def)

lemma handlebar_match_placeholder:
  assumes "name \<noteq> []" "list_all is_var_char name"
  shows "handlebar_match (placeholder i name j @ s) = Some (name, s)"
proof -
  obtain c n where cn: "name = c # n" using assms(1) by (cases name) auto
  have "strip_len ws_seqs (name @ t) = 0" for t
    using assms(2) var_char_ascii [of c] by (simp add: cn strip_len_ascii)
  then have u: "strip_all ws_seqs (replicate i CHR '' '' @ name @ t) = name @ t" for t
    by (rule strip_all_blanks)
  have all: "\<forall>x \<in> set name. is_var_char x" using assms(2) by (simp add: list_all_iff)
  have stop: "takeWhile is_var_char (replicate j CHR '' '' @ ''}}'' @ s) = []"
    by (cases j) (simp_all add: is_var_char_def is_ascii_upper_def is_ascii_digit_def)
  then have tw: "takeWhile is_var_char (name @ replicate j CHR '' '' @ ''}}'' @ s) = name"
    using all by simp
  have dw: "dropWhile is_var_char (name @ replicate j CHR '' '' @ ''}}'' @ s)
      = replicate j CHR '' '' @ ''}}'' @ s"
    using all stop by (cases j) (simp_all add: is_var_char_def is_ascii_upper_def is_ascii_digit_def)
  have "strip_len ws_seqs (''}}'' @ s) = 0"
    by (simp add: strip_len_ascii)
  then have e: "strip_all ws_seqs (replicate j CHR '' '' @ ''}}'' @ s) = ''}}'' @ s"
    by (rule strip_all_blanks)
  have "placeholder i name j @ s
      = ''{{'' @ (replicate i CHR '' '' @ name @ replicate j CHR '' '' @ ''}}'' @ s)"
    by (simp add: placeholder_def)
  then show ?thesis using assms(1)
    by (simp only: handlebar_match_def strip_prefix_append option.case u tw dw e Let_def) simp
qed

lemma replace_hb_placeholder:
  assumes "name \<noteq> []" "list_all is_var_char name"
  shows "replace_hb env (placeholder i name j @ s) = var_value env name @ replace_hb env s"
  by (subst replace_handlebars_with_env.simps)
    (simp add: handlebar_match_placeholder [OF assms] var_value_def)


text \<open>Substitution copies text without \<open>{\<close> unchanged, replaces a placeholder with any
blanks around an upper-case name by the variable's value (nothing if it is unset), and
goes on behind it: a substituted value is not expanded again in the same pass.\<close>
theorem handlebars_substitution:
  assumes "name \<noteq> []" "list_all is_var_char name" "CHR ''{'' \<notin> set p"
  shows "replace_handlebars_with_env env (p @ placeholder i name j @ s) =
    p @ var_value env name @ replace_handlebars_with_env env s"
  using assms by (simp add: replace_hb_plain replace_hb_placeholder)

theorem handlebars_substitution_witness:
  "replace_handlebars_with_env [''HOME'' \<mapsto> ''{{ X }}''] (''dir = '' @ placeholder 1 ''HOME'' 1 @ ''/'')
   = ''dir = {{ X }}/''"
  by (subst handlebars_substitution)
    (simp_all add: var_value_def is_var_char_def is_ascii_upper_def replace_hb_skip)

section \<open>API versions\<close>

datatype api_version = ApiVersion (as_u32: u32)

definition api_version_new :: "u32 \<Rightarrow> api_version" where
  "api_version_new v = ApiVersion v"

definition api_version_from_u32 :: "u32 \<Rightarrow> api_version" where
  "api_version_from_u32 v = api_version_new v"

instantiation api_version :: linorder
begin

definition less_eq_api_version :: "api_version \<Rightarrow> api_version \<Rightarrow> bool" where
  "less_eq_api_version a b = (as_u32 a \<le> as_u32 b)"

definition less_api_version :: "api_version \<Rightarrow> api_version \<Rightarrow> bool" where
  "less_api_version a b = (as_u32 a < as_u32 b)"

instance
  by standard (auto simp: less_eq_api_version_def less_api_version_def api_version.expand)

end

definition api_version_display :: "api_version \<Rightarrow> string" where
  "api_version_display v = CHR ''v'' # show_nat (unat (as_u32 v))"

definition digit_len :: "(string \<Rightarrow> nat) \<Rightarrow> string \<Rightarrow> nat" where
  "digit_len nd s = (case s of [] \<Rightarrow> 0 | c # t \<Rightarrow> if is_ascii_digit c then 1 else nd s)"

function digit_run :: "(string \<Rightarrow> nat) \<Rightarrow> string \<Rightarrow> string \<times> string" where
  "digit_run nd s =
     (let k = digit_len nd s
      in if k = 0 then ([], s)
         else (let (d, r) = digit_run nd (drop k s) in (take k s @ d, r)))"
  by pat_completeness auto
termination
  by (relation "measure (\<lambda>(nd, s). length s)") (auto simp: digit_len_def split: list.splits)

declare digit_run.simps [simp del]

text \<open>The captured digits of the leftmost match of \<open>/v(\d+)(?:/|$)\<close> and of \<open>version=(\d+)\<close>.\<close>

fun find_path_version :: "(string \<Rightarrow> nat) \<Rightarrow> string \<Rightarrow> string option" where
  "find_path_version nd [] = None"
| "find_path_version nd (c # s) =
     (case strip_prefix (c # s) ''/v'' of
        Some t \<Rightarrow>
          (let (d, r) = digit_run nd t
           in if d \<noteq> [] \<and> (r = [] \<or> hd r = CHR ''/'') then Some d else find_path_version nd s)
      | None \<Rightarrow> find_path_version nd s)"

fun find_after :: "(string \<Rightarrow> nat) \<Rightarrow> string \<Rightarrow> string \<Rightarrow> string option" where
  "find_after nd p [] = None"
| "find_after nd p (c # s) =
     (case strip_prefix (c # s) p of
        Some t \<Rightarrow> (let (d, r) = digit_run nd t in if d \<noteq> [] then Some d else find_after nd p s)
      | None \<Rightarrow> find_after nd p s)"

text \<open>\<open>[?&]version=(\d+)\<close>.\<close>

fun find_query_version :: "(string \<Rightarrow> nat) \<Rightarrow> string \<Rightarrow> string option" where
  "find_query_version nd [] = None"
| "find_query_version nd (c # s) =
     (if c = CHR ''?'' \<or> c = CHR ''&''
      then (case strip_prefix s ''version='' of
              Some t \<Rightarrow>
                (let (d, r) = digit_run nd t in if d \<noteq> [] then Some d else find_query_version nd s)
            | None \<Rightarrow> find_query_version nd s)
      else find_query_version nd s)"

definition version_of_digits :: "string \<Rightarrow> api_version option" where
  "version_of_digits d = map_option ApiVersion (parse_u32 d)"

definition version_from_path :: "(string \<Rightarrow> nat) \<Rightarrow> string \<Rightarrow> api_version option" where
  "version_from_path nd path = Option.bind (find_path_version nd path) version_of_digits"

definition version_from_header :: "(string \<Rightarrow> nat) \<Rightarrow> string \<Rightarrow> api_version option" where
  "version_from_header nd value =
     (case parse_u32 (trim value) of
        Some n \<Rightarrow> Some (ApiVersion n)
      | None \<Rightarrow> Option.bind (find_after nd ''version='' value) version_of_digits)"

definition version_from_query :: "(string \<Rightarrow> nat) \<Rightarrow> string \<Rightarrow> api_version option" where
  "version_from_query nd query = Option.bind (find_query_version nd query) version_of_digits"

text \<open>\<open>nd\<close> is about characters outside ASCII.\<close>

definition beyond_ascii :: "(string \<Rightarrow> nat) \<Rightarrow> bool" where
  "beyond_ascii nd = (\<forall>c s. (of_char c :: nat) < 128 \<longrightarrow> nd (c # s) = 0)"

lemma digit_run_stop:
  assumes "beyond_ascii nd" "r = [] \<or> (of_char (hd r) :: nat) < 128 \<and> \<not> is_ascii_digit (hd r)"
  shows "digit_run nd r = ([], r)"
  using assms by (cases r) (auto simp: digit_run.simps digit_len_def beyond_ascii_def)

lemma digit_run_ascii:
  assumes "beyond_ascii nd" "list_all is_ascii_digit d"
    "r = [] \<or> (of_char (hd r) :: nat) < 128 \<and> \<not> is_ascii_digit (hd r)"
  shows "digit_run nd (d @ r) = (d, r)"
  using assms(2)
proof (induction d)
  case Nil
  then show ?case using digit_run_stop [OF assms(1,3)] by simp
next
  case (Cons c d)
  then show ?case by (subst digit_run.simps) (simp add: digit_len_def)
qed

lemma version_of_show: "version_of_digits (show_nat (unat v)) = Some (ApiVersion v)"
  using unat_u32_less [of v] by (simp add: version_of_digits_def parse_u32_show_nat)

text \<open>No occurrence of a string begins in \<open>p\<close>.\<close>

fun avoids :: "string \<Rightarrow> string \<Rightarrow> string \<Rightarrow> bool" where
  "avoids p [] s = True"
| "avoids p (c # q) s = (\<not> starts_with (c # q @ s) p \<and> avoids p q s)"

lemma find_path_skip: "avoids ''/v'' p s \<Longrightarrow> find_path_version nd (p @ s) = find_path_version nd s"
  by (induction p) (auto simp: strip_prefix_def)

lemma find_query_skip:
  "CHR ''?'' \<notin> set p \<Longrightarrow> CHR ''&'' \<notin> set p \<Longrightarrow>
   find_query_version nd (p @ s) = find_query_version nd s"
  by (induction p) auto

text \<open>A path segment that displays a version is read back as that version, for all
\<open>2 ^ 32\<close> of them, whatever follows it, if nothing before it looks like a version segment;
the order on versions is the numeric one.\<close>
theorem version_path_roundtrip:
  assumes "beyond_ascii nd" "avoids ''/v'' p (''/'' @ api_version_display v @ r)"
    "r = [] \<or> hd r = CHR ''/''"
  shows "version_from_path nd (p @ ''/'' @ api_version_display v @ r) = Some v
    \<and> (v \<le> w \<longleftrightarrow> unat (as_u32 v) \<le> unat (as_u32 w))"
proof -
  let ?d = "show_nat (unat (as_u32 v))"
  have run: "digit_run nd (?d @ r) = (?d, r)"
    by (rule digit_run_ascii [OF assms(1) show_nat_digits])
      (use assms(3) in \<open>auto simp: is_ascii_digit_def\<close>)
  have "find_path_version nd (p @ ''/'' @ api_version_display v @ r)
      = find_path_version nd (''/'' @ api_version_display v @ r)"
    by (rule find_path_skip [OF assms(2)])
  also have "\<dots> = Some ?d"
    using run assms(3) by (simp add: api_version_display_def strip_prefix_def starts_with_def)
  finally show ?thesis
    by (simp add: version_from_path_def version_of_show less_eq_api_version_def word_le_nat_alt)
qed

theorem version_path_roundtrip_witness:
  "version_from_path (\<lambda>s. 0) (''/api'' @ ''/'' @ api_version_display (ApiVersion 2) @ ''/users'')
   = Some (ApiVersion 2)"
  by (rule conjunct1 [OF version_path_roundtrip]) (simp_all add: beyond_ascii_def starts_with_def)

text \<open>In a query string, which is what follows the question mark, a version parameter
is read only if another parameter precedes it; as the first parameter it is ignored.\<close>
theorem version_query_first_ignored:
  assumes "beyond_ascii nd" "CHR ''?'' \<notin> set p" "CHR ''&'' \<notin> set p"
  shows "version_from_query nd (''version='' @ show_nat (unat (as_u32 v))) = None
    \<and> version_from_query nd (p @ ''&version='' @ show_nat (unat (as_u32 v))) = Some v"
proof -
  let ?d = "show_nat (unat (as_u32 v))"
  have run: "digit_run nd ?d = (?d, [])"
    using digit_run_ascii [OF assms(1) show_nat_digits, of "[]"] by simp
  have dig: "CHR ''?'' \<notin> set ?d" "CHR ''&'' \<notin> set ?d"
    using show_nat_digits [of "unat (as_u32 v)"] by (auto simp: list_all_iff is_ascii_digit_def)
  have "find_query_version nd ((''version='' @ ?d) @ []) = find_query_version nd []"
    by (rule find_query_skip) (use dig in auto)
  then have "version_from_query nd (''version='' @ ?d) = None"
    by (simp add: version_from_query_def)
  moreover have "find_query_version nd (p @ ''&version='' @ ?d) = Some ?d"
    unfolding find_query_skip [OF assms(2,3)] using run by (simp add: strip_prefix_def starts_with_def)
  ultimately show ?thesis by (simp add: version_from_query_def version_of_show)
qed

theorem version_query_first_ignored_witness:
  "version_from_query (\<lambda>s. 0) (''version='' @ show_nat (unat (as_u32 (ApiVersion 1)))) = None
   \<and> version_from_query (\<lambda>s. 0) (''page=3'' @ ''&version='' @ show_nat (unat (as_u32 (ApiVersion 1))))
     = Some (ApiVersion 1)"
  by (rule version_query_first_ignored) (simp_all add: beyond_ascii_def)

end
