(* ===== verification/Net.thy ===== *)
theory Net
  imports Prelude
begin

text \<open>
  \<open>str::parse::<IpAddr>\<close> of the standard library, as the configuration uses it: an IPv4
  address in dotted decimal without leading zeros, or an IPv6 address with an optional
  \<open>::\<close> and an optional trailing IPv4 part, and nothing behind it.
\<close>

datatype ip_addr = V4 "nat list" | V6 "nat list"

definition hex_digit :: "char \<Rightarrow> nat option" where
  "hex_digit c =
     (if is_ascii_digit c then Some (of_char c - 48)
      else if 97 \<le> (of_char c :: nat) \<and> (of_char c :: nat) \<le> 102 then Some (of_char c - 87)
      else if 65 \<le> (of_char c :: nat) \<and> (of_char c :: nat) \<le> 70 then Some (of_char c - 55)
      else None)"

definition radix_digit :: "nat \<Rightarrow> char \<Rightarrow> nat option" where
  "radix_digit radix c = (case hex_digit c of Some d \<Rightarrow> if d < radix then Some d else None | None \<Rightarrow> None)"

definition read_number :: "nat \<Rightarrow> nat \<Rightarrow> bool \<Rightarrow> nat \<Rightarrow> string \<Rightarrow> (nat \<times> string) option" where
  "read_number radix max_digits zero_prefix bound s =
     (let ds = takeWhile (\<lambda>c. radix_digit radix c \<noteq> None) s;
          n = fold (\<lambda>c n. radix * n + the (radix_digit radix c)) ds 0
      in if ds = [] \<or> length ds > max_digits \<or> n > bound
            \<or> (\<not> zero_prefix \<and> hd ds = CHR ''0'' \<and> length ds > 1)
         then None else Some (n, drop (length ds) s))"

definition read_char :: "char \<Rightarrow> string \<Rightarrow> string option" where
  "read_char c s = (case s of [] \<Rightarrow> None | d # t \<Rightarrow> if c = d then Some t else None)"

definition after_separator ::
  "char \<Rightarrow> nat \<Rightarrow> (string \<Rightarrow> ('a \<times> string) option) \<Rightarrow> string \<Rightarrow> ('a \<times> string) option" where
  "after_separator c i f s =
     (if i = 0 then f s else (case read_char c s of None \<Rightarrow> None | Some t \<Rightarrow> f t))"

fun read_octets :: "nat \<Rightarrow> nat \<Rightarrow> string \<Rightarrow> (nat list \<times> string) option" where
  "read_octets 0 i s = Some ([], s)"
| "read_octets (Suc k) i s =
     (case after_separator CHR ''.'' i (read_number 10 3 False 255) s of
        None \<Rightarrow> None
      | Some (n, t) \<Rightarrow>
          (case read_octets k (i + 1) t of None \<Rightarrow> None | Some (ns, u) \<Rightarrow> Some (n # ns, u)))"

definition read_ipv4 :: "string \<Rightarrow> (nat list \<times> string) option" where
  "read_ipv4 s = read_octets 4 0 s"

text \<open>At most \<open>k\<close> more groups; the flag says that an IPv4 part was read.\<close>

fun read_groups :: "nat \<Rightarrow> nat \<Rightarrow> string \<Rightarrow> nat list \<times> bool \<times> string" where
  "read_groups 0 i s = ([], False, s)"
| "read_groups (Suc k) i s =
     (case (if k > 0 then after_separator CHR '':'' i read_ipv4 s else None) of
        Some (os, t) \<Rightarrow> ([256 * os ! 0 + os ! 1, 256 * os ! 2 + os ! 3], True, t)
      | None \<Rightarrow>
          (case after_separator CHR '':'' i (read_number 16 4 True 65535) s of
             None \<Rightarrow> ([], False, s)
           | Some (g, t) \<Rightarrow> (let (gs, v4, u) = read_groups k (i + 1) t in (g # gs, v4, u))))"

definition read_ipv6 :: "string \<Rightarrow> (nat list \<times> string) option" where
  "read_ipv6 s =
     (let (hs, v4, t) = read_groups 8 0 s
      in if length hs = 8 then Some (hs, t)
         else if v4 then None
         else (case strip_prefix t ''::'' of
                 None \<Rightarrow> None
               | Some u \<Rightarrow>
                   (let (ts, _, w) = read_groups (8 - (length hs + 1)) 0 u
                    in Some (hs @ replicate (8 - length hs - length ts) 0 @ ts, w))))"

definition parse_ip :: "string \<Rightarrow> ip_addr option" where
  "parse_ip s =
     (case (case read_ipv4 s of
              Some (os, t) \<Rightarrow> Some (V4 os, t)
            | None \<Rightarrow> (case read_ipv6 s of Some (gs, t) \<Rightarrow> Some (V6 gs, t) | None \<Rightarrow> None)) of
        Some (ip, []) \<Rightarrow> Some ip
      | _ \<Rightarrow> None)"

fun is_loopback :: "ip_addr \<Rightarrow> bool" where
  "is_loopback (V4 os) = (hd os = 127)"
| "is_loopback (V6 gs) = (gs = [0, 0, 0, 0, 0, 0, 0, 1])"

text \<open>Evaluation with numerals.\<close>

lemma read_octets_numeral:
  "read_octets (numeral v) i s =
     (case after_separator CHR ''.'' i (read_number 10 3 False 255) s of
        None \<Rightarrow> None
      | Some (n, t) \<Rightarrow>
          (case read_octets (pred_numeral v) (i + 1) t of
             None \<Rightarrow> None
           | Some (ns, u) \<Rightarrow> Some (n # ns, u)))"
  by (simp add: numeral_eq_Suc)

lemma read_groups_numeral:
  "read_groups (numeral v) i s =
     (case (if pred_numeral v > 0 then after_separator CHR '':'' i read_ipv4 s else None) of
        Some (os, t) \<Rightarrow> ([256 * os ! 0 + os ! 1, 256 * os ! 2 + os ! 3], True, t)
      | None \<Rightarrow>
          (case after_separator CHR '':'' i (read_number 16 4 True 65535) s of
             None \<Rightarrow> ([], False, s)
           | Some (g, t) \<Rightarrow>
               (let (gs, v4, u) = read_groups (pred_numeral v) (i + 1) t in (g # gs, v4, u))))"
  by (simp add: numeral_eq_Suc)

lemma replicate_numeral: "replicate (numeral v) x = x # replicate (pred_numeral v) x"
  by (simp add: numeral_eq_Suc)

lemmas ip_eval =
  replicate_numeral
  parse_ip_def read_ipv4_def read_ipv6_def read_octets_numeral read_groups_numeral
  after_separator_def read_char_def read_number_def radix_digit_def hex_digit_def
  is_ascii_digit_def strip_prefix_def starts_with_def Let_def

lemma parse_any_v4: "parse_ip ''0.0.0.0'' = Some (V4 [0, 0, 0, 0])"
  by (simp add: ip_eval)

lemma parse_localhost: "parse_ip ''127.0.0.1'' = Some (V4 [127, 0, 0, 1])"
  by (simp add: ip_eval)

lemma parse_leading_zero: "parse_ip ''127.0.0.01'' = None"
  by (simp add: ip_eval)

lemma parse_loopback_v6: "parse_ip ''::1'' = Some (V6 [0, 0, 0, 0, 0, 0, 0, 1])"
  by (simp add: ip_eval)

end
