(* ===== verification/Circuit_Breaker.thy ===== *)
theory Circuit_Breaker
  imports Prelude Errors
begin

text \<open>
  \<open>src/circuit_breaker/state.rs\<close> with \<open>src/config/http/circuit_breaker.rs\<close>: the three-state
  breaker.  Every method of \<open>CircuitBreakerState\<close> is one critical section of its mutex,
  so a method is one function on the breaker and an execution is a sequence of method
  calls, each with the value of \<open>Instant::now()\<close> it reads.  Counters are \<^typ>\<open>u32\<close> and
  wrap, as in a release build.
\<close>

section \<open>Configuration and state\<close>

record cb_target_config =
  failure_threshold :: u32
  success_threshold :: u32
  reset_timeout :: nanos
  half_open_max_calls :: u32
  call_timeout :: "nanos option"

definition default_failure_threshold :: u32 where
  "default_failure_threshold = 5"

definition default_success_threshold :: u32 where
  "default_success_threshold = 3"

definition default_reset_timeout :: nanos where
  "default_reset_timeout = secs 30"

definition default_half_open_max_calls :: u32 where
  "default_half_open_max_calls = 3"

definition cb_target_default :: cb_target_config where
  "cb_target_default =
     \<lparr>failure_threshold = default_failure_threshold,
      success_threshold = default_success_threshold,
      reset_timeout = default_reset_timeout,
      half_open_max_calls = default_half_open_max_calls,
      call_timeout = None\<rparr>"

datatype circuit_state = Closed | Open | HalfOpen

fun circuit_state_display :: "circuit_state \<Rightarrow> string" where
  "circuit_state_display Closed = ''closed''"
| "circuit_state_display Open = ''open''"
| "circuit_state_display HalfOpen = ''half-open''"

record cb_inner =
  cb_state :: circuit_state
  failure_count :: u32
  success_count :: u32
  half_open_calls :: u32
  last_failure_time :: "nanos option"

record breaker =
  cb_config :: cb_target_config
  cb_guarded :: cb_inner

definition cb_new :: "cb_target_config \<Rightarrow> breaker" where
  "cb_new cfg =
     \<lparr>cb_config = cfg,
      cb_guarded = \<lparr>cb_state = Closed, failure_count = 0, success_count = 0,
                    half_open_calls = 0, last_failure_time = None\<rparr>\<rparr>"

section \<open>Operations\<close>

definition transition_to_open :: "nanos \<Rightarrow> cb_inner \<Rightarrow> cb_inner" where
  "transition_to_open now g =
     g\<lparr>cb_state := Open, last_failure_time := Some now, failure_count := 0,
       success_count := 0, half_open_calls := 0\<rparr>"

definition transition_to_half_open :: "cb_inner \<Rightarrow> cb_inner" where
  "transition_to_half_open g = g\<lparr>cb_state := HalfOpen, success_count := 0, half_open_calls := 0\<rparr>"

definition transition_to_closed :: "cb_inner \<Rightarrow> cb_inner" where
  "transition_to_closed g =
     g\<lparr>cb_state := Closed, failure_count := 0, success_count := 0, half_open_calls := 0\<rparr>"

definition should_allow :: "nanos \<Rightarrow> breaker \<Rightarrow> bool \<times> breaker" where
  "should_allow now b =
     (let g = cb_guarded b; cfg = cb_config b
      in case cb_state g of
           Closed \<Rightarrow> (True, b)
         | Open \<Rightarrow>
             (case last_failure_time g of
                Some t \<Rightarrow>
                  if now - t \<ge> reset_timeout cfg
                  then let g' = transition_to_half_open g
                       in (True, b\<lparr>cb_guarded := g'\<lparr>half_open_calls := half_open_calls g' + 1\<rparr>\<rparr>)
                  else (False, b)
              | None \<Rightarrow> (False, b))
         | HalfOpen \<Rightarrow>
             (let current_calls = half_open_calls g
              in (current_calls < half_open_max_calls cfg,
                  b\<lparr>cb_guarded := g\<lparr>half_open_calls := half_open_calls g + 1\<rparr>\<rparr>)))"

definition record_success :: "breaker \<Rightarrow> breaker" where
  "record_success b =
     (let g = cb_guarded b
      in case cb_state g of
           Closed \<Rightarrow> b\<lparr>cb_guarded := g\<lparr>failure_count := 0\<rparr>\<rparr>
         | HalfOpen \<Rightarrow>
             (let g' = g\<lparr>success_count := success_count g + 1\<rparr>
              in b\<lparr>cb_guarded := if success_count g' \<ge> success_threshold (cb_config b)
                                then transition_to_closed g' else g'\<rparr>)
         | Open \<Rightarrow> b)"

definition record_neutral :: "breaker \<Rightarrow> breaker" where
  "record_neutral b =
     (let g = cb_guarded b
      in if cb_state g = Closed then b\<lparr>cb_guarded := g\<lparr>failure_count := 0\<rparr>\<rparr> else b)"

definition record_failure :: "nanos \<Rightarrow> breaker \<Rightarrow> breaker" where
  "record_failure now b =
     (let g = cb_guarded b
      in case cb_state g of
           Closed \<Rightarrow>
             (let g' = g\<lparr>failure_count := failure_count g + 1\<rparr>
              in b\<lparr>cb_guarded := if failure_count g' \<ge> failure_threshold (cb_config b)
                                then transition_to_open now g' else g'\<rparr>)
         | HalfOpen \<Rightarrow> b\<lparr>cb_guarded := transition_to_open now g\<rparr>
         | Open \<Rightarrow> b)"

definition current_state :: "breaker \<Rightarrow> circuit_state" where
  "current_state b = cb_state (cb_guarded b)"

definition is_open :: "breaker \<Rightarrow> bool" where
  "is_open b = (cb_state (cb_guarded b) = Open)"

definition is_fast_failing :: "nanos \<Rightarrow> breaker \<Rightarrow> bool" where
  "is_fast_failing now b =
     (case cb_state (cb_guarded b) of
        Open \<Rightarrow>
          (case last_failure_time (cb_guarded b) of
             Some t \<Rightarrow> now - t < reset_timeout (cb_config b)
           | None \<Rightarrow> False)
      | Closed \<Rightarrow> False
      | HalfOpen \<Rightarrow> False)"

definition get_failure_count :: "breaker \<Rightarrow> u32" where
  "get_failure_count b = failure_count (cb_guarded b)"

definition get_success_count :: "breaker \<Rightarrow> u32" where
  "get_success_count b = success_count (cb_guarded b)"

definition get_call_timeout :: "breaker \<Rightarrow> nanos option" where
  "get_call_timeout b = call_timeout (cb_config b)"

section \<open>Executions\<close>

text \<open>The four state-changing methods as operations, and runs of them.\<close>

datatype cb_op = Allow | Success | Neutral | Failure

fun cb_apply :: "nanos \<Rightarrow> cb_op \<Rightarrow> breaker \<Rightarrow> breaker" where
  "cb_apply now Allow b = snd (should_allow now b)"
| "cb_apply now Success b = record_success b"
| "cb_apply now Neutral b = record_neutral b"
| "cb_apply now Failure b = record_failure now b"

definition cb_admits :: "nanos \<Rightarrow> cb_op \<Rightarrow> breaker \<Rightarrow> bool" where
  "cb_admits now op b = (op = Allow \<and> fst (should_allow now b))"

fun cb_run :: "breaker \<Rightarrow> (nanos \<times> cb_op) list \<Rightarrow> breaker" where
  "cb_run b [] = b"
| "cb_run b ((now, op) # es) = cb_run (cb_apply now op b) es"

fun cb_admitted :: "breaker \<Rightarrow> (nanos \<times> cb_op) list \<Rightarrow> nat" where
  "cb_admitted b [] = 0"
| "cb_admitted b ((now, op) # es) =
     (if cb_admits now op b then 1 else 0) + cb_admitted (cb_apply now op b) es"

inductive cb_reach :: "cb_target_config \<Rightarrow> nanos \<Rightarrow> breaker \<Rightarrow> bool" for cfg where
  init: "cb_reach cfg now (cb_new cfg)"
| step: "cb_reach cfg t b \<Longrightarrow> t \<le> now \<Longrightarrow> cb_reach cfg now (cb_apply now op b)"

inductive_cases cb_reach_cases: "cb_reach cfg now b"

lemmas cb_transition_defs =
  transition_to_open_def transition_to_half_open_def transition_to_closed_def

lemmas cb_op_defs =
  should_allow_def record_success_def record_neutral_def record_failure_def Let_def

lemmas cb_view_defs =
  current_state_def is_open_def is_fast_failing_def get_failure_count_def get_success_count_def
  get_call_timeout_def

section \<open>The invariant\<close>

text \<open>
  What holds between critical sections: the counters that a state does not use are
  zero, those it uses are below their thresholds, and a breaker that is not closed
  for the first time knows when it opened.
\<close>

definition cb_inv :: "nanos \<Rightarrow> breaker \<Rightarrow> bool" where
  "cb_inv now b =
     (let g = cb_guarded b; cfg = cb_config b
      in case cb_state g of
           Closed \<Rightarrow> success_count g = 0 \<and> half_open_calls g = 0
             \<and> (failure_count g = 0 \<or> failure_count g < failure_threshold cfg)
         | Open \<Rightarrow> failure_count g = 0 \<and> success_count g = 0 \<and> half_open_calls g = 0
             \<and> (\<exists>t. last_failure_time g = Some t \<and> t \<le> now)
         | HalfOpen \<Rightarrow> failure_count g = 0
             \<and> (success_count g = 0 \<or> success_count g < success_threshold cfg)
             \<and> (\<exists>t. last_failure_time g = Some t \<and> t \<le> now))"

lemma cb_config_apply [simp]: "cb_config (cb_apply now op b) = cb_config b"
  by (cases op) (auto simp: cb_op_defs split: circuit_state.splits option.splits)

lemmas cb_config_ops [simp] =
  cb_config_apply [of _ Allow, simplified] cb_config_apply [of _ Success, simplified]
  cb_config_apply [of _ Neutral, simplified] cb_config_apply [of _ Failure, simplified]

lemma cb_config_run [simp]: "cb_config (cb_run b es) = cb_config b"
  by (induction b es rule: cb_run.induct) auto

lemma cb_inv_new: "cb_inv now (cb_new cfg)"
  by (simp add: cb_inv_def cb_new_def)

lemma cb_inv_mono: "cb_inv t b \<Longrightarrow> t \<le> now \<Longrightarrow> cb_inv now b"
  by (fastforce simp: cb_inv_def Let_def split: circuit_state.splits)

lemma cb_inv_allow: "cb_inv now b \<Longrightarrow> cb_inv now (snd (should_allow now b))"
  by (auto simp: cb_inv_def cb_op_defs cb_transition_defs
      split: circuit_state.splits option.splits)

lemma cb_inv_success: "cb_inv now b \<Longrightarrow> cb_inv now (record_success b)"
  by (auto simp: cb_inv_def cb_op_defs cb_transition_defs not_le split: circuit_state.splits)

lemma cb_inv_neutral: "cb_inv now b \<Longrightarrow> cb_inv now (record_neutral b)"
  by (auto simp: cb_inv_def cb_op_defs split: circuit_state.splits)

lemma cb_inv_failure: "cb_inv now b \<Longrightarrow> cb_inv now (record_failure now b)"
  by (auto simp: cb_inv_def cb_op_defs cb_transition_defs not_le split: circuit_state.splits)

lemma cb_inv_apply: "cb_inv now b \<Longrightarrow> cb_inv now (cb_apply now op b)"
  by (cases op) (auto intro: cb_inv_allow cb_inv_success cb_inv_neutral cb_inv_failure)

lemma cb_reach_inv: "cb_reach cfg now b \<Longrightarrow> cb_inv now b \<and> cb_config b = cfg"
proof (induction rule: cb_reach.induct)
  case (init now)
  then show ?case by (simp add: cb_inv_new) (simp add: cb_new_def)
next
  case (step t b now op)
  then show ?case using cb_inv_mono cb_inv_apply by auto
qed


text \<open>All the states of a run are \<open>s\<close>.\<close>

fun cb_stays :: "circuit_state \<Rightarrow> breaker \<Rightarrow> (nanos \<times> cb_op) list \<Rightarrow> bool" where
  "cb_stays s b [] = (current_state b = s)"
| "cb_stays s b ((now, op) # es) =
     (current_state b = s \<and> cb_stays s (cb_apply now op b) es)"

lemma cb_stays_first: "cb_stays s b es \<Longrightarrow> current_state b = s"
  by (cases es) auto

section \<open>Opening: consecutive failures\<close>

text \<open>
  The word thresholds as numbers: a threshold of zero acts as one, because the counter
  is incremented before it is compared.
\<close>

definition threshold_nat :: "u32 \<Rightarrow> nat" where
  "threshold_nat w = max 1 (unat w)"

lemma threshold_step:
  assumes "c = 0 \<or> c < (w :: u32)"
  shows "w \<le> c + 1 \<longleftrightarrow> threshold_nat w \<le> unat c + 1"
proof (cases "w = 0")
  case True
  then show ?thesis by (simp add: threshold_nat_def)
next
  case False
  then have "c < w" using assms by (auto simp: word_gt_0)
  then have "unat (c + 1) = unat c + 1" by (rule unat_Suc_u32)
  then show ?thesis using False
    by (simp add: threshold_nat_def word_le_nat_alt unat_eq_0 max_def Suc_le_eq unat_gt_0)
qed

lemma threshold_below:
  "c = 0 \<or> c < (w :: u32) \<Longrightarrow> unat c < threshold_nat w"
  by (auto simp: threshold_nat_def word_less_nat_alt)

lemma threshold_below_step:
  assumes "c = 0 \<or> c < (w :: u32)" "\<not> w \<le> c + 1"
  shows "unat (c + 1) = unat c + 1" "c + 1 < w"
proof -
  have "c < w" using assms by (metis add_0 not_le word_gt_0 word_neq_0_conv
        word_zero_le)
  then show "unat (c + 1) = unat c + 1" by (rule unat_Suc_u32)
  show "c + 1 < w" using assms(2) by simp
qed

lemma sublist_separator:
  assumes "c \<notin> set xs"
  shows "sublist xs (ys @ c # zs) \<longleftrightarrow> sublist xs ys \<or> sublist xs zs"
proof
  assume "sublist xs (ys @ c # zs)"
  then consider "sublist xs ys" | "sublist xs (c # zs)"
    | us vs where "xs = us @ vs" "suffix us ys" "prefix vs (c # zs)"
    unfolding sublist_append by blast
  then show "sublist xs ys \<or> sublist xs zs"
  proof cases
    case 2
    then show ?thesis using assms by (cases xs) (auto simp: sublist_Cons_right)
  next
    case 3
    then show ?thesis using assms by (cases vs) auto
  qed blast
next
  assume "sublist xs ys \<or> sublist xs zs"
  then show "sublist xs (ys @ c # zs)"
    by (auto simp: sublist_append sublist_Cons_right)
qed

lemma sublist_streak:
  assumes "k < n" "c \<noteq> d"
  shows "sublist (replicate n c) (replicate k c @ d # zs) \<longleftrightarrow> sublist (replicate n c) zs"
proof -
  have "\<not> sublist (replicate n c) (replicate k c)"
    using assms(1) by (auto dest: sublist_length_le)
  then show ?thesis using assms by (simp add: sublist_separator)
qed

definition outcomes :: "(nanos \<times> cb_op) list \<Rightarrow> cb_op list" where
  "outcomes es = filter (\<lambda>op. op \<noteq> Allow) (map snd es)"

lemma outcomes_simps [simp]:
  "outcomes [] = []"
  "outcomes ((t, op) # es) = (if op = Allow then outcomes es else op # outcomes es)"
  by (simp_all add: outcomes_def)

lemma closed_reset:
  assumes "current_state b = Closed" "op = Success \<or> op = Neutral"
  shows "current_state (cb_apply now op b) = Closed" "cb_config (cb_apply now op b) = cb_config b"
    "failure_count (cb_guarded (cb_apply now op b)) = 0"
  using assms by (auto simp: current_state_def cb_op_defs)

lemma closed_stays_iff:
  assumes "current_state b = Closed"
    "failure_count (cb_guarded b) = 0
      \<or> failure_count (cb_guarded b) < failure_threshold (cb_config b)"
  shows "cb_stays Closed b es \<longleftrightarrow>
    \<not> sublist (replicate (threshold_nat (failure_threshold (cb_config b))) Failure)
        (replicate (unat (failure_count (cb_guarded b))) Failure @ outcomes es)"
  using assms
proof (induction Closed b es rule: cb_stays.induct)
  case (1 b)
  then have "unat (failure_count (cb_guarded b)) < threshold_nat (failure_threshold (cb_config b))"
    by (intro threshold_below) simp
  then show ?case using 1 by (auto dest: sublist_length_le)
next
  case (2 b now op es)
  let ?c = "failure_count (cb_guarded b)" and ?w = "failure_threshold (cb_config b)"
  have st: "cb_state (cb_guarded b) = Closed" using 2 by (simp add: current_state_def)
  have lt: "unat ?c < threshold_nat ?w" using 2 by (intro threshold_below) simp
  show ?case
  proof (cases op)
    case Allow
    then have "cb_apply now op b = b" using st by (simp add: should_allow_def)
    then show ?thesis using 2 Allow by simp
  next
    case Failure
    show ?thesis
    proof (cases "?w \<le> ?c + 1")
      case True
      then have "threshold_nat ?w = unat ?c + 1" using lt threshold_step 2(3) by fastforce
      moreover have "current_state (cb_apply now op b) = Open"
        using Failure st True by (simp add: current_state_def cb_op_defs cb_transition_defs)
      then have "\<not> cb_stays Closed (cb_apply now op b) es" by (auto dest: cb_stays_first)
      ultimately show ?thesis using Failure 
        by (auto simp: sublist_append replicate_append_same [symmetric])
    next
      case False
      let ?b = "cb_apply now op b"
      have b: "current_state ?b = Closed" "failure_count (cb_guarded ?b) = ?c + 1"
        using Failure st False by (simp_all add: current_state_def cb_op_defs)
      note * = threshold_below_step [OF 2(3) False]
      have "cb_stays Closed ?b es \<longleftrightarrow>
          \<not> sublist (replicate (threshold_nat ?w) Failure)
            (replicate (unat ?c + 1) Failure @ outcomes es)"
        using 2(1) b * by simp
      then show ?thesis using Failure 2(2)
        by (simp add: replicate_app_Cons_same)
    qed
  next
    case Success
    then show ?thesis using 2 lt closed_reset [OF 2(2), of op now] by (simp add: sublist_streak)
  next
    case Neutral
    then show ?thesis using 2 lt closed_reset [OF 2(2), of op now] by (simp add: sublist_streak)
  qed
qed



definition one_failure :: cb_target_config where
  "one_failure = \<lparr>failure_threshold = 1, success_threshold = 3, reset_timeout = 30,
     half_open_max_calls = 3, call_timeout = None\<rparr>"

lemma one_failure_reach:
  "cb_reach one_failure 31 (cb_apply 31 Allow (cb_apply 0 Failure (cb_new one_failure)))"
  by (intro cb_reach.step [of _ 0] cb_reach.step [of _ 0 _ 0] cb_reach.init) auto

lemma one_failure_state:
  "current_state (cb_apply 31 Allow (cb_apply 0 Failure (cb_new one_failure))) = HalfOpen"
  by code_simp


text \<open>C2: (opening) A new breaker is still closed throughout a sequence of method calls exactly
when the recorded outcomes contain no run of \<open>failure_threshold\<close> consecutive failures (one, if the
threshold is zero); successes and neutral outcomes break a run, admission checks do not.\<close>
theorem cb_opens_iff_failure_run:
  "cb_stays Closed (cb_new cfg) es \<longleftrightarrow>
   \<not> sublist (replicate (threshold_nat (failure_threshold cfg)) Failure) (outcomes es)"
proof -
  have "current_state (cb_new cfg) = Closed" "failure_count (cb_guarded (cb_new cfg)) = 0"
    "cb_config (cb_new cfg) = cfg"
    by (simp_all add: current_state_def cb_new_def)
  then show ?thesis using closed_stays_iff [of "cb_new cfg" es] by simp
qed

section \<open>Open: fast failure until the reset timeout\<close>

lemma open_step:
  assumes "current_state b = Open" "last_failure_time (cb_guarded b) = Some t"
    "now - t < reset_timeout (cb_config b)"
  shows "cb_apply now op b = b" "\<not> cb_admits now op b"
  using assms by (cases op; simp add: current_state_def cb_op_defs cb_admits_def)+

text \<open>While an open breaker is within its reset timeout, no sequence of calls, late
failures included, changes it or extends the timeout, and no request is admitted.\<close>
theorem cb_open_rejects_until_reset:
  assumes "current_state b = Open" "last_failure_time (cb_guarded b) = Some t"
    "\<forall>(now, op) \<in> set es. now - t < reset_timeout (cb_config b)"
  shows "cb_run b es = b \<and> cb_admitted b es = 0"
  using assms by (induction b es rule: cb_run.induct) (auto simp: open_step)

theorem cb_open_rejects_until_reset_witness:
  "cb_admitted (cb_apply 0 Failure (cb_new one_failure)) [(1, Failure), (29, Allow)] = 0"
  using cb_open_rejects_until_reset
    [of "cb_apply 0 Failure (cb_new one_failure)" 0 "[(1, Failure), (29, Allow)]"]
  by (simp add: current_state_def cb_op_defs cb_new_def cb_transition_defs one_failure_def
      cb_target_default_def default_reset_timeout_def)

text \<open>In every reachable state, \<open>is_fast_failing\<close> is true exactly when the
breaker is open and an admission check at that instant would be refused; in that case the
check would not have changed the breaker either.\<close>
theorem cb_fast_failing_iff:
  assumes "cb_reach cfg now b"
  shows "(is_fast_failing now b \<longleftrightarrow> current_state b = Open \<and> should_allow now b = (False, b))
    \<and> (is_open b \<longrightarrow> fst (should_allow now b) = (\<not> is_fast_failing now b))"
  using cb_reach_inv [OF assms]
  by (auto simp: cb_inv_def cb_view_defs cb_op_defs cb_transition_defs
      split: circuit_state.splits if_splits)

theorem cb_fast_failing_iff_witness:
  "is_fast_failing 29 (cb_apply 29 Failure (cb_new one_failure))"
proof -
  have r: "cb_reach one_failure 29 (cb_apply 29 Failure (cb_new one_failure))"
    by (intro cb_reach.step [of _ 0] cb_reach.init) auto
  have "should_allow 29 (cb_apply 29 Failure (cb_new one_failure))
      = (False, cb_apply 29 Failure (cb_new one_failure))"
    "current_state (cb_apply 29 Failure (cb_new one_failure)) = Open"
    by code_simp+
  then show ?thesis using cb_fast_failing_iff [OF r] by blast
qed

section \<open>Half-open: probes and recovery\<close>

definition allows :: "(nanos \<times> cb_op) list \<Rightarrow> nat" where
  "allows es = length (filter (\<lambda>e. snd e = Allow) es)"

definition successes :: "(nanos \<times> cb_op) list \<Rightarrow> nat" where
  "successes es = length (filter (\<lambda>e. snd e = Success) es)"

lemma half_open_probes:
  assumes "cb_stays HalfOpen b es" "unat (half_open_calls (cb_guarded b)) + length es < 2 ^ 32"
  shows "cb_admitted b es =
    min (allows es)
      (unat (half_open_max_calls (cb_config b)) - unat (half_open_calls (cb_guarded b)))"
  using assms
proof (induction HalfOpen b es rule: cb_stays.induct)
  case (1 b)
  then show ?case by (simp add: allows_def)
next
  case (2 b now op es)
  let ?b = "cb_apply now op b"
  have st: "cb_state (cb_guarded b) = HalfOpen" using 2 by (simp add: current_state_def)
  have s2: "cb_stays HalfOpen ?b es" using 2 by simp
  have s3: "cb_state (cb_guarded ?b) = HalfOpen"
    using cb_stays_first [OF s2] by (simp add: current_state_def)
  show ?case
  proof (cases "op = Allow")
    case True
    have c: "half_open_calls (cb_guarded ?b) = half_open_calls (cb_guarded b) + 1"
      using True st by (simp add: cb_op_defs)
    have u: "unat (half_open_calls (cb_guarded b) + 1) = unat (half_open_calls (cb_guarded b)) + 1"
      using 2(3) by (intro unat_Suc_u32_small) simp
    have "cb_admitted ?b es = min (allows es)
      (unat (half_open_max_calls (cb_config b)) - unat (half_open_calls (cb_guarded ?b)))"
      using 2 s2 c u by simp
    then show ?thesis using True st c u
      by (auto simp: allows_def cb_admits_def should_allow_def Let_def word_less_nat_alt)
  next
    case False
    have "half_open_calls (cb_guarded ?b) = half_open_calls (cb_guarded b)"
      using False st s3 by (cases op) (auto simp: cb_op_defs cb_transition_defs split: if_splits)
    then have "cb_admitted ?b es = min (allows es)
      (unat (half_open_max_calls (cb_config b)) - unat (half_open_calls (cb_guarded b)))"
      using 2 s2 by simp
    then show ?thesis using False by (simp add: allows_def cb_admits_def)
  qed
qed

text \<open>C24: (probe bound) Once its reset timeout has passed, an open breaker turns half-open at the next
admission check, and for as long as it stays half-open it admits in all exactly as many of
the requests as there are probe slots (\<open>half_open_max_calls\<close>, but at least one).\<close>
theorem cb_half_open_probe_bound:
  assumes "current_state b = Open" "last_failure_time (cb_guarded b) = Some t"
    "reset_timeout (cb_config b) \<le> now - t" "length es < 2 ^ 32 - 1"
    "cb_stays HalfOpen (cb_apply now Allow b) es"
  shows "cb_admitted b ((now, Allow) # es) =
    min (Suc (allows es)) (threshold_nat (half_open_max_calls (cb_config b)))"
proof -
  let ?b = "cb_apply now Allow b"
  have "fst (should_allow now b)" "half_open_calls (cb_guarded ?b) = 1"
    using assms by (simp_all add: cb_op_defs current_state_def cb_transition_defs)
  then show ?thesis using assms half_open_probes [OF assms(5)]
    by (simp add: cb_admits_def threshold_nat_def)
qed

definition probe_run :: "(nanos \<times> cb_op) list" where
  "probe_run = [(31, Allow), (32, Allow), (33, Allow), (34, Success)]"

theorem cb_half_open_probe_bound_witness:
  "cb_admitted (cb_apply 0 Failure (cb_new one_failure)) ((30, Allow) # probe_run) = 3"
proof -
  let ?b = "cb_apply 0 Failure (cb_new one_failure)"
  have "cb_admitted ?b ((30, Allow) # probe_run) =
      min (Suc (allows probe_run)) (threshold_nat (half_open_max_calls (cb_config ?b)))"
    by (rule cb_half_open_probe_bound [where t = 0]) (simp add: probe_run_def | code_simp)+
  also have "\<dots> = 3" by code_simp
  finally show ?thesis .
qed

text \<open>Without failures a half-open breaker closes on the \<open>success_threshold\<close>-th success.\<close>

lemma closed_no_failure:
  assumes "current_state b = Closed" "\<forall>e \<in> set es. snd e \<noteq> Failure"
  shows "current_state (cb_run b es) = Closed"
  using assms
proof (induction b es rule: cb_run.induct)
  case (2 b now op es)
  then have "current_state (cb_apply now op b) = Closed"
    by (cases op) (auto simp: current_state_def cb_op_defs)
  then show ?case using 2 by simp
qed simp

lemma half_open_no_failure:
  assumes "current_state b = HalfOpen" "\<forall>e \<in> set es. snd e \<noteq> Failure"
    "success_count (cb_guarded b) = 0
      \<or> success_count (cb_guarded b) < success_threshold (cb_config b)"
  shows "current_state (cb_run b es) =
    (if unat (success_count (cb_guarded b)) + successes es
        < threshold_nat (success_threshold (cb_config b)) then HalfOpen else Closed)"
  using assms
proof (induction b es rule: cb_run.induct)
  case (1 b)
  then show ?case using threshold_below by (simp add: successes_def)
next
  case (2 b now op es)
  let ?c = "success_count (cb_guarded b)" and ?w = "success_threshold (cb_config b)"
  let ?b = "cb_apply now op b"
  have st: "cb_state (cb_guarded b) = HalfOpen" using 2 by (simp add: current_state_def)
  show ?case
  proof (cases "op = Success")
    case True
    show ?thesis
    proof (cases "?w \<le> ?c + 1")
      case True
      then have "current_state ?b = Closed" using st \<open>op = Success\<close>
        by (simp add: current_state_def cb_op_defs cb_transition_defs)
      then have "current_state (cb_run ?b es) = Closed" using 2 closed_no_failure by simp
      then show ?thesis using threshold_step [of ?c ?w] True \<open>op = Success\<close> 2(4)
        by (simp add: successes_def)
    next
      case False
      then have "current_state ?b = HalfOpen" "success_count (cb_guarded ?b) = ?c + 1"
        using st \<open>op = Success\<close> by (simp_all add: current_state_def cb_op_defs)
      then show ?thesis using 2 threshold_below_step [OF 2(4) False] \<open>op = Success\<close>
        by (simp add: successes_def)
    qed
  next
    case False
    then have "current_state ?b = HalfOpen" "success_count (cb_guarded ?b) = ?c"
      using st 2(3) by (cases op; simp add: current_state_def cb_op_defs)+
    then show ?thesis using 2 False by (simp add: successes_def)
  qed
qed

text \<open>C25: (recovery) Starting from the probe that turns an open breaker half-open, and as long as no
call fails, the breaker closes exactly when \<open>success_threshold\<close> genuine successes (at
least one) have been recorded: neutral outcomes do not count.  A failure reopens it and
restarts the reset timeout.\<close>
theorem cb_half_open_recovery:
  assumes "current_state b = Open" "last_failure_time (cb_guarded b) = Some t"
    "reset_timeout (cb_config b) \<le> now - t" "\<forall>e \<in> set es. snd e \<noteq> Failure"
  shows "current_state (cb_run b ((now, Allow) # es)) =
      (if successes es < threshold_nat (success_threshold (cb_config b)) then HalfOpen else Closed)
    \<and> (let b' = cb_run b ((now, Allow) # es) in current_state b' = HalfOpen \<longrightarrow>
        (\<forall>t'. current_state (record_failure t' b') = Open
          \<and> last_failure_time (cb_guarded (record_failure t' b')) = Some t'))"
proof -
  let ?b = "cb_apply now Allow b"
  have "current_state ?b = HalfOpen" "success_count (cb_guarded ?b) = 0"
    using assms by (simp_all add: cb_op_defs current_state_def cb_transition_defs)
  moreover have "current_state c = HalfOpen \<Longrightarrow> current_state (record_failure t' c) = Open
      \<and> last_failure_time (cb_guarded (record_failure t' c)) = Some t'" for c t'
    by (simp add: current_state_def cb_op_defs cb_transition_defs)
  ultimately show ?thesis using assms half_open_no_failure [of ?b es] by (simp add: Let_def)
qed

theorem cb_half_open_recovery_witness:
  "current_state (cb_run (cb_apply 0 Failure (cb_new one_failure))
     ((30, Allow) # [(31, Success), (32, Neutral), (33, Success)])) = HalfOpen"
proof -
  let ?b = "cb_apply 0 Failure (cb_new one_failure)"
  let ?es = "[(31, Success), (32, Neutral), (33, Success)]"
  have "current_state (cb_run ?b ((30, Allow) # ?es)) =
      (if successes ?es < threshold_nat (success_threshold (cb_config ?b)) then HalfOpen else Closed)"
    by (rule conjunct1 [OF cb_half_open_recovery [where t = 0]]) code_simp+
  also have "\<dots> = HalfOpen" by code_simp
  finally show ?thesis .
qed


section \<open>The documented machine and the refinement\<close>

text \<open>
  The contract of the breaker as its documentation states it, with numbers instead of
  machine counters: consecutive failures while closed, the opening time while open, and
  successes and used probe slots while half-open.
\<close>

datatype cb_spec = SClosed nat | SOpen nanos | SHalfOpen nat nat nanos

fun spec_step :: "cb_target_config \<Rightarrow> nanos \<Rightarrow> cb_op \<Rightarrow> cb_spec \<Rightarrow> bool \<times> cb_spec" where
  "spec_step cfg now Allow (SClosed f) = (True, SClosed f)"
| "spec_step cfg now Success (SClosed f) = (False, SClosed 0)"
| "spec_step cfg now Neutral (SClosed f) = (False, SClosed 0)"
| "spec_step cfg now Failure (SClosed f) =
     (False, if threshold_nat (failure_threshold cfg) \<le> f + 1 then SOpen now else SClosed (f + 1))"
| "spec_step cfg now Allow (SOpen t) =
     (if reset_timeout cfg \<le> now - t then (True, SHalfOpen 0 1 t) else (False, SOpen t))"
| "spec_step cfg now op (SOpen t) = (False, SOpen t)"
| "spec_step cfg now Allow (SHalfOpen s p t) =
     (if p < threshold_nat (half_open_max_calls cfg) then (True, SHalfOpen s (p + 1) t)
      else (False, SHalfOpen s p t))"
| "spec_step cfg now Success (SHalfOpen s p t) =
     (False, if threshold_nat (success_threshold cfg) \<le> s + 1 then SClosed 0
             else SHalfOpen (s + 1) p t)"
| "spec_step cfg now Neutral (SHalfOpen s p t) = (False, SHalfOpen s p t)"
| "spec_step cfg now Failure (SHalfOpen s p t) = (False, SOpen now)"

definition cb_abs :: "breaker \<Rightarrow> cb_spec" where
  "cb_abs b =
     (let g = cb_guarded b
      in case cb_state g of
           Closed \<Rightarrow> SClosed (unat (failure_count g))
         | Open \<Rightarrow> SOpen (the (last_failure_time g))
         | HalfOpen \<Rightarrow> SHalfOpen (unat (success_count g))
             (min (unat (half_open_calls g)) (threshold_nat (half_open_max_calls (cb_config b))))
             (the (last_failure_time g)))"

definition cb_probing :: "breaker \<Rightarrow> bool" where
  "cb_probing b =
     (cb_state (cb_guarded b) = HalfOpen \<longrightarrow>
        1 \<le> unat (half_open_calls (cb_guarded b))
        \<and> unat (half_open_calls (cb_guarded b)) < 4294967295)"

lemma threshold_ge: "unat w \<le> threshold_nat w" "1 \<le> threshold_nat w"
  by (simp_all add: threshold_nat_def)

lemma refine_allow:
  assumes "cb_inv now b" "cb_probing b"
  shows "spec_step (cb_config b) now Allow (cb_abs b) =
    (fst (should_allow now b), cb_abs (snd (should_allow now b)))"
proof (cases "cb_state (cb_guarded b)")
  case HalfOpen
  let ?c = "half_open_calls (cb_guarded b)" and ?m = "half_open_max_calls (cb_config b)"
  have u: "unat (?c + 1) = unat ?c + 1" "1 \<le> unat ?c"
    using assms(2) HalfOpen by (auto simp: cb_probing_def unat_Suc_u32_small)
  then show ?thesis using HalfOpen
    by (auto simp: cb_abs_def should_allow_def Let_def word_less_nat_alt threshold_nat_def)
qed (use assms in \<open>auto simp: cb_inv_def cb_abs_def should_allow_def Let_def cb_transition_defs
      threshold_nat_def\<close>)

lemma refine_success:
  assumes "cb_inv now b"
  shows "spec_step (cb_config b) now Success (cb_abs b) = (False, cb_abs (record_success b))"
proof (cases "cb_state (cb_guarded b)")
  case HalfOpen
  let ?c = "success_count (cb_guarded b)" and ?w = "success_threshold (cb_config b)"
  have i: "?c = 0 \<or> ?c < ?w" using assms HalfOpen by (auto simp: cb_inv_def Let_def)
  show ?thesis using HalfOpen threshold_step [OF i] threshold_below_step [OF i]
    by (auto simp: cb_abs_def record_success_def Let_def cb_transition_defs)
qed (auto simp: cb_abs_def record_success_def Let_def)

lemma refine_neutral:
  "spec_step cfg now Neutral (cb_abs b) = (False, cb_abs (record_neutral b))"
  by (cases "cb_state (cb_guarded b)") (auto simp: cb_abs_def record_neutral_def Let_def)

lemma refine_failure:
  assumes "cb_inv now b"
  shows "spec_step (cb_config b) now Failure (cb_abs b) = (False, cb_abs (record_failure now b))"
proof (cases "cb_state (cb_guarded b)")
  case Closed
  let ?c = "failure_count (cb_guarded b)" and ?w = "failure_threshold (cb_config b)"
  have i: "?c = 0 \<or> ?c < ?w" using assms Closed by (auto simp: cb_inv_def Let_def)
  show ?thesis using Closed threshold_step [OF i] threshold_below_step [OF i]
    by (auto simp: cb_abs_def record_failure_def Let_def cb_transition_defs)
qed (auto simp: cb_abs_def record_failure_def Let_def cb_transition_defs)

text \<open>C1: (refinement) In every reachable state each method of the breaker is a step of the documented
machine on unbounded counters, with the same admission decision, as long as the half-open
call counter has not wrapped.\<close>
theorem cb_refines_documented_machine:
  assumes "cb_reach cfg now b" "cb_probing b"
  shows "spec_step cfg now op (cb_abs b) = (cb_admits now op b, cb_abs (cb_apply now op b))"
  using cb_reach_inv [OF assms(1)] assms(2)
    refine_allow refine_success refine_neutral refine_failure
  by (cases op) (auto simp: cb_admits_def)

theorem cb_refines_documented_machine_witness:
  "spec_step one_failure 31 Success
     (cb_abs (cb_apply 31 Allow (cb_apply 0 Failure (cb_new one_failure)))) =
   (False, SHalfOpen 1 1 0)"
proof -
  let ?b = "cb_apply 31 Allow (cb_apply 0 Failure (cb_new one_failure))"
  have "1 \<le> unat (half_open_calls (cb_guarded ?b))"
    "unat (half_open_calls (cb_guarded ?b)) < 4294967295"
    by (simp_all add: cb_op_defs cb_new_def cb_transition_defs one_failure_def)
  then have "spec_step one_failure 31 Success (cb_abs ?b) =
      (cb_admits 31 Success ?b, cb_abs (cb_apply 31 Success ?b))"
    by (intro cb_refines_documented_machine one_failure_reach) (simp add: cb_probing_def)
  also have "\<dots> = (False, SHalfOpen 1 1 0)" by code_simp
  finally show ?thesis .
qed

section \<open>Exhausted probes\<close>

text \<open>A half-open breaker whose probe slots are used up admits
no further request, however much time passes, until some call in flight records a success
or a failure: probes that end neutrally or are dropped give no slot back.\<close>
theorem cb_exhausted_half_open_rejects:
  assumes "current_state b = HalfOpen"
    "half_open_max_calls (cb_config b) \<le> half_open_calls (cb_guarded b)"
    "\<forall>(now, op) \<in> set es. op = Allow \<or> op = Neutral"
    "unat (half_open_calls (cb_guarded b)) + length es < 2 ^ 32"
  shows "cb_admitted b es = 0 \<and> current_state (cb_run b es) = HalfOpen"
proof -
  have "cb_stays HalfOpen b es \<and> current_state (cb_run b es) = HalfOpen"
    using assms(1,3)
    by (induction b es rule: cb_run.induct) (auto simp: current_state_def cb_op_defs)
  then show ?thesis using half_open_probes [of b es] assms by (simp add: word_le_nat_alt)
qed

theorem cb_exhausted_half_open_rejects_witness:
  "cb_admitted (cb_run (cb_apply 0 Failure (cb_new one_failure))
      [(30, Allow), (31, Allow), (32, Allow), (33, Neutral), (34, Neutral), (35, Neutral)])
     [(1000000, Allow), (2000000, Allow)] = 0"
  by (rule conjunct1 [OF cb_exhausted_half_open_rejects])
    (simp_all add: cb_op_defs cb_new_def cb_transition_defs one_failure_def current_state_def)

end
