(* ===== verification/Breaker_Calls.thy ===== *)
theory Breaker_Calls
  imports Circuit_Breaker "HOL-Library.AList"
begin

text \<open>
  The users of the breaker: \<open>guarded_call\<close> and \<open>guarded_call_with\<close>
  (\<open>src/circuit_breaker/mod.rs\<close>), the error type (\<open>error.rs\<close>), the registry of named
  breakers (\<open>registry.rs\<close>), \<open>GuardedHttpClient\<close> and \<open>GuardedPool\<close>.

  The awaited future is not code of the crate: a call is given by what awaiting it
  returns, and by what \<open>tokio::time::timeout\<close> returns for it.  Other tasks may enter the
  breaker between the admission check and the recording of the outcome; their effect is
  the argument \<open>between\<close>.
\<close>

section \<open>Errors of guarded calls\<close>

datatype 'e cb_error = CircuitOpen string | CallFailed 'e | Timeout nanos

definition cb_error_circuit_open :: "string \<Rightarrow> 'e cb_error" where
  "cb_error_circuit_open target = CircuitOpen target"

definition cb_error_call_failed :: "'e \<Rightarrow> 'e cb_error" where
  "cb_error_call_failed e = CallFailed e"

definition cb_error_timeout :: "nanos \<Rightarrow> 'e cb_error" where
  "cb_error_timeout d = Timeout d"

fun is_circuit_open :: "'e cb_error \<Rightarrow> bool" where
  "is_circuit_open (CircuitOpen t) = True"
| "is_circuit_open _ = False"

fun is_call_failed :: "'e cb_error \<Rightarrow> bool" where
  "is_call_failed (CallFailed e) = True"
| "is_call_failed _ = False"

fun is_timeout :: "'e cb_error \<Rightarrow> bool" where
  "is_timeout (Timeout d) = True"
| "is_timeout _ = False"

fun cb_error_target :: "'e cb_error \<Rightarrow> string option" where
  "cb_error_target (CircuitOpen t) = Some t"
| "cb_error_target _ = None"

fun cb_error_map :: "('e \<Rightarrow> 'f) \<Rightarrow> 'e cb_error \<Rightarrow> 'f cb_error" where
  "cb_error_map f (CircuitOpen t) = CircuitOpen t"
| "cb_error_map f (CallFailed e) = CallFailed (f e)"
| "cb_error_map f (Timeout d) = Timeout d"

definition cb_error_is_transient :: "'e cb_error \<Rightarrow> bool" where
  "cb_error_is_transient e = (is_timeout e \<or> is_call_failed e)"

text \<open>
  The \<open>Debug\<close> form of a \<open>Duration\<close>: the largest unit that keeps an integral part, and the
  fraction without trailing zeros.
\<close>

fun fraction_digits :: "nat \<Rightarrow> nat \<Rightarrow> string" where
  "fraction_digits 0 n = []"
| "fraction_digits (Suc k) n =
     (if n = 0 then [] else char_of (48 + n div 10 ^ k) # fraction_digits k (n mod 10 ^ k))"

definition fmt_decimal :: "nat \<Rightarrow> nat \<Rightarrow> nat \<Rightarrow> string" where
  "fmt_decimal whole frac k =
     show_nat whole @ (if frac = 0 then [] else CHR ''.'' # fraction_digits k frac)"

definition duration_debug :: "nanos \<Rightarrow> string" where
  "duration_debug d =
     (if d div 1000000000 > 0 then fmt_decimal (d div 1000000000) (d mod 1000000000) 9 @ ''s''
      else if d \<ge> 1000000 then fmt_decimal (d div 1000000) (d mod 1000000) 6 @ ''ms''
      else if d \<ge> 1000 then fmt_decimal (d div 1000) (d mod 1000) 3 @ [CHR 0xC2, CHR 0xB5, CHR ''s'']
      else show_nat d @ ''ns'')"

fun cb_error_display :: "('e \<Rightarrow> string) \<Rightarrow> 'e cb_error \<Rightarrow> string" where
  "cb_error_display disp (CircuitOpen t) = ''Circuit breaker is open for target: '' @ t"
| "cb_error_display disp (CallFailed e) = ''Call failed: '' @ disp e"
| "cb_error_display disp (Timeout d) = ''Call timed out after '' @ duration_debug d"

definition error_from_cb :: "('e \<Rightarrow> string) \<Rightarrow> 'e cb_error \<Rightarrow> error" where
  "error_from_cb disp err =
     (let kind = (case err of
                    CircuitOpen t \<Rightarrow> CircuitBreakerOpen
                  | CallFailed e \<Rightarrow> CircuitBreakerFailed
                  | Timeout d \<Rightarrow> CircuitBreakerFailed)
      in error_new kind (cb_error_display disp err))"

text \<open>Converting a breaker error into the crate's error keeps its transience; an open
circuit is never transient and is answered with 503, any other breaker error with 502.\<close>
theorem cb_error_bridge:
  "is_transient (error_from_cb disp err) = cb_error_is_transient err
   \<and> status_code (error_from_cb disp err) = (if is_circuit_open err then 503 else 502)
   \<and> cb_error_is_transient err = (\<not> is_circuit_open err)"
  by (cases err) (simp_all add: error_from_cb_def cb_error_is_transient_def error_defs)

text \<open>C35: (redaction and its gap) The response for an error of an internal kind is a function of its kind
alone, so no detail of the source reaches the client; but the same foreign failure that
went through a breaker is sent to the client with its full text.\<close>
theorem internal_errors_redacted_except_through_breaker:
  "(err_kind e \<in> {Database, Configuration, Tls, Io, Internal} \<longrightarrow>
      snd (error_into_response e) = snd (error_into_response (error_new (err_kind e) msg)))
   \<and> er_message (jr_body (snd (error_into_response (error_from (SqlxError m)))))
       = ''An internal error occurred''
   \<and> er_message (jr_body (snd (error_into_response (error_from_cb id (CallFailed m)))))
       = ''Call failed: '' @ m"
  by (auto simp: error_defs error_from_cb_def)

theorem internal_errors_redacted_witness:
  "snd (error_into_response (error_from (SqlxError ''duplicate key users_email'')))
   = snd (error_into_response (error_new Database ''''))"
  using internal_errors_redacted_except_through_breaker
    [of "error_from (SqlxError ''duplicate key users_email'')" "''''"] by simp

section \<open>The guarded-call protocol\<close>

record ('t, 'e) call =
  awaited :: "'e + 't"
  awaited_within :: "nanos \<Rightarrow> unit + ('e + 't)"

text \<open>
  The body of \<open>guarded_call_with\<close> over the methods of a breaker: \<open>t0\<close> is the instant of the
  admission check and \<open>t1\<close> that of the recording.
\<close>

definition guarded_run ::
  "(nanos \<Rightarrow> 'b \<Rightarrow> bool \<times> 'b) \<Rightarrow> ('b \<Rightarrow> 'b) \<Rightarrow> ('b \<Rightarrow> 'b) \<Rightarrow> (nanos \<Rightarrow> 'b \<Rightarrow> 'b)
    \<Rightarrow> ('b \<Rightarrow> nanos option) \<Rightarrow> string \<Rightarrow> ('e \<Rightarrow> bool) \<Rightarrow> nanos \<Rightarrow> ('b \<Rightarrow> 'b) \<Rightarrow> nanos
    \<Rightarrow> ('t, 'e) call \<Rightarrow> 'b \<Rightarrow> ('e cb_error + 't) \<times> 'b" where
  "guarded_run allow success neutral failure timeout_of target is_failure t0 between t1 f b =
     (let (allowed, b0) = allow t0 b
      in if \<not> allowed then (Inl (CircuitOpen target), b0)
         else let b1 = between b0;
                  record_err = (\<lambda>e. if is_failure e then failure t1 b1 else neutral b1)
              in case timeout_of b0 of
                   Some d \<Rightarrow>
                     (case awaited_within f d of
                        Inr (Inr v) \<Rightarrow> (Inr v, success b1)
                      | Inr (Inl e) \<Rightarrow> (Inl (CallFailed e), record_err e)
                      | Inl _ \<Rightarrow> (Inl (Timeout d), failure t1 b1))
                 | None \<Rightarrow>
                     (case awaited f of
                        Inr v \<Rightarrow> (Inr v, success b1)
                      | Inl e \<Rightarrow> (Inl (CallFailed e), record_err e)))"

definition guarded_call_with ::
  "string \<Rightarrow> ('e \<Rightarrow> bool) \<Rightarrow> nanos \<Rightarrow> (breaker \<Rightarrow> breaker) \<Rightarrow> nanos \<Rightarrow> ('t, 'e) call \<Rightarrow> breaker
    \<Rightarrow> ('e cb_error + 't) \<times> breaker" where
  "guarded_call_with =
     guarded_run should_allow record_success record_neutral record_failure get_call_timeout"

definition guarded_call ::
  "string \<Rightarrow> nanos \<Rightarrow> (breaker \<Rightarrow> breaker) \<Rightarrow> nanos \<Rightarrow> ('t, 'e) call \<Rightarrow> breaker
    \<Rightarrow> ('e cb_error + 't) \<times> breaker" where
  "guarded_call target = guarded_call_with target (\<lambda>e. True)"

text \<open>How a call ends, seen from the breaker: what is recorded for it.\<close>

definition call_verdict :: "('e \<Rightarrow> bool) \<Rightarrow> nanos option \<Rightarrow> ('t, 'e) call \<Rightarrow> cb_op" where
  "call_verdict is_failure timeout f =
     (case timeout of
        Some d \<Rightarrow> (case awaited_within f d of
                    Inr (Inr v) \<Rightarrow> Success
                  | Inr (Inl e) \<Rightarrow> if is_failure e then Failure else Neutral
                  | Inl _ \<Rightarrow> Failure)
      | None \<Rightarrow> (case awaited f of
                   Inr v \<Rightarrow> Success
                 | Inl e \<Rightarrow> if is_failure e then Failure else Neutral))"

text \<open>
  The contract a guarded call relies on: an admission check of a healthy target passes and
  changes nothing, outcomes other than failures keep it healthy, and a target that fails
  fast refuses without changing.
\<close>

locale guarded_target =
  fixes allow :: "nanos \<Rightarrow> 'b \<Rightarrow> bool \<times> 'b"
    and success neutral :: "'b \<Rightarrow> 'b"
    and failure :: "nanos \<Rightarrow> 'b \<Rightarrow> 'b"
    and timeout_of :: "'b \<Rightarrow> nanos option"
    and healthy :: "'b \<Rightarrow> bool"
    and failing :: "nanos \<Rightarrow> 'b \<Rightarrow> bool"
  assumes healthy_allow: "healthy b \<Longrightarrow> allow t b = (True, b)"
    and healthy_success: "healthy b \<Longrightarrow> healthy (success b)"
    and healthy_neutral: "healthy b \<Longrightarrow> healthy (neutral b)"
    and failing_allow: "failing t b \<Longrightarrow> allow t b = (False, b)"
begin

lemma healthy_call:
  assumes "healthy b" "\<And>c. healthy c \<Longrightarrow> healthy (between c)"
    "call_verdict is_failure (timeout_of b) f \<noteq> Failure"
  shows "healthy (snd (guarded_run allow success neutral failure timeout_of target is_failure
      t0 between t1 f b))"
    "fst (guarded_run allow success neutral failure timeout_of target is_failure
      t0 between t1 f b) \<noteq> Inl (CircuitOpen target')"
  using assms(3) healthy_allow [OF assms(1)] healthy_success [OF assms(2) [OF assms(1)]]
    healthy_neutral [OF assms(2) [OF assms(1)]]
  by (auto simp: guarded_run_def call_verdict_def Let_def
      split: option.splits sum.splits if_splits)

lemma failing_call:
  assumes "failing t0 b"
  shows "guarded_run allow success neutral failure timeout_of target is_failure t0 between t1 f b
    = (Inl (CircuitOpen target), b)"
  using failing_allow [OF assms] by (simp add: guarded_run_def)

end

interpretation breaker_target: guarded_target should_allow record_success record_neutral
  record_failure get_call_timeout "\<lambda>b. current_state b = Closed" is_fast_failing
  by unfold_locales
    (auto simp: cb_op_defs cb_view_defs split: circuit_state.splits option.splits)


section \<open>The registry\<close>

text \<open>
  \<open>Arc<DashMap<String, Arc<CircuitBreakerState>>>\<close>: the map holds handles, the breakers
  themselves live in a store that only grows, so every clone of the registry or of a
  handle reaches the same breaker.
\<close>

record cb_root_config =
  targets :: "(string \<times> cb_target_config) list"

definition cb_root_is_enabled :: "cb_root_config \<Rightarrow> bool" where
  "cb_root_is_enabled c = (targets c \<noteq> [])"

definition cb_root_get :: "cb_root_config \<Rightarrow> string \<Rightarrow> cb_target_config option" where
  "cb_root_get c t = map_of (targets c) t"

record registry =
  reg_breakers :: "(string \<times> nat) list"
  reg_store :: "breaker list"
  reg_default :: cb_target_config

definition reg_insert :: "string \<Rightarrow> breaker \<Rightarrow> registry \<Rightarrow> registry" where
  "reg_insert name b r =
     r\<lparr>reg_breakers := AList.update name (length (reg_store r)) (reg_breakers r),
       reg_store := reg_store r @ [b]\<rparr>"

definition registry_new :: "cb_root_config \<Rightarrow> registry" where
  "registry_new c =
     fold (\<lambda>(name, cfg) r. reg_insert name (cb_new cfg) r) (targets c)
       \<lparr>reg_breakers = [], reg_store = [], reg_default = cb_target_default\<rparr>"

definition registry_default :: registry where
  "registry_default = registry_new \<lparr>targets = []\<rparr>"

definition registry_get :: "registry \<Rightarrow> string \<Rightarrow> nat option" where
  "registry_get r target = map_of (reg_breakers r) target"

definition get_or_default :: "string \<Rightarrow> registry \<Rightarrow> nat \<times> registry" where
  "get_or_default target r =
     (case map_of (reg_breakers r) target of
        Some h \<Rightarrow> (h, r)
      | None \<Rightarrow> (length (reg_store r), reg_insert target (cb_new (reg_default r)) r))"

definition registry_targets :: "registry \<Rightarrow> string list" where
  "registry_targets r = map fst (reg_breakers r)"

definition registry_len :: "registry \<Rightarrow> nat" where
  "registry_len r = length (reg_breakers r)"

definition registry_is_empty :: "registry \<Rightarrow> bool" where
  "registry_is_empty r = (reg_breakers r = [])"

definition breaker_at :: "nat \<Rightarrow> registry \<Rightarrow> breaker" where
  "breaker_at h r = reg_store r ! h"

definition set_breaker :: "nat \<Rightarrow> breaker \<Rightarrow> registry \<Rightarrow> registry" where
  "set_breaker h b r = r\<lparr>reg_store := (reg_store r)[h := b]\<rparr>"

text \<open>Distinct names have distinct handles, and every handle is allocated.\<close>

definition reg_wf :: "registry \<Rightarrow> bool" where
  "reg_wf r \<longleftrightarrow> distinct (map fst (reg_breakers r)) \<and> distinct (map snd (reg_breakers r))
     \<and> (\<forall>h \<in> set (map snd (reg_breakers r)). h < length (reg_store r))"

lemma snd_update_fresh:
  assumes "distinct (map snd al)" "h \<notin> set (map snd al)"
  shows "distinct (map snd (AList.update k h al))"
    and "set (map snd (AList.update k h al)) \<subseteq> insert h (set (map snd al))"
  using assms by (induction al) auto

lemma reg_wf_insert: "reg_wf r \<Longrightarrow> reg_wf (reg_insert name b r)"
proof -
  assume wf: "reg_wf r"
  let ?h = "length (reg_store r)"
  have "?h \<notin> set (map snd (reg_breakers r))" using wf by (auto simp: reg_wf_def)
  note snd_update_fresh [OF _ this, of name]
  then show ?thesis using wf by (fastforce simp: reg_wf_def reg_insert_def distinct_update)
qed

lemma reg_wf_new: "reg_wf (registry_new c)"
proof -
  have "reg_wf (fold (\<lambda>(name, cfg) r. reg_insert name (cb_new cfg) r) cs r)" if "reg_wf r" for cs r
    using that by (induction cs arbitrary: r) (auto simp: reg_wf_insert)
  then show ?thesis by (auto simp: registry_new_def reg_wf_def)
qed

lemma reg_wf_get_or_default: "reg_wf r \<Longrightarrow> reg_wf (snd (get_or_default t r))"
  by (auto simp: get_or_default_def reg_wf_insert split: option.splits)

lemma get_or_default_lookup:
  "registry_get (snd (get_or_default t r)) t = Some (fst (get_or_default t r))"
  by (auto simp: get_or_default_def registry_get_def reg_insert_def update_conv
      split: option.splits)

lemma get_or_default_other:
  "t' \<noteq> t \<Longrightarrow> registry_get (snd (get_or_default t r)) t' = registry_get r t'"
  by (auto simp: get_or_default_def registry_get_def reg_insert_def update_conv
      split: option.splits)

lemma get_or_default_store:
  "reg_wf r \<Longrightarrow> registry_get r t' = Some h \<Longrightarrow>
   breaker_at h (snd (get_or_default t r)) = breaker_at h r"
  by (force simp: get_or_default_def reg_insert_def breaker_at_def reg_wf_def registry_get_def
      nth_append dest: map_of_SomeD split: option.splits)

lemma registry_get_inj:
  assumes "reg_wf r" "registry_get r t = Some h" "registry_get r t' = Some h"
  shows "t = t'"
proof -
  have "(t, h) \<in> set (reg_breakers r)" "(t', h) \<in> set (reg_breakers r)"
    using assms by (auto simp: registry_get_def dest: map_of_SomeD)
  then show ?thesis
    using assms(1) unfolding reg_wf_def distinct_map inj_on_def by (metis fst_conv snd_conv)
qed

lemma registry_get_range:
  "reg_wf r \<Longrightarrow> registry_get r t = Some h \<Longrightarrow> h < length (reg_store r)"
  by (force simp: reg_wf_def registry_get_def dest: map_of_SomeD)

lemma breaker_at_set:
  "h < length (reg_store r) \<Longrightarrow>
   breaker_at h' (set_breaker h b r) = (if h' = h then b else breaker_at h' r)"
  by (simp add: breaker_at_def set_breaker_def)

section \<open>Guarded clients\<close>

definition on_breaker :: "nat \<Rightarrow> (breaker \<Rightarrow> breaker) \<Rightarrow> registry \<Rightarrow> registry" where
  "on_breaker h f r = set_breaker h (f (breaker_at h r)) r"

definition allow_at :: "nat \<Rightarrow> nanos \<Rightarrow> registry \<Rightarrow> bool \<times> registry" where
  "allow_at h now r =
     (let (allowed, b) = should_allow now (breaker_at h r) in (allowed, set_breaker h b r))"

text \<open>
  \<open>GuardedHttpClient::request\<close>: other tasks may use any breaker of the registry while the
  call is in flight, so \<open>between\<close> acts on the whole registry.
\<close>

definition guarded_on_registry ::
  "('e \<Rightarrow> bool) \<Rightarrow> string \<Rightarrow> nanos \<Rightarrow> (registry \<Rightarrow> registry) \<Rightarrow> nanos \<Rightarrow> ('t, 'e) call \<Rightarrow> registry
    \<Rightarrow> ('e cb_error + 't) \<times> registry" where
  "guarded_on_registry is_failure target t0 between t1 f r =
     (let (h, r') = get_or_default target r
      in guarded_run (allow_at h) (on_breaker h record_success) (on_breaker h record_neutral)
           (\<lambda>t. on_breaker h (record_failure t)) (\<lambda>r. get_call_timeout (breaker_at h r))
           target is_failure t0 between t1 f r')"

definition http_request ::
  "string \<Rightarrow> nanos \<Rightarrow> (registry \<Rightarrow> registry) \<Rightarrow> nanos \<Rightarrow> ('t, 'e) call \<Rightarrow> registry
    \<Rightarrow> ('e cb_error + 't) \<times> registry" where
  "http_request = guarded_on_registry (\<lambda>e. True)"

definition http_circuit_breaker :: "string \<Rightarrow> registry \<Rightarrow> nat \<times> registry" where
  "http_circuit_breaker = get_or_default"

text \<open>The variants of \<open>sqlx::Error\<close> the classifier names; the others are one case.\<close>

datatype sqlx_error =
    SqlxIo string | SqlxTls string | SqlxProtocol string | SqlxPoolTimedOut | SqlxPoolClosed
  | SqlxWorkerCrashed | SqlxRowNotFound | SqlxDatabase string | SqlxOther string

fun sqlx_is_degradation :: "sqlx_error \<Rightarrow> bool" where
  "sqlx_is_degradation (SqlxIo m) = True"
| "sqlx_is_degradation (SqlxTls m) = True"
| "sqlx_is_degradation (SqlxProtocol m) = True"
| "sqlx_is_degradation SqlxPoolTimedOut = True"
| "sqlx_is_degradation SqlxPoolClosed = True"
| "sqlx_is_degradation SqlxWorkerCrashed = True"
| "sqlx_is_degradation _ = False"

record guarded_pool =
  gp_target :: string

definition guarded_pool_new :: "string \<Rightarrow> guarded_pool" where
  "guarded_pool_new target = \<lparr>gp_target = target\<rparr>"

definition pool_circuit_breaker :: "guarded_pool \<Rightarrow> registry \<Rightarrow> nat \<times> registry" where
  "pool_circuit_breaker gp = get_or_default (gp_target gp)"

definition pool_query ::
  "guarded_pool \<Rightarrow> nanos \<Rightarrow> (registry \<Rightarrow> registry) \<Rightarrow> nanos \<Rightarrow> ('t, sqlx_error) call \<Rightarrow> registry
    \<Rightarrow> (sqlx_error cb_error + 't) \<times> registry" where
  "pool_query gp = guarded_on_registry sqlx_is_degradation (gp_target gp)"


section \<open>The contract on the registry\<close>

lemma set_breaker_same [simp]: "set_breaker h (breaker_at h r) r = r"
  by (simp add: set_breaker_def breaker_at_def)

lemma reg_fields_set [simp]:
  "length (reg_store (set_breaker h b r)) = length (reg_store r)"
  "reg_breakers (set_breaker h b r) = reg_breakers r"
  "registry_get (set_breaker h b r) t = registry_get r t"
  "reg_wf (set_breaker h b r) = reg_wf r"
  by (simp_all add: set_breaker_def registry_get_def reg_wf_def)

interpretation registry_target: guarded_target "allow_at h" "on_breaker h record_success"
  "on_breaker h record_neutral" "\<lambda>t. on_breaker h (record_failure t)"
  "\<lambda>r. get_call_timeout (breaker_at h r)"
  "\<lambda>r. h < length (reg_store r) \<and> current_state (breaker_at h r) = Closed"
  "\<lambda>t r. is_fast_failing t (breaker_at h r)" for h
proof (unfold_locales, goal_cases)
  case (1 r t)
  then show ?case by (simp add: allow_at_def breaker_target.healthy_allow)
next
  case (2 r)
  then show ?case by (simp add: on_breaker_def breaker_at_set breaker_target.healthy_success)
next
  case (3 r)
  then show ?case by (simp add: on_breaker_def breaker_at_set breaker_target.healthy_neutral)
next
  case (4 t r)
  then show ?case by (simp add: allow_at_def breaker_target.failing_allow)
qed

text \<open>A sequence of queries through one pool, one after the other.\<close>

fun pool_run ::
  "guarded_pool \<Rightarrow> (nanos \<times> nanos \<times> ('t, sqlx_error) call) list \<Rightarrow> registry
    \<Rightarrow> (sqlx_error cb_error + 't) list \<times> registry" where
  "pool_run gp [] r = ([], r)"
| "pool_run gp ((t0, t1, f) # qs) r =
     (let (x, r') = pool_query gp t0 id t1 f r; (xs, r'') = pool_run gp qs r'
      in (x # xs, r''))"

definition pool_verdict :: "cb_target_config \<Rightarrow> ('t, sqlx_error) call \<Rightarrow> cb_op" where
  "pool_verdict cfg f = call_verdict sqlx_is_degradation (call_timeout cfg) f"

text \<open>What a query does to the pool's own breaker, once the breaker exists.\<close>

lemma pool_query_known:
  assumes "registry_get r (gp_target gp) = Some h"
  shows "pool_query gp t0 between t1 f r =
    guarded_run (allow_at h) (on_breaker h record_success) (on_breaker h record_neutral)
      (\<lambda>t. on_breaker h (record_failure t)) (\<lambda>r. get_call_timeout (breaker_at h r))
      (gp_target gp) sqlx_is_degradation t0 between t1 f r"
  using assms by (simp add: pool_query_def guarded_on_registry_def get_or_default_def registry_get_def)

lemma pool_query_closed:
  assumes "reg_wf r" "registry_get r (gp_target gp) = Some h"
    "current_state (breaker_at h r) = Closed"
  shows "snd (pool_query gp t0 id t1 f r) =
    on_breaker h (cb_apply t1 (pool_verdict (cb_config (breaker_at h r)) f)) r"
proof -
  have "allow_at h t0 r = (True, r)"
    using assms registry_get_range by (intro registry_target.healthy_allow) blast
  then show ?thesis unfolding pool_query_known [OF assms(2)]
    by (auto simp: guarded_run_def pool_verdict_def call_verdict_def get_call_timeout_def on_breaker_def
        split: option.splits sum.splits)
qed

lemma pool_run_registry:
  assumes "reg_wf r" "registry_get r (gp_target gp) = Some h"
    "current_state (breaker_at h r) = Closed"
  shows "reg_wf (snd (pool_query gp t0 id t1 f r))"
    "registry_get (snd (pool_query gp t0 id t1 f r)) (gp_target gp) = Some h"
    "breaker_at h (snd (pool_query gp t0 id t1 f r)) =
      cb_apply t1 (pool_verdict (cb_config (breaker_at h r)) f) (breaker_at h r)"
  using assms registry_get_range [OF assms(1,2)]
  by (simp_all add: pool_query_closed on_breaker_def breaker_at_set)



definition demo_config :: cb_root_config where
  "demo_config = \<lparr>targets = [(''database'', one_failure), (''api'', cb_target_default)]\<rparr>"

definition demo_call :: "sqlx_error + nat \<Rightarrow> (nat, sqlx_error) call" where
  "demo_call x = \<lparr>awaited = x, awaited_within = (\<lambda>d. Inr x)\<rparr>"

lemma demo_registry:
  "reg_wf (registry_new demo_config)"
  "registry_get (registry_new demo_config) ''database'' = Some 0"
  "registry_get (registry_new demo_config) ''api'' = Some 1"
  "breaker_at 0 (registry_new demo_config) = cb_new one_failure"
  "breaker_at 1 (registry_new demo_config) = cb_new cb_target_default"
  by (rule reg_wf_new)
    (simp_all add: registry_new_def demo_config_def reg_insert_def registry_get_def breaker_at_def)


text \<open>Failures in a row, and then fast failure.\<close>

lemma failures_open:
  assumes "current_state b = Closed"
    "unat (failure_count (cb_guarded b)) + Suc n = threshold_nat (failure_threshold (cb_config b))"
  shows "current_state (record_failure t b) = (if n = 0 then Open else Closed)
    \<and> (n = 0 \<longrightarrow> last_failure_time (cb_guarded (record_failure t b)) = Some t)
    \<and> (n \<noteq> 0 \<longrightarrow> unat (failure_count (cb_guarded (record_failure t b))) =
        Suc (unat (failure_count (cb_guarded b))))"
proof -
  let ?c = "failure_count (cb_guarded b)" and ?w = "failure_threshold (cb_config b)"
  have i: "?c = 0 \<or> ?c < ?w"
    using assms(2) by (auto simp: threshold_nat_def word_less_nat_alt unat_eq_0 max_def split: if_splits)
  have "?w \<le> ?c + 1 \<longleftrightarrow> n = 0" using threshold_step [OF i] assms(2) by auto
  then show ?thesis using assms threshold_below_step [OF i]
    by (auto simp: current_state_def record_failure_def Let_def cb_transition_defs)
qed

lemma pool_run_failures:
  assumes "reg_wf r" "registry_get r (gp_target gp) = Some h"
    "current_state (breaker_at h r) = Closed"
    "\<forall>(t0, t1, f) \<in> set qs. pool_verdict (cb_config (breaker_at h r)) f = Failure"
    "unat (failure_count (cb_guarded (breaker_at h r))) + length qs
      = threshold_nat (failure_threshold (cb_config (breaker_at h r)))" "qs \<noteq> []"
  shows "let r' = snd (pool_run gp qs r) in registry_get r' (gp_target gp) = Some h
    \<and> current_state (breaker_at h r') = Open
    \<and> last_failure_time (cb_guarded (breaker_at h r')) = Some (fst (snd (last qs)))
    \<and> cb_config (breaker_at h r') = cb_config (breaker_at h r)"
  using assms
proof (induction gp qs r rule: pool_run.induct)
  case (2 gp t0 t1 f qs r)
  let ?r = "snd (pool_query gp t0 id t1 f r)" and ?b = "breaker_at h r"
  note R = pool_run_registry [OF 2(2-4), of t0 t1 f]
  have v: "pool_verdict (cb_config ?b) f = Failure" using 2(5) by simp
  then have b: "breaker_at h ?r = record_failure t1 ?b" using R(3) by simp
  have F: "current_state (breaker_at h ?r) = (if length qs = 0 then Open else Closed)"
    "length qs = 0 \<Longrightarrow> last_failure_time (cb_guarded (breaker_at h ?r)) = Some t1"
    "length qs \<noteq> 0 \<Longrightarrow>
      unat (failure_count (cb_guarded (breaker_at h ?r))) = Suc (unat (failure_count (cb_guarded ?b)))"
    using failures_open [OF 2(4), of "length qs" t1] 2(6) unfolding b by auto
  have cfg: "cb_config (breaker_at h ?r) = cb_config ?b" unfolding b by simp
  show ?case
  proof (cases qs)
    case Nil
    then show ?thesis using F R(2) cfg by (simp add: case_prod_unfold Let_def)
  next
    case (Cons q qs')
    have "let r' = snd (pool_run gp qs ?r) in registry_get r' (gp_target gp) = Some h
      \<and> current_state (breaker_at h r') = Open
      \<and> last_failure_time (cb_guarded (breaker_at h r')) = Some (fst (snd (last qs)))
      \<and> cb_config (breaker_at h r') = cb_config (breaker_at h ?r)"
      by (intro 2(1) [OF refl prod.collapse] R(1,2)) (use Cons F cfg 2(5,6) in auto)
    then show ?thesis using Cons cfg by (simp add: case_prod_unfold Let_def)
  qed
qed simp

text \<open>After \<open>failure_threshold\<close> queries in a row that time out or fail with a
connectivity error, every further query within the reset timeout is refused with
\<open>CircuitOpen\<close>, whatever the query would have done, and leaves the registry as it is.\<close>
theorem pool_degradation_trips:
  assumes "reg_wf r" "registry_get r (gp_target gp) = Some h"
    "breaker_at h r = cb_new cfg"
    "\<forall>(t0, t1, f) \<in> set qs. pool_verdict cfg f = Failure"
    "length qs = threshold_nat (failure_threshold cfg)"
    "now - fst (snd (last qs)) < reset_timeout cfg"
  shows "let r' = snd (pool_run gp qs r)
    in pool_query gp now between t1 f r' = (Inl (CircuitOpen (gp_target gp)), r')"
proof -
  let ?r = "snd (pool_run gp qs r)"
  have q: "qs \<noteq> []" using assms(5) by (auto simp: threshold_nat_def)
  have "let r' = ?r in registry_get r' (gp_target gp) = Some h
    \<and> current_state (breaker_at h r') = Open
    \<and> last_failure_time (cb_guarded (breaker_at h r')) = Some (fst (snd (last qs)))
    \<and> cb_config (breaker_at h r') = cb_config (breaker_at h r)"
    by (rule pool_run_failures) (use assms q in \<open>auto simp: cb_new_def current_state_def\<close>)
  moreover have "cb_config (breaker_at h r) = cfg" using assms(3) by (simp add: cb_new_def)
  ultimately have reg: "registry_get ?r (gp_target gp) = Some h"
    and ff: "is_fast_failing now (breaker_at h ?r)"
    using assms(6) by (auto simp: cb_view_defs Let_def)
  show ?thesis unfolding Let_def pool_query_known [OF reg]
    by (rule registry_target.failing_call [OF ff])
qed

theorem pool_degradation_trips_witness:
  "fst (pool_query (guarded_pool_new ''database'') 20 id 21 (demo_call (Inr 7))
     (snd (pool_run (guarded_pool_new ''database'') [(1, 2, demo_call (Inl SqlxPoolTimedOut))]
       (registry_new demo_config)))) = Inl (CircuitOpen ''database'')"
proof -
  let ?gp = "guarded_pool_new ''database''" and ?qs = "[(1, 2, demo_call (Inl SqlxPoolTimedOut))]"
  have "let r' = snd (pool_run ?gp ?qs (registry_new demo_config))
      in pool_query ?gp 20 id 21 (demo_call (Inr 7)) r' = (Inl (CircuitOpen (gp_target ?gp)), r')"
    by (rule pool_degradation_trips [where h = 0 and cfg = one_failure])
      (simp_all add: demo_registry guarded_pool_new_def demo_call_def pool_verdict_def
        call_verdict_def one_failure_def threshold_nat_def)
  then show ?thesis by (simp add: Let_def guarded_pool_new_def)
qed

text \<open>A request through the breaker of one target never changes the breaker of another:
for any call and any instants, the other target keeps its handle and its breaker.\<close>
theorem http_targets_isolated:
  assumes "reg_wf r" "registry_get r other = Some h" "other \<noteq> target"
  shows "let r' = snd (http_request target t0 id t1 f r)
    in registry_get r' other = Some h \<and> breaker_at h r' = breaker_at h r"
proof -
  let ?h = "fst (get_or_default target r)" and ?r = "snd (get_or_default target r)"
  have wf: "reg_wf ?r" and o: "registry_get ?r other = Some h"
    using assms by (simp_all add: reg_wf_get_or_default get_or_default_other)
  have t: "registry_get ?r target = Some ?h" by (rule get_or_default_lookup)
  have ne: "h \<noteq> ?h" using registry_get_inj [OF wf o] t assms(3) by blast
  have lt: "?h < length (reg_store ?r)" by (rule registry_get_range [OF wf t])
  have "breaker_at h ?r = breaker_at h r" using get_or_default_store assms by blast
  then show ?thesis using o ne lt
    by (auto simp: http_request_def guarded_on_registry_def guarded_run_def allow_at_def
        on_breaker_def breaker_at_set case_prod_unfold Let_def split: option.splits sum.splits)
qed

theorem http_targets_isolated_witness:
  "breaker_at 1 (snd (http_request ''database'' 0 id 1 (demo_call (Inl SqlxPoolClosed))
     (registry_new demo_config))) = cb_new cb_target_default"
  using http_targets_isolated [OF demo_registry(1) demo_registry(3), of "''database''" 0 1
      "demo_call (Inl SqlxPoolClosed)"]
  unfolding Let_def demo_registry(5) by simp

end
