(* ===== verification/Registry_Map.thy ===== *)
theory Registry_Map
  imports Breaker_Calls
begin

text \<open>
  What the registry of \<open>src/circuit_breaker/registry.rs\<close> promises its clients: it behaves like a
  map from target names to breakers, in which an unknown target starts with a fresh breaker.
  The handles and the shared store behind them cannot be observed.
\<close>

section \<open>Refinement of guarded calls\<close>

text \<open>
  Two states a guarded call can run on, the second an abstraction of the first: when every
  operation respects the relation \<open>R\<close> between them, so does the call, with the same result.
\<close>

locale guarded_refinement =
  fixes allow :: "nanos \<Rightarrow> 'b \<Rightarrow> bool \<times> 'b" and success neutral :: "'b \<Rightarrow> 'b"
    and failure :: "nanos \<Rightarrow> 'b \<Rightarrow> 'b" and timeout_of :: "'b \<Rightarrow> nanos option"
    and abs_allow :: "nanos \<Rightarrow> 'c \<Rightarrow> bool \<times> 'c" and abs_success abs_neutral :: "'c \<Rightarrow> 'c"
    and abs_failure :: "nanos \<Rightarrow> 'c \<Rightarrow> 'c" and abs_timeout_of :: "'c \<Rightarrow> nanos option"
    and R :: "'b \<Rightarrow> 'c \<Rightarrow> bool"
  assumes R_allow: "R b c \<Longrightarrow> fst (allow t b) = fst (abs_allow t c) \<and> R (snd (allow t b)) (snd (abs_allow t c))"
    and R_success: "R b c \<Longrightarrow> R (success b) (abs_success c)"
    and R_neutral: "R b c \<Longrightarrow> R (neutral b) (abs_neutral c)"
    and R_failure: "R b c \<Longrightarrow> R (failure t b) (abs_failure t c)"
    and R_timeout: "R b c \<Longrightarrow> timeout_of b = abs_timeout_of c"
begin

lemma call_refines:
  assumes "R b c" "\<And>b c. R b c \<Longrightarrow> R (between b) (abs_between c)"
  shows "fst (guarded_run allow success neutral failure timeout_of target is_failure t0 between t1 f b)
      = fst (guarded_run abs_allow abs_success abs_neutral abs_failure abs_timeout_of target is_failure
          t0 abs_between t1 f c)
    \<and> R (snd (guarded_run allow success neutral failure timeout_of target is_failure t0 between t1 f b))
        (snd (guarded_run abs_allow abs_success abs_neutral abs_failure abs_timeout_of target is_failure
          t0 abs_between t1 f c))"
proof -
  obtain ok b0 where a: "allow t0 b = (ok, b0)" by fastforce
  obtain c0 where c: "abs_allow t0 c = (ok, c0)" "R b0 c0"
    using R_allow [OF assms(1), of t0] a by (cases "abs_allow t0 c") auto
  have "R (between b0) (abs_between c0)" by (rule assms(2)) (rule c(2))
  note after = R_success [OF this] R_neutral [OF this] R_failure [OF this]
  show ?thesis
    by (simp add: guarded_run_def a c R_timeout [OF c(2)] Let_def after split: option.split sum.split)
qed

end

section \<open>The registry as a map\<close>

definition abs_registry :: "registry \<Rightarrow> string \<rightharpoonup> breaker" where
  "abs_registry r = (\<lambda>t. map_option (\<lambda>h. breaker_at h r) (registry_get r t))"

definition map_allow :: "string \<Rightarrow> nanos \<Rightarrow> (string \<rightharpoonup> breaker) \<Rightarrow> bool \<times> (string \<rightharpoonup> breaker)" where
  "map_allow target now m = (case should_allow now (the (m target)) of (ok, b) \<Rightarrow> (ok, m(target \<mapsto> b)))"

definition map_update :: "string \<Rightarrow> (breaker \<Rightarrow> breaker) \<Rightarrow> (string \<rightharpoonup> breaker) \<Rightarrow> (string \<rightharpoonup> breaker)" where
  "map_update target f m = m(target \<mapsto> f (the (m target)))"

definition with_target :: "cb_target_config \<Rightarrow> string \<Rightarrow> (string \<rightharpoonup> breaker) \<Rightarrow> (string \<rightharpoonup> breaker)" where
  "with_target dflt target m = (if m target = None then m(target \<mapsto> cb_new dflt) else m)"

text \<open>The guarded call on the map.\<close>

definition map_call ::
  "cb_target_config \<Rightarrow> ('e \<Rightarrow> bool) \<Rightarrow> string \<Rightarrow> nanos \<Rightarrow> ((string \<rightharpoonup> breaker) \<Rightarrow> (string \<rightharpoonup> breaker)) \<Rightarrow> nanos
    \<Rightarrow> ('t, 'e) call \<Rightarrow> (string \<rightharpoonup> breaker) \<Rightarrow> ('e cb_error + 't) \<times> (string \<rightharpoonup> breaker)" where
  "map_call dflt is_failure target t0 between t1 f m =
     guarded_run (map_allow target) (map_update target record_success) (map_update target record_neutral)
       (\<lambda>t. map_update target (record_failure t)) (\<lambda>m. get_call_timeout (the (m target)))
       target is_failure t0 between t1 f (with_target dflt target m)"

definition represents :: "string \<Rightarrow> nat \<Rightarrow> cb_target_config \<Rightarrow> registry \<Rightarrow> (string \<rightharpoonup> breaker) \<Rightarrow> bool" where
  "represents target h dflt r m \<longleftrightarrow>
     reg_wf r \<and> registry_get r target = Some h \<and> reg_default r = dflt \<and> abs_registry r = m"

lemma reg_default_set [simp]: "reg_default (set_breaker h b r) = reg_default r"
  by (simp add: set_breaker_def)

lemma abs_registry_set:
  assumes "reg_wf r" "registry_get r target = Some h"
  shows "abs_registry (set_breaker h b r) = (abs_registry r)(target \<mapsto> b)"
proof
  fix t
  show "abs_registry (set_breaker h b r) t = ((abs_registry r)(target \<mapsto> b)) t"
  proof (cases "registry_get r t")
    case None
    then show ?thesis using assms by (auto simp: abs_registry_def)
  next
    case (Some h')
    have "h' = h \<longleftrightarrow> t = target"
      using registry_get_inj [OF assms(1) Some, of target] Some assms(2) by fastforce
    then show ?thesis
      by (simp add: abs_registry_def Some breaker_at_set [OF registry_get_range [OF assms]])
  qed
qed

lemma represents_set:
  "represents target h dflt r m \<Longrightarrow> represents target h dflt (set_breaker h b r) (m(target \<mapsto> b))"
  by (auto simp: represents_def abs_registry_set)

lemma represents_lookup:
  "represents target h dflt r m \<Longrightarrow> m target = Some (breaker_at h r)"
  unfolding represents_def by (metis abs_registry_def option.simps(9))

interpretation registry_map: guarded_refinement
  "allow_at h" "on_breaker h record_success" "on_breaker h record_neutral"
  "\<lambda>t. on_breaker h (record_failure t)" "\<lambda>r. get_call_timeout (breaker_at h r)"
  "map_allow target" "map_update target record_success" "map_update target record_neutral"
  "\<lambda>t. map_update target (record_failure t)" "\<lambda>m. get_call_timeout (the (m target))"
  "represents target h dflt" for target h dflt
proof (unfold_locales, goal_cases)
  case (1 r m t)
  obtain ok b where "should_allow t (breaker_at h r) = (ok, b)" by fastforce
  then show ?case
    using represents_set [OF 1, of b] by (simp add: allow_at_def map_allow_def represents_lookup [OF 1])
next
  case (2 r m)
  show ?case using represents_set [OF 2] by (simp add: on_breaker_def map_update_def represents_lookup [OF 2])
next
  case (3 r m)
  show ?case using represents_set [OF 3] by (simp add: on_breaker_def map_update_def represents_lookup [OF 3])
next
  case (4 r m t)
  show ?case using represents_set [OF 4] by (simp add: on_breaker_def map_update_def represents_lookup [OF 4])
next
  case (5 r m)
  show ?case by (simp add: represents_lookup [OF 5])
qed

lemma get_or_default_represents:
  assumes "reg_wf r"
  shows "represents target (fst (get_or_default target r)) (reg_default r) (snd (get_or_default target r))
    (with_target (reg_default r) target (abs_registry r))"
proof -
  let ?r = "snd (get_or_default target r)"
  have "abs_registry ?r t = with_target (reg_default r) target (abs_registry r) t" for t
  proof (cases "t = target")
    case True
    show ?thesis
      by (auto simp: True abs_registry_def with_target_def get_or_default_def registry_get_def reg_insert_def
          breaker_at_def update_conv split: option.splits)
  next
    case False
    have "abs_registry ?r t = abs_registry r t"
      using get_or_default_other [OF False, of r] get_or_default_store [OF assms, of t _ target]
      by (cases "registry_get r t") (auto simp: abs_registry_def)
    then show ?thesis using False by (simp add: with_target_def)
  qed
  moreover have "reg_default ?r = reg_default r"
    by (simp add: get_or_default_def reg_insert_def split: option.split)
  ultimately show ?thesis
    using reg_wf_get_or_default [OF assms, of target] get_or_default_lookup [of target r]
    by (auto simp: represents_def)
qed

text \<open>What other tasks do meanwhile, on the registry and on the map.\<close>

definition acts_on_map ::
  "string \<Rightarrow> cb_target_config \<Rightarrow> (registry \<Rightarrow> registry) \<Rightarrow> ((string \<rightharpoonup> breaker) \<Rightarrow> (string \<rightharpoonup> breaker)) \<Rightarrow> bool" where
  "acts_on_map target dflt between abs_between \<longleftrightarrow>
     (\<forall>h r m. represents target h dflt r m \<longrightarrow> represents target h dflt (between r) (abs_between m))"

lemma guarded_call_refines:
  assumes "reg_wf r" "acts_on_map target (reg_default r) between abs_between"
  shows "fst (guarded_on_registry is_failure target t0 between t1 f r)
      = fst (map_call (reg_default r) is_failure target t0 abs_between t1 f (abs_registry r))"
    "represents target (fst (get_or_default target r)) (reg_default r)
       (snd (guarded_on_registry is_failure target t0 between t1 f r))
       (snd (map_call (reg_default r) is_failure target t0 abs_between t1 f (abs_registry r)))"
proof -
  obtain h r0 where g: "get_or_default target r = (h, r0)" by fastforce
  have rep: "represents target h (reg_default r) r0 (with_target (reg_default r) target (abs_registry r))"
    using get_or_default_represents [OF assms(1), of target] by (simp add: g)
  have step: "represents target h (reg_default r) s m
      \<Longrightarrow> represents target h (reg_default r) (between s) (abs_between m)" for s m
    using assms(2) by (simp add: acts_on_map_def)
  have "fst (guarded_on_registry is_failure target t0 between t1 f r)
      = fst (map_call (reg_default r) is_failure target t0 abs_between t1 f (abs_registry r))
    \<and> represents target h (reg_default r)
       (snd (guarded_on_registry is_failure target t0 between t1 f r))
       (snd (map_call (reg_default r) is_failure target t0 abs_between t1 f (abs_registry r)))"
    unfolding guarded_on_registry_def g map_call_def Let_def prod.case
    by (rule registry_map.call_refines [OF rep]) (rule step)
  then show "fst (guarded_on_registry is_failure target t0 between t1 f r)
      = fst (map_call (reg_default r) is_failure target t0 abs_between t1 f (abs_registry r))"
    "represents target (fst (get_or_default target r)) (reg_default r)
       (snd (guarded_on_registry is_failure target t0 between t1 f r))
       (snd (map_call (reg_default r) is_failure target t0 abs_between t1 f (abs_registry r)))"
    by (simp_all add: g)
qed

lemma acts_on_map_id [simp]: "acts_on_map target dflt id id"
  by (simp add: acts_on_map_def)

lemma guarded_call_keeps_handle:
  assumes "registry_get r target = Some h"
  shows "registry_get (snd (guarded_on_registry is_failure target' t0 id t1 f r)) target = Some h"
proof -
  obtain h' r0 where g: "get_or_default target' r = (h', r0)" by fastforce
  have "registry_get r0 target = Some h"
    using assms get_or_default_other [of target target' r] g
    by (cases "target = target'") (auto simp: get_or_default_def registry_get_def)
  then show ?thesis
    by (auto simp: guarded_on_registry_def g guarded_run_def allow_at_def on_breaker_def Let_def
        split: prod.split option.split sum.split)
qed

text \<open>A whole call of another task is such an effect.\<close>

lemma acts_on_map_call:
  "acts_on_map target dflt (\<lambda>r. snd (guarded_on_registry is_failure target' t0 id t1 f r))
     (\<lambda>m. snd (map_call dflt is_failure target' t0 id t1 f m))"
proof (unfold acts_on_map_def, intro allI impI)
  fix h r m
  assume rep: "represents target h dflt r m"
  then have "reg_wf r" "registry_get r target = Some h" "reg_default r = dflt" "abs_registry r = m"
    by (auto simp: represents_def)
  with guarded_call_refines(2) [OF this(1) acts_on_map_id, of target' is_failure t0 t1 f]
    guarded_call_keeps_handle [OF this(2), of is_failure target' t0 t1 f]
  show "represents target h dflt (snd (guarded_on_registry is_failure target' t0 id t1 f r))
      (snd (map_call dflt is_failure target' t0 id t1 f m))"
    by (simp add: represents_def)
qed

lemma map_call_other:
  assumes "t \<noteq> target" "\<And>m. abs_between m t = m t"
  shows "snd (map_call dflt is_failure target t0 abs_between t1 f m) t = m t"
proof -
  obtain ok m0 where a: "map_allow target t0 (with_target dflt target m) = (ok, m0)" by fastforce
  have "m0 t = m t"
    using a assms(1) by (auto simp: map_allow_def with_target_def split: prod.splits if_splits)
  then show ?thesis
    using assms by (simp add: map_call_def guarded_run_def a Let_def map_update_def
        split: option.split sum.split)
qed

text \<open>C4: (the registry refines a map) A call through a breaker of the registry, over HTTP or to the database,
has the result of the same call on a map from target names to breakers, and leaves the
registry representing the map that call leaves; also while other tasks use the registry,
as long as what they do is an effect on the map, which a call of theirs is.  A call changes
no other entry of the map than its target's.\<close>
theorem registry_refines_map:
  assumes "reg_wf r" "acts_on_map target (reg_default r) between abs_between"
  shows "map_prod id abs_registry (guarded_on_registry is_failure target t0 between t1 f r)
      = map_call (reg_default r) is_failure target t0 abs_between t1 f (abs_registry r)
    \<and> reg_wf (snd (guarded_on_registry is_failure target t0 between t1 f r))
    \<and> acts_on_map other (reg_default r) (\<lambda>r. snd (guarded_on_registry is_failure target t0 id t1 f r))
        (\<lambda>m. snd (map_call (reg_default r) is_failure target t0 id t1 f m))
    \<and> (\<forall>m t. t \<noteq> target \<longrightarrow> snd (map_call (reg_default r) is_failure target t0 id t1 f m) t = m t)"
proof (intro conjI allI impI)
  show "map_prod id abs_registry (guarded_on_registry is_failure target t0 between t1 f r)
      = map_call (reg_default r) is_failure target t0 abs_between t1 f (abs_registry r)"
    "reg_wf (snd (guarded_on_registry is_failure target t0 between t1 f r))"
    using guarded_call_refines [OF assms, of is_failure t0 t1 f] by (auto simp: represents_def prod_eq_iff)
qed (simp_all add: acts_on_map_call map_call_other)

lemma map_call_succeeds:
  assumes "m target = None" "call_timeout dflt = None" "awaited f = Inr v" "\<And>m. abs_between m target = m target"
  shows "map_call dflt is_failure target t0 abs_between t1 f m
    = (Inr v, (abs_between (m(target \<mapsto> cb_new dflt)))(target \<mapsto> record_success (cb_new dflt)))"
proof -
  have "should_allow t0 (cb_new dflt) = (True, cb_new dflt)" "get_call_timeout (cb_new dflt) = None"
    using assms(2) by (simp_all add: should_allow_def cb_new_def get_call_timeout_def Let_def)
  then show ?thesis
    using assms by (simp add: map_call_def guarded_run_def map_allow_def with_target_def map_update_def Let_def)
qed

theorem registry_refines_map_witness:
  "abs_registry (snd (http_request ''b'' 0
      (\<lambda>r. snd (http_request ''a'' 1 id 2 (demo_call (Inl SqlxPoolClosed)) r)) 3 (demo_call (Inr 7))
      (registry_new \<lparr>targets = []\<rparr>))) ''b'' = Some (record_success (cb_new cb_target_default))"
proof -
  let ?r = "registry_new \<lparr>targets = []\<rparr>"
  let ?other = "\<lambda>m. snd (map_call (reg_default ?r) (\<lambda>e. True) ''a'' 1 id 2 (demo_call (Inl SqlxPoolClosed)) m)"
  have r: "reg_default ?r = cb_target_default" "abs_registry ?r = Map.empty"
    by (simp_all add: registry_new_def abs_registry_def registry_get_def fun_eq_iff)
  have between: "acts_on_map ''b'' (reg_default ?r)
      (\<lambda>r. snd (http_request ''a'' 1 id 2 (demo_call (Inl SqlxPoolClosed)) r)) ?other"
    unfolding http_request_def by (rule acts_on_map_call)
  have "?other m ''b'' = m ''b''" for m by (rule map_call_other) simp_all
  then have "map_call (reg_default ?r) (\<lambda>e. True) ''b'' 0 ?other 3 (demo_call (Inr 7)) (abs_registry ?r)
      = (Inr 7, (?other ((abs_registry ?r)(''b'' \<mapsto> cb_new (reg_default ?r))))
          (''b'' \<mapsto> record_success (cb_new (reg_default ?r))))"
    by (rule map_call_succeeds [rotated 3]) (simp_all add: r demo_call_def cb_target_default_def)
  moreover note conjunct1 [OF registry_refines_map [OF reg_wf_new between,
      where is_failure = "\<lambda>e. True" and ?t0.0 = 0 and ?t1.0 = 3 and f = "demo_call (Inr 7)"]]
  ultimately show ?thesis by (simp add: http_request_def r(1) prod_eq_iff)
qed

end
