(* ===== verification/Resilience.thy ===== *)
theory Resilience
  imports Prelude Errors
begin

text \<open>
  \<open>src/resilience.rs\<close>: retrying an operation while its error is transient.  The operation
  is what its successive calls return; \<open>Duration::mul_f64\<close> with the random fraction is the
  argument \<open>scale\<close> (of the attempt and the capped delay), which only shortens a delay.
\<close>

record retry_policy =
  max_attempts :: u32
  base_delay :: nanos
  max_delay :: nanos

definition retry_default :: retry_policy where
  "retry_default = \<lparr>max_attempts = 3, base_delay = millis 100, max_delay = secs 5\<rparr>"

definition duration_max :: nanos where
  "duration_max = (2 ^ 64 - 1) * 1000000000 + 999999999"

definition saturating_mul :: "nanos \<Rightarrow> nat \<Rightarrow> nanos" where
  "saturating_mul d k = min (d * k) duration_max"

definition backoff_cap :: "retry_policy \<Rightarrow> u32 \<Rightarrow> nanos" where
  "backoff_cap p attempt =
     (let e = min (unat attempt - 1) 31
      in min (saturating_mul (base_delay p) (2 ^ e)) (max_delay p))"

definition backoff :: "(u32 \<Rightarrow> nanos \<Rightarrow> nanos) \<Rightarrow> retry_policy \<Rightarrow> u32 \<Rightarrow> nanos" where
  "backoff scale p attempt = scale attempt (backoff_cap p attempt)"

text \<open>The loop: the result, the number of calls made and the delays slept, in order.\<close>

function retry_loop ::
  "(u32 \<Rightarrow> nanos \<Rightarrow> nanos) \<Rightarrow> retry_policy \<Rightarrow> (nat \<Rightarrow> error + 'a) \<Rightarrow> u32 \<Rightarrow> nat
    \<Rightarrow> (error + 'a) \<times> nat \<times> nanos list" where
  "retry_loop scale p op attempt i =
     (case op i of
        Inr v \<Rightarrow> (Inr v, i + 1, [])
      | Inl e \<Rightarrow>
          if attempt \<ge> max_attempts p \<or> \<not> is_transient e then (Inl e, i + 1, [])
          else (let (r, n, ds) = retry_loop scale p op (attempt + 1) (i + 1)
                in (r, n, backoff scale p attempt # ds)))"
  by pat_completeness auto
termination
proof (relation "measure (\<lambda>(scale, p, op, attempt, i). unat (max_attempts p) - unat attempt)",
    goal_cases)
  case 1
  show ?case by simp
next
  case (2 scale p op attempt i e)
  then have "attempt < max_attempts p" by auto
  then show ?case using unat_Suc_u32 [of attempt "max_attempts p"] by (simp add: word_less_nat_alt)
qed

declare retry_loop.simps [simp del]

definition retry_transient ::
  "(u32 \<Rightarrow> nanos \<Rightarrow> nanos) \<Rightarrow> retry_policy \<Rightarrow> (nat \<Rightarrow> error + 'a)
    \<Rightarrow> (error + 'a) \<times> nat \<times> nanos list" where
  "retry_transient scale p op = retry_loop scale p op 1 0"

text \<open>What ends the loop: a value, or an error that retrying cannot help.\<close>

fun final_outcome :: "error + 'a \<Rightarrow> bool" where
  "final_outcome (Inr v) = True"
| "final_outcome (Inl e) = (\<not> is_transient e)"

definition attempts_allowed :: "retry_policy \<Rightarrow> nat" where
  "attempts_allowed p = max 1 (unat (max_attempts p))"

lemma retry_loop_spec:
  assumes "attempt = 1 \<and> i = 0 \<or> unat attempt = i + 1 \<and> unat attempt \<le> unat (max_attempts p)"
  shows "\<exists>k r ds. retry_loop scale p op attempt i = (r, k + 1, ds) \<and> i \<le> k
    \<and> k < attempts_allowed p \<and> r = op k \<and> length ds = k - i
    \<and> (\<forall>j. i \<le> j \<and> j < k \<longrightarrow> \<not> final_outcome (op j))
    \<and> (final_outcome (op k) \<or> k + 1 = attempts_allowed p)
    \<and> (\<forall>j < k - i. ds ! j = backoff scale p (word_of_nat (i + j + 1)))"
  using assms
proof (induction scale p op attempt i rule: retry_loop.induct)
  case (1 scale p op attempt i)
  have ua: "unat attempt = i + 1" and small: "i < attempts_allowed p"
    using 1(2) by (auto simp: attempts_allowed_def)
  show ?case
  proof (cases "\<exists>e. op i = Inl e \<and> is_transient e \<and> attempt < max_attempts p")
    case False
    then have "retry_loop scale p op attempt i = (op i, i + 1, [])"
      by (subst retry_loop.simps) (auto simp: not_le split: sum.splits)
    moreover have "final_outcome (op i) \<or> i + 1 = attempts_allowed p"
    proof (cases "op i")
      case (Inl e)
      then show ?thesis using False ua small
        by (auto simp: attempts_allowed_def word_less_nat_alt not_less max_def split: if_splits)
    qed simp
    ultimately show ?thesis using small by (intro exI [of _ i]) auto
  next
    case True
    then obtain e where e: "op i = Inl e" "is_transient e" "attempt < max_attempts p" by blast
    note u = unat_Suc_u32 [OF e(3)]
    have "attempt + 1 = 1 \<and> i + 1 = 0
        \<or> unat (attempt + 1) = i + 1 + 1 \<and> unat (attempt + 1) \<le> unat (max_attempts p)"
      using e(3) ua u by (auto simp: word_less_nat_alt)
    then obtain k r ds where IH: "retry_loop scale p op (attempt + 1) (i + 1) = (r, k + 1, ds)"
      "i + 1 \<le> k" "k < attempts_allowed p" "r = op k" "length ds = k - (i + 1)"
      "\<And>j. i + 1 \<le> j \<and> j < k \<Longrightarrow> \<not> final_outcome (op j)"
      "final_outcome (op k) \<or> k + 1 = attempts_allowed p"
      "\<And>j. j < k - (i + 1) \<Longrightarrow> ds ! j = backoff scale p (word_of_nat (i + 1 + j + 1))"
      using 1(1) [OF e(1)] e(2,3) by (auto simp: not_le)
    have eq: "retry_loop scale p op attempt i = (r, k + 1, backoff scale p attempt # ds)"
      by (subst retry_loop.simps) (use e IH(1) in \<open>auto simp: not_le\<close>)
    have "\<not> final_outcome (op j)" if "i \<le> j" "j < k" for j
      using that e IH(6) [of j] by (cases "j = i") auto
    moreover have "(backoff scale p attempt # ds) ! j = backoff scale p (word_of_nat (i + j + 1))"
      if "j < k - i" for j
    proof (cases j)
      case 0
      have "word_of_nat (unat attempt) = attempt" by simp
      then have "attempt = word_of_nat (i + 1)" unfolding ua by (rule sym)
      then show ?thesis using 0 by simp
    next
      case (Suc m)
      then show ?thesis using IH(8) [of m] that by simp
    qed
    ultimately show ?thesis using eq IH by (intro exI [of _ k] exI) auto
  qed
qed


text \<open>C29: (retry) \<open>retry_transient\<close> always returns: it makes at most \<open>max_attempts\<close> calls (at least one),
returns what the last call returned, stops at the first value or non-transient error, and
gives up otherwise only when the attempts are used up; between two calls it sleeps the
backoff of that attempt.\<close>
theorem retry_transient_correct:
  "\<exists>k ds. retry_transient scale p op = (op k, k + 1, ds) \<and> k < attempts_allowed p
    \<and> (\<forall>j < k. \<not> final_outcome (op j))
    \<and> (final_outcome (op k) \<or> k + 1 = attempts_allowed p)
    \<and> ds = map (\<lambda>j. backoff scale p (word_of_nat (j + 1))) [0..<k]"
proof -
  have "\<exists>k r ds. retry_loop scale p op 1 0 = (r, k + 1, ds) \<and> 0 \<le> k
    \<and> k < attempts_allowed p \<and> r = op k \<and> length ds = k - 0
    \<and> (\<forall>j. 0 \<le> j \<and> j < k \<longrightarrow> \<not> final_outcome (op j))
    \<and> (final_outcome (op k) \<or> k + 1 = attempts_allowed p)
    \<and> (\<forall>j < k - 0. ds ! j = backoff scale p (word_of_nat (0 + j + 1)))"
    by (rule retry_loop_spec) simp
  then obtain k ds where k: "retry_transient scale p op = (op k, k + 1, ds)"
    "k < attempts_allowed p" "\<forall>j < k. \<not> final_outcome (op j)"
    "final_outcome (op k) \<or> k + 1 = attempts_allowed p" "length ds = k"
    "\<forall>j < k. ds ! j = backoff scale p (word_of_nat (j + 1))"
    unfolding retry_transient_def by auto
  then have "ds = map (\<lambda>j. backoff scale p (word_of_nat (j + 1))) [0..<k]"
    by (intro nth_equalityI) auto
  with k show ?thesis by blast
qed

theorem retry_transient_correct_witness:
  "retry_transient (\<lambda>a d. d) \<lparr>max_attempts = 3, base_delay = 2, max_delay = 5\<rparr>
     (\<lambda>i. if i < 2 then Inl (io_error ''reset'') else Inr (42 :: nat)) = (Inr 42, 3, [2, 4])"
proof -
  let ?p = "\<lparr>max_attempts = 3, base_delay = 2, max_delay = 5\<rparr>"
  let ?op = "\<lambda>i. if i < 2 then Inl (io_error ''reset'') else Inr (42 :: nat)"
  obtain k ds where k: "retry_transient (\<lambda>a d. d) ?p ?op = (?op k, k + 1, ds)"
    "k < attempts_allowed ?p" "\<forall>j < k. \<not> final_outcome (?op j)"
    "final_outcome (?op k) \<or> k + 1 = attempts_allowed ?p"
    "ds = map (\<lambda>j. backoff (\<lambda>a d. d) ?p (word_of_nat (j + 1))) [0..<k]"
    using retry_transient_correct [of "\<lambda>a d. d" ?p ?op] by blast
  have "k = 2"
    using k(2-4) by (auto simp: attempts_allowed_def error_defs error_constructors split: if_splits)
  then show ?thesis using k(1,5)
    by (simp add: backoff_def backoff_cap_def saturating_mul_def duration_max_def upt_rec)
qed

text \<open>Every delay is at most \<open>max_delay\<close> and at most the doubled base delay of its attempt,
however large the attempt number, provided the jitter does not lengthen a delay.\<close>
theorem backoff_bounds:
  assumes "\<And>a d. scale a d \<le> d"
  shows "backoff scale p attempt \<le> max_delay p
    \<and> backoff scale p attempt \<le> base_delay p * 2 ^ (unat attempt - 1)"
proof -
  have "backoff scale p attempt \<le> backoff_cap p attempt" unfolding backoff_def by (rule assms)
  moreover have "backoff_cap p attempt \<le> max_delay p" by (simp add: backoff_cap_def Let_def)
  moreover have "backoff_cap p attempt \<le> base_delay p * 2 ^ (unat attempt - 1)"
    by (auto simp: backoff_cap_def Let_def saturating_mul_def intro!: min.coboundedI1 mult_le_mono2
        power_increasing)
  ultimately show ?thesis by linarith
qed

theorem backoff_bounds_witness:
  "backoff (\<lambda>a d. d div 2) retry_default 40 \<le> secs 5"
  using backoff_bounds [of "\<lambda>a d. d div 2" retry_default 40] by (simp add: retry_default_def)

end
