(* ===== verification/Dedup.thy ===== *)
theory Dedup
  imports Http "HOL-Library.AList"
begin

text \<open>
  \<open>src/fluent/dedup.rs\<close> and \<open>src/config/http/dedup.rs\<close>: the request-deduplication tracker.
  The \<open>DashMap\<close> is an association list with distinct keys, the insertion-order index a
  list.  First the operations as one task runs them alone, then the separate accesses to
  the shared map as steps, for interleavings.
\<close>

record dedup_config =
  dd_cfg_ttl :: nanos
  dd_cfg_max_entries :: nat

definition dedup_default_ttl :: nanos where
  "dedup_default_ttl = secs 60"

definition dedup_default_max_entries :: nat where
  "dedup_default_max_entries = 10000"

definition dedup_config_default :: dedup_config where
  "dedup_config_default =
     \<lparr>dd_cfg_ttl = dedup_default_ttl, dd_cfg_max_entries = dedup_default_max_entries\<rparr>"

definition dedup_with_ttl :: "nanos \<Rightarrow> dedup_config \<Rightarrow> dedup_config" where
  "dedup_with_ttl ttl c = c\<lparr>dd_cfg_ttl := ttl\<rparr>"

definition dedup_with_max_entries :: "nat \<Rightarrow> dedup_config \<Rightarrow> dedup_config" where
  "dedup_with_max_entries n c = c\<lparr>dd_cfg_max_entries := n\<rparr>"

record request_entry =
  expires_at :: nanos
  entry_seq :: u64

record request_tracker =
  tracker :: "(string \<times> request_entry) list"
  dd_order :: "(u64 \<times> string) list"
  dd_seq :: u64
  dd_ttl :: nanos
  dd_max :: nat

definition tracker_new :: "nanos \<Rightarrow> nat \<Rightarrow> request_tracker" where
  "tracker_new ttl max_entries =
     \<lparr>tracker = [], dd_order = [], dd_seq = 0, dd_ttl = ttl, dd_max = max_entries\<rparr>"

definition tracker_get :: "string \<Rightarrow> request_tracker \<Rightarrow> request_entry option" where
  "tracker_get key tr = map_of (tracker tr) key"

definition tracker_remove :: "string \<Rightarrow> request_tracker \<Rightarrow> request_tracker" where
  "tracker_remove key tr = tr\<lparr>tracker := AList.delete key (tracker tr)\<rparr>"

definition cleanup_expired :: "nanos \<Rightarrow> request_tracker \<Rightarrow> request_tracker" where
  "cleanup_expired now tr =
     tr\<lparr>tracker := filter (\<lambda>(k, e). now < expires_at e) (tracker tr)\<rparr>"

fun evict_loop ::
  "(u64 \<times> string) list \<Rightarrow> (string \<times> request_entry) list
    \<Rightarrow> (u64 \<times> string) list \<times> (string \<times> request_entry) list" where
  "evict_loop [] m = ([], m)"
| "evict_loop ((s, key) # order) m =
     (case map_of m key of
        Some e \<Rightarrow> if entry_seq e = s then (order, AList.delete key m) else evict_loop order m
      | None \<Rightarrow> evict_loop order m)"

definition evict_oldest :: "request_tracker \<Rightarrow> request_tracker" where
  "evict_oldest tr =
     (let (order, m) = evict_loop (dd_order tr) (tracker tr)
      in tr\<lparr>dd_order := order, tracker := m\<rparr>)"

definition make_room :: "nanos \<Rightarrow> request_tracker \<Rightarrow> request_tracker" where
  "make_room now' tr =
     (if length (tracker tr) \<ge> dd_max tr
      then (let tr' = cleanup_expired now' tr
            in if length (tracker tr') \<ge> dd_max tr' then evict_oldest tr' else tr')
      else tr)"

definition mark_new :: "nanos \<Rightarrow> string \<Rightarrow> request_tracker \<Rightarrow> request_tracker" where
  "mark_new now key tr =
     (let s = dd_seq tr
      in tr\<lparr>dd_seq := s + 1,
            tracker := AList.update key \<lparr>expires_at = now + dd_ttl tr, entry_seq = s\<rparr> (tracker tr),
            dd_order := dd_order tr @ [(s, key)]\<rparr>)"

text \<open>\<open>now'\<close> is the second clock reading, inside \<open>cleanup_expired\<close>.\<close>

definition check_and_mark ::
  "nanos \<Rightarrow> nanos \<Rightarrow> string \<Rightarrow> request_tracker \<Rightarrow> bool \<times> request_tracker" where
  "check_and_mark now now' key tr =
     (case tracker_get key tr of
        Some e \<Rightarrow>
          if now < expires_at e then (True, tr)
          else (False, mark_new now key (make_room now' (tracker_remove key tr)))
      | None \<Rightarrow> (False, mark_new now key (make_room now' tr)))"

section \<open>The invariant\<close>

text \<open>
  Every tracked key has its current record in the order index, the sequence numbers of
  the index increase, and none has been handed out twice.
\<close>

definition dedup_wf :: "request_tracker \<Rightarrow> bool" where
  "dedup_wf tr \<longleftrightarrow>
     distinct (map fst (tracker tr))
     \<and> (\<forall>(k, e) \<in> set (tracker tr). (entry_seq e, k) \<in> set (dd_order tr))
     \<and> sorted_wrt (<) (map fst (dd_order tr))
     \<and> (\<forall>s \<in> set (map fst (dd_order tr)). s < dd_seq tr)"

lemma dedup_wf_new: "dedup_wf (tracker_new ttl n)"
  by (simp add: dedup_wf_def tracker_new_def)

lemma delete_filter: "AList.delete key m = filter (\<lambda>(k, e). k \<noteq> key) m"
  by (induction m) auto

lemma update_new: "k \<notin> fst ` set m \<Longrightarrow> AList.update k v m = m @ [(k, v)]"
  by (induction m) auto

lemma distinct_filter_fst: "distinct (map fst m) \<Longrightarrow> distinct (map fst (filter P m))"
  by (induction m) auto

lemma dedup_wf_remove: "dedup_wf tr \<Longrightarrow> dedup_wf (tracker_remove key tr)"
  by (auto simp: dedup_wf_def tracker_remove_def delete_filter distinct_filter_fst)

lemma dedup_wf_cleanup: "dedup_wf tr \<Longrightarrow> dedup_wf (cleanup_expired now tr)"
  by (auto simp: dedup_wf_def cleanup_expired_def distinct_filter_fst)

lemma evict_loop_spec:
  assumes "distinct (map fst m)" "m \<noteq> []"
    "\<forall>(k, e) \<in> set m. (entry_seq e, k) \<in> set order"
  shows "\<exists>pre k e order'. order = pre @ (entry_seq e, k) # order' \<and> (k, e) \<in> set m
    \<and> evict_loop order m = (order', AList.delete k m)
    \<and> (\<forall>(k', e') \<in> set m. (entry_seq e', k') \<notin> set pre)"
  using assms
proof (induction order m rule: evict_loop.induct)
  case (1 m)
  then show ?case by (cases m) auto
next
  case (2 s key order m)
  show ?case
  proof (cases "\<exists>e. map_of m key = Some e \<and> entry_seq e = s")
    case True
    then obtain e where "map_of m key = Some e" "entry_seq e = s" by blast
    then have "(s, key) # order = [] @ (entry_seq e, key) # order" "(key, e) \<in> set m"
      "evict_loop ((s, key) # order) m = (order, AList.delete key m)"
      by (auto dest: map_of_SomeD)
    then show ?thesis
      by - (rule exI [of _ "[]"], rule exI [of _ key], rule exI [of _ e], rule exI [of _ order],
          intro conjI, assumption+, simp)
  next
    case False
    then have eq: "evict_loop ((s, key) # order) m = evict_loop order m"
      by (auto split: option.splits)
    have stale: "(entry_seq e', k') \<noteq> (s, key)" if "(k', e') \<in> set m" for k' e'
      using False that 2(3) by (auto simp: map_of_is_SomeI)
    have "\<forall>(k, e) \<in> set m. (entry_seq e, k) \<in> set order" using 2(5) stale by fastforce
    note prem = 2(3,4) this
    have "\<exists>pre k e order'. order = pre @ (entry_seq e, k) # order' \<and> (k, e) \<in> set m
      \<and> evict_loop order m = (order', AList.delete k m)
      \<and> (\<forall>(k', e') \<in> set m. (entry_seq e', k') \<notin> set pre)"
    proof (cases "map_of m key")
      case None
      show ?thesis by (rule 2(1) [OF None prem])
    next
      case (Some e)
      then have "entry_seq e \<noteq> s" using False by blast
      then show ?thesis by (rule 2(2) [OF Some _ prem])
    qed
    then obtain pre k e order' where "order = pre @ (entry_seq e, k) # order'" "(k, e) \<in> set m"
      "evict_loop order m = (order', AList.delete k m)"
      "\<forall>(k', e') \<in> set m. (entry_seq e', k') \<notin> set pre"
      by blast
    then show ?thesis using eq stale
      by (intro exI [of _ "(s, key) # pre"] exI [of _ k] exI [of _ e] exI [of _ order']) auto
  qed
qed

lemma evict_oldest_spec:
  assumes "dedup_wf tr" "tracker tr \<noteq> []"
  obtains k e where "(k, e) \<in> set (tracker tr)" "tracker (evict_oldest tr) = AList.delete k (tracker tr)"
    "\<forall>(k', e') \<in> set (tracker tr). entry_seq e \<le> entry_seq e'"
    "dedup_wf (evict_oldest tr)"
proof -
  obtain pre k e order' where O: "dd_order tr = pre @ (entry_seq e, k) # order'"
    "(k, e) \<in> set (tracker tr)"
    "evict_loop (dd_order tr) (tracker tr) = (order', AList.delete k (tracker tr))"
    "\<forall>(k', e') \<in> set (tracker tr). (entry_seq e', k') \<notin> set pre"
    using evict_loop_spec [of "tracker tr" "dd_order tr"] assms by (auto simp: dedup_wf_def)
  have rest: "(entry_seq e', k') \<in> set ((entry_seq e, k) # order')" if "(k', e') \<in> set (tracker tr)"
    for k' e' using that O assms(1) by (fastforce simp: dedup_wf_def)
  have "entry_seq e \<le> entry_seq e'" if "(k', e') \<in> set (tracker tr)" for k' e'
    using rest [OF that] O(1) assms(1) by (fastforce simp: dedup_wf_def sorted_wrt_append)
  moreover have "dedup_wf (evict_oldest tr)"
    using assms(1) O rest
    by (fastforce simp: dedup_wf_def evict_oldest_def delete_filter distinct_filter_fst
        sorted_wrt_append)
  ultimately show ?thesis using O by (intro that [of k e]) (auto simp: evict_oldest_def)
qed

lemma evict_oldest_simps [simp]:
  "dd_seq (evict_oldest tr) = dd_seq tr" "dd_max (evict_oldest tr) = dd_max tr"
  "dd_ttl (evict_oldest tr) = dd_ttl tr"
  by (simp_all add: evict_oldest_def case_prod_unfold Let_def)

lemma dedup_fields [simp]:
  "dd_seq (cleanup_expired now tr) = dd_seq tr" "dd_max (cleanup_expired now tr) = dd_max tr"
  "dd_ttl (cleanup_expired now tr) = dd_ttl tr" "dd_order (cleanup_expired now tr) = dd_order tr"
  "dd_seq (tracker_remove k tr) = dd_seq tr" "dd_max (tracker_remove k tr) = dd_max tr"
  "dd_ttl (tracker_remove k tr) = dd_ttl tr" "dd_order (tracker_remove k tr) = dd_order tr"
  "dd_seq (make_room now' tr) = dd_seq tr" "dd_max (make_room now' tr) = dd_max tr"
  "dd_ttl (make_room now' tr) = dd_ttl tr"
  "dd_max (mark_new now k tr) = dd_max tr" "dd_ttl (mark_new now k tr) = dd_ttl tr"
  "dd_seq (mark_new now k tr) = dd_seq tr + 1"
  by (simp_all add: cleanup_expired_def tracker_remove_def make_room_def mark_new_def Let_def)

lemma evict_oldest_empty: "tracker tr = [] \<Longrightarrow> tracker (evict_oldest tr) = []"
proof -
  have "snd (evict_loop order []) = []" for order by (induction order) auto
  then show "tracker tr = [] \<Longrightarrow> tracker (evict_oldest tr) = []"
    by (simp add: evict_oldest_def case_prod_unfold Let_def)
qed

lemma evict_order_suffix: "suffix (fst (evict_loop order m)) order"
  by (induction order m rule: evict_loop.induct) (auto simp: suffix_Cons split: option.splits)

lemma evict_tracker_subset: "set (snd (evict_loop order m)) \<subseteq> set m"
  by (induction order m rule: evict_loop.induct) (auto simp: delete_filter split: option.splits)

lemma dedup_wf_evict: "dedup_wf tr \<Longrightarrow> dedup_wf (evict_oldest tr)"
proof (cases "tracker tr = []")
  case True
  assume wf: "dedup_wf tr"
  have "suffix (dd_order (evict_oldest tr)) (dd_order tr)"
    by (simp add: evict_oldest_def case_prod_unfold evict_order_suffix Let_def)
  then show ?thesis using wf True evict_oldest_empty [OF True]
    by (auto simp: dedup_wf_def suffix_def sorted_wrt_append)
next
  case False
  assume "dedup_wf tr"
  then show ?thesis using False by (rule evict_oldest_spec)
qed

lemma dedup_wf_room: "dedup_wf tr \<Longrightarrow> dedup_wf (make_room now' tr)"
  by (simp add: make_room_def dedup_wf_evict dedup_wf_cleanup Let_def)

lemma room_subset: "set (tracker (make_room now' tr)) \<subseteq> set (tracker tr)"
  using evict_tracker_subset [of "dd_order tr" "filter (\<lambda>(k, e). now' < expires_at e) (tracker tr)"]
  by (auto simp: make_room_def evict_oldest_def cleanup_expired_def case_prod_unfold Let_def)


lemma evict_length: "length (snd (evict_loop order m)) \<le> length m"
  by (induction order m rule: evict_loop.induct) (auto simp: length_delete_le split: option.splits)

lemma room_length_le: "length (tracker (make_room now' tr)) \<le> length (tracker tr)"
proof -
  have "length (snd (evict_loop order (filter P m))) \<le> length m" for order m P
    by (rule le_trans [OF evict_length length_filter_le])
  then show ?thesis
    by (simp add: make_room_def evict_oldest_def cleanup_expired_def case_prod_unfold Let_def)
qed

lemma room_length:
  assumes "dedup_wf tr"
  shows "length (tracker (make_room now' tr)) \<le> max 1 (dd_max tr) - 1
    \<or> length (tracker (make_room now' tr)) < length (tracker tr)"
proof (cases "length (tracker tr) < max 1 (dd_max tr)")
  case True
  then show ?thesis using room_length_le [of now' tr] by linarith
next
  case False
  let ?c = "cleanup_expired now' tr"
  have wf: "dedup_wf ?c" by (rule dedup_wf_cleanup [OF assms])
  have le: "length (tracker ?c) \<le> length (tracker tr)"
    by (simp add: cleanup_expired_def)
  show ?thesis
  proof (cases "length (tracker ?c) \<ge> dd_max tr \<and> tracker ?c \<noteq> []")
    case True
    then obtain k e where "(k, e) \<in> set (tracker ?c)"
      "tracker (evict_oldest ?c) = AList.delete k (tracker ?c)"
      using evict_oldest_spec [OF wf] by metis
    then have "length (tracker (evict_oldest ?c)) < length (tracker ?c)"
      by (auto simp: delete_filter intro: length_filter_less)
    then show ?thesis using True False le by (auto simp: make_room_def Let_def)
  next
    case False
    then show ?thesis using le evict_oldest_empty [of ?c]
      by (cases "tracker ?c = []") (auto simp: make_room_def Let_def)
  qed
qed

lemma dedup_wf_mark:
  assumes "dedup_wf tr" "key \<notin> fst ` set (tracker tr)" "unat (dd_seq tr) < 18446744073709551615"
  shows "dedup_wf (mark_new now key tr)"
proof -
  have "dd_seq tr < dd_seq tr + 1" using unat_Suc_u64 [OF assms(3)] by (simp add: word_less_nat_alt)
  then show ?thesis using assms(1,2)
    by (fastforce simp: dedup_wf_def mark_new_def update_new Let_def sorted_wrt_append
        intro: less_trans)
qed

lemma room_fresh:
  "key \<notin> fst ` set (tracker tr) \<Longrightarrow> key \<notin> fst ` set (tracker (make_room now' tr))"
  using room_subset [of now' tr] by auto

lemma remove_fresh [simp]: "key \<notin> fst ` set (tracker (tracker_remove key tr))"
  by (auto simp: tracker_remove_def delete_filter)

lemma get_none_fresh: "tracker_get key tr = None \<longleftrightarrow> key \<notin> fst ` set (tracker tr)"
  by (simp add: tracker_get_def map_of_eq_None_iff)

lemma mark_length:
  "key \<notin> fst ` set (tracker tr) \<Longrightarrow> length (tracker (mark_new now key tr)) = Suc (length (tracker tr))"
  by (simp add: mark_new_def update_new Let_def)

text \<open>What a new request does, whether its key was unknown or expired.\<close>

definition admit :: "nanos \<Rightarrow> nanos \<Rightarrow> string \<Rightarrow> request_tracker \<Rightarrow> request_tracker" where
  "admit now now' key tr = mark_new now key (make_room now' tr)"

lemma check_and_mark_cases:
  "check_and_mark now now' key tr =
     (if \<exists>e. tracker_get key tr = Some e \<and> now < expires_at e then (True, tr)
      else (False, admit now now' key (tracker_remove key tr)))"
proof (cases "tracker_get key tr")
  case None
  then have "tracker_remove key tr = tr"
    by (simp add: get_none_fresh tracker_remove_def)
  then show ?thesis using None by (simp add: check_and_mark_def admit_def)
qed (auto simp: check_and_mark_def admit_def)

lemma admit_wf:
  assumes "dedup_wf tr" "key \<notin> fst ` set (tracker tr)" "unat (dd_seq tr) < 18446744073709551615"
  shows "dedup_wf (admit now now' key tr)"
  unfolding admit_def using assms by (intro dedup_wf_mark dedup_wf_room room_fresh) simp_all

lemma admit_length:
  assumes "dedup_wf tr" "key \<notin> fst ` set (tracker tr)"
    "length (tracker tr) \<le> max 1 (dd_max tr)"
  shows "length (tracker (admit now now' key tr)) \<le> max 1 (dd_max tr)"
  using room_length [OF assms(1), of now'] assms(3)
  by (auto simp: admit_def mark_length room_fresh [OF assms(2)])

section \<open>Reachable trackers\<close>

text \<open>
  A tracker as one task after another uses it, with the background cleanup in between,
  for fewer than \<open>2 ^ 64\<close> admitted requests.
\<close>

inductive dd_reach :: "nanos \<Rightarrow> nat \<Rightarrow> request_tracker \<Rightarrow> bool" for ttl n where
  init: "dd_reach ttl n (tracker_new ttl n)"
| request: "dd_reach ttl n tr \<Longrightarrow> unat (dd_seq tr) < 18446744073709551615 \<Longrightarrow>
    dd_reach ttl n (snd (check_and_mark now now' key tr))"
| cleanup: "dd_reach ttl n tr \<Longrightarrow> dd_reach ttl n (cleanup_expired now tr)"

lemma tracker_remove_length: "length (tracker (tracker_remove k tr)) \<le> length (tracker tr)"
  by (simp add: tracker_remove_def length_delete_le)

lemma dd_reach_inv:
  "dd_reach ttl n tr \<Longrightarrow> dedup_wf tr \<and> dd_max tr = n \<and> dd_ttl tr = ttl
    \<and> length (tracker tr) \<le> max 1 n"
proof (induction rule: dd_reach.induct)
  case init
  then show ?case using dedup_wf_new [of ttl n] by (simp add: tracker_new_def)
next
  case (request tr now now' key)
  then have "length (tracker (tracker_remove key tr)) \<le> max 1 (dd_max tr)"
    using tracker_remove_length le_trans by metis
  then show ?case using request dedup_wf_remove [of tr key]
    admit_length [of "tracker_remove key tr" key now now']
    by (auto simp: check_and_mark_cases admit_wf) (simp_all add: admit_def)
next
  case (cleanup tr now)
  then show ?case
    by (auto simp: dedup_wf_cleanup) (simp add: cleanup_expired_def le_trans [OF length_filter_le])
qed

text \<open>Used by one task at a time, the tracker never holds more than
\<open>max_entries\<close> requests (one, if that is zero), and its two indices agree: every tracked
request has its record in the insertion-order index, in the order of insertion.\<close>
theorem dedup_capacity:
  assumes "dd_reach ttl n tr"
  shows "length (tracker tr) \<le> max 1 n \<and> dedup_wf tr"
  using dd_reach_inv [OF assms] by blast

theorem dedup_capacity_witness:
  "length (tracker (snd (check_and_mark 3 3 ''c''
     (snd (check_and_mark 2 2 ''b'' (snd (check_and_mark 1 1 ''a'' (tracker_new 10 2)))))))) \<le> 2"
proof -
  have "dd_reach 10 2 (snd (check_and_mark 3 3 ''c''
     (snd (check_and_mark 2 2 ''b'' (snd (check_and_mark 1 1 ''a'' (tracker_new 10 2)))))))"
    by (intro dd_reach.intros)
      (simp_all add: check_and_mark_def tracker_get_def tracker_new_def mark_new_def make_room_def Let_def)
  from dedup_capacity [OF this] show ?thesis by simp
qed

text \<open>At capacity with nothing expired, a new request evicts exactly the tracked request
with the smallest insertion number, and nothing else.\<close>
theorem dedup_evicts_oldest:
  assumes "dd_reach ttl n tr" "n \<le> length (tracker tr)" "tracker tr \<noteq> []"
    "\<forall>(k, e) \<in> set (tracker tr). now < expires_at e" "tracker_get key tr = None"
  shows "\<exists>k e. (k, e) \<in> set (tracker tr) \<and> (\<forall>(k', e') \<in> set (tracker tr). entry_seq e \<le> entry_seq e')
    \<and> tracker (snd (check_and_mark now now key tr)) =
      AList.delete k (tracker tr) @ [(key, \<lparr>expires_at = now + ttl, entry_seq = dd_seq tr\<rparr>)]"
proof -
  have inv: "dedup_wf tr" "dd_max tr = n" "dd_ttl tr = ttl" using dd_reach_inv [OF assms(1)] by auto
  have all: "filter (\<lambda>(k, e). now < expires_at e) (tracker tr) = tracker tr"
    using assms(4) by (auto simp: filter_id_conv)
  then have c: "cleanup_expired now tr = tr" by (simp add: cleanup_expired_def)
  obtain k e where E: "(k, e) \<in> set (tracker tr)"
    "tracker (evict_oldest tr) = AList.delete k (tracker tr)"
    "\<forall>(k', e') \<in> set (tracker tr). entry_seq e \<le> entry_seq e'"
    using evict_oldest_spec [OF inv(1) assms(3)] by metis
  have "make_room now tr = evict_oldest tr" using assms(2) inv(2) c by (simp add: make_room_def)
  moreover have "key \<notin> fst ` set (AList.delete k (tracker tr))"
    using assms(5) by (auto simp: get_none_fresh delete_filter)
  ultimately have "tracker (snd (check_and_mark now now key tr)) =
      AList.delete k (tracker tr) @ [(key, \<lparr>expires_at = now + ttl, entry_seq = dd_seq tr\<rparr>)]"
    using assms(5) E(2) inv(3) by (simp add: check_and_mark_def mark_new_def update_new Let_def)
  then show ?thesis using E by blast
qed


theorem dedup_evicts_oldest_witness:
  "\<exists>k e. (k, e) \<in> set (tracker (snd (check_and_mark 1 1 ''a'' (tracker_new 10 1))))
    \<and> tracker (snd (check_and_mark 2 2 ''b'' (snd (check_and_mark 1 1 ''a'' (tracker_new 10 1)))))
      = AList.delete k (tracker (snd (check_and_mark 1 1 ''a'' (tracker_new 10 1))))
        @ [(''b'', \<lparr>expires_at = 12, entry_seq = 1\<rparr>)]"
proof -
  define tr where "tr = snd (check_and_mark 1 1 ''a'' (tracker_new 10 1))"
  have t: "tracker tr = [(''a'', \<lparr>expires_at = 11, entry_seq = 0\<rparr>)]" "dd_seq tr = 1"
    by (simp_all add: tr_def check_and_mark_def tracker_get_def tracker_new_def mark_new_def
        make_room_def Let_def)
  have "dd_reach 10 1 tr" unfolding tr_def by (intro dd_reach.intros) (simp add: tracker_new_def)
  then have "\<exists>k e. (k, e) \<in> set (tracker tr)
      \<and> (\<forall>(k', e') \<in> set (tracker tr). entry_seq e \<le> entry_seq e')
      \<and> tracker (snd (check_and_mark 2 2 ''b'' tr)) =
        AList.delete k (tracker tr) @ [(''b'', \<lparr>expires_at = 2 + 10, entry_seq = dd_seq tr\<rparr>)]"
    by (rule dedup_evicts_oldest) (simp_all add: t tracker_get_def)
  then show ?thesis unfolding tr_def [symmetric] t(2) by auto
qed

section \<open>Which requests are duplicates\<close>

text \<open>
  The specification: a request is a duplicate if one with its key was admitted less than
  the time-to-live ago.
\<close>

definition is_dup :: "nanos \<Rightarrow> (nanos \<times> string) list \<Rightarrow> nanos \<Rightarrow> string \<Rightarrow> bool" where
  "is_dup ttl hist now key = (\<exists>(t, k) \<in> set hist. k = key \<and> now < t + ttl)"

fun dedup_spec :: "nanos \<Rightarrow> (nanos \<times> string) list \<Rightarrow> (nanos \<times> string) list \<Rightarrow> bool list" where
  "dedup_spec ttl hist [] = []"
| "dedup_spec ttl hist ((now, key) # reqs) =
     (if is_dup ttl hist now key then True # dedup_spec ttl hist reqs
      else False # dedup_spec ttl ((now, key) # hist) reqs)"

fun dedup_run :: "request_tracker \<Rightarrow> (nanos \<times> string) list \<Rightarrow> bool list" where
  "dedup_run tr [] = []"
| "dedup_run tr ((now, key) # reqs) =
     (let (dup, tr') = check_and_mark now now key tr in dup # dedup_run tr' reqs)"

definition dedup_agrees :: "(nanos \<times> string) list \<Rightarrow> nanos \<Rightarrow> request_tracker \<Rightarrow> bool" where
  "dedup_agrees hist now tr \<longleftrightarrow>
     (\<forall>key t. now \<le> t \<longrightarrow>
        is_dup (dd_ttl tr) hist t key \<longleftrightarrow> (\<exists>e. tracker_get key tr = Some e \<and> t < expires_at e))"

lemma room_plenty: "length (tracker tr) < dd_max tr \<Longrightarrow> make_room now' tr = tr"
  by (simp add: make_room_def)

lemma remove_keys: "fst ` set (tracker (tracker_remove key tr)) = fst ` set (tracker tr) - {key}"
  by (auto simp: tracker_remove_def delete_filter)

lemma dedup_admit_step:
  assumes "dedup_agrees hist prev tr" "prev \<le> now" "\<not> is_dup (dd_ttl tr) hist now key"
  shows "dedup_agrees ((now, key) # hist) now (mark_new now key (tracker_remove key tr))"
proof -
  have get: "tracker_get k (mark_new now key (tracker_remove key tr)) =
      (if k = key then Some \<lparr>expires_at = now + dd_ttl tr, entry_seq = dd_seq tr\<rparr>
       else tracker_get k tr)" for k
    by (simp add: mark_new_def tracker_get_def tracker_remove_def update_conv delete_conv' Let_def)
  have old: "\<not> is_dup (dd_ttl tr) hist t key" if "now \<le> t" for t
    using assms(3) that by (fastforce simp: is_dup_def)
  show ?thesis unfolding dedup_agrees_def
  proof (intro allI impI)
    fix k t assume t: "now \<le> t"
    have "is_dup (dd_ttl tr) ((now, key) # hist) t k \<longleftrightarrow>
        (k = key \<and> t < now + dd_ttl tr) \<or> is_dup (dd_ttl tr) hist t k"
      by (auto simp: is_dup_def)
    then show "is_dup (dd_ttl (mark_new now key (tracker_remove key tr))) ((now, key) # hist) t k \<longleftrightarrow>
        (\<exists>e. tracker_get k (mark_new now key (tracker_remove key tr)) = Some e \<and> t < expires_at e)"
      using assms(1,2) t old [OF t] unfolding get dedup_agrees_def by auto
  qed
qed

lemma dedup_run_spec:
  assumes "dedup_agrees hist prev tr" "sorted (prev # map fst reqs)"
    "distinct (map fst (tracker tr))" "fst ` set (tracker tr) \<subseteq> K" "snd ` set reqs \<subseteq> K"
    "finite K" "card K \<le> dd_max tr"
  shows "dedup_run tr reqs = dedup_spec (dd_ttl tr) hist reqs"
  using assms
proof (induction reqs arbitrary: hist prev tr)
  case (Cons req reqs)
  obtain now key where req: "req = (now, key)" by fastforce
  have now: "prev \<le> now" using Cons.prems(2) req by simp
  have dup: "is_dup (dd_ttl tr) hist now key
      \<longleftrightarrow> (\<exists>e. tracker_get key tr = Some e \<and> now < expires_at e)"
    using Cons.prems(1) now by (simp add: dedup_agrees_def)
  show ?case
  proof (cases "is_dup (dd_ttl tr) hist now key")
    case True
    have "dedup_run tr reqs = dedup_spec (dd_ttl tr) hist reqs"
      by (rule Cons.IH [of hist prev]) (use Cons.prems req in auto)
    then show ?thesis using True dup by (simp add: req check_and_mark_cases)
  next
    case False
    let ?r = "tracker_remove key tr"
    let ?tr = "mark_new now key ?r"
    have d: "distinct (map fst (tracker ?r))"
      using Cons.prems(3) by (simp add: tracker_remove_def delete_filter distinct_filter_fst)
    have "length (tracker ?r) = card (fst ` set (tracker ?r))"
      by (metis d distinct_card length_map set_map)
    also have "\<dots> \<le> card (K - {key})"
      using Cons.prems(4,6) unfolding remove_keys by (intro card_mono) auto
    also have "\<dots> < card K"
      using Cons.prems(5,6) req by (intro psubset_card_mono) auto
    finally have room: "make_room now ?r = ?r"
      using Cons.prems(7) by (intro room_plenty) simp
    have keys: "fst ` set (tracker ?tr) = insert key (fst ` set (tracker ?r))"
      by (simp add: mark_new_def update_new Let_def)
    have "dedup_run ?tr reqs = dedup_spec (dd_ttl ?tr) ((now, key) # hist) reqs"
    proof (rule Cons.IH [where prev = now])
      show "dedup_agrees ((now, key) # hist) now ?tr"
        by (rule dedup_admit_step [OF Cons.prems(1) now False])
      show "distinct (map fst (tracker ?tr))"
        using d remove_fresh [of key tr] by (simp add: mark_new_def update_new Let_def)
      show "fst ` set (tracker ?tr) \<subseteq> K"
        using Cons.prems(4,5) req unfolding keys remove_keys by auto
    qed (use Cons.prems req in auto)
    moreover have "\<not> (\<exists>e. tracker_get key tr = Some e \<and> now < expires_at e)"
      using False dup by blast
    ultimately show ?thesis using False room by (simp add: req check_and_mark_cases admit_def)
  qed
qed simp

text \<open>C15: (deduplication) As long as the requests bring at most \<open>max_entries\<close> different identifiers and are
handled one after the other, a request is refused as a duplicate exactly when a request with
the same identifier was admitted less than the time-to-live before.\<close>
theorem dedup_decides_duplicates:
  assumes "sorted (map fst reqs)" "card (snd ` set reqs) \<le> n"
  shows "dedup_run (tracker_new ttl n) reqs = dedup_spec ttl [] reqs"
proof -
  have "dedup_run (tracker_new ttl n) reqs = dedup_spec (dd_ttl (tracker_new ttl n)) [] reqs"
    by (rule dedup_run_spec [where K = "snd ` set reqs" and prev = 0])
      (use assms in \<open>auto simp: dedup_agrees_def is_dup_def tracker_new_def tracker_get_def\<close>)
  then show ?thesis by (simp add: tracker_new_def)
qed

theorem dedup_decides_duplicates_witness:
  "dedup_run (tracker_new 10 2) [(0, ''a''), (5, ''a''), (9, ''b''), (10, ''a''), (19, ''a'')]
   = [False, True, False, False, True]"
proof -
  have "dedup_run (tracker_new 10 2) [(0, ''a''), (5, ''a''), (9, ''b''), (10, ''a''), (19, ''a'')]
    = dedup_spec 10 [] [(0, ''a''), (5, ''a''), (9, ''b''), (10, ''a''), (19, ''a'')]"
    by (rule dedup_decides_duplicates) (simp_all add: card_insert_if)
  then show ?thesis by (simp add: is_dup_def)
qed


section \<open>Interleaved requests\<close>

text \<open>
  \<open>check_and_mark\<close> reaches the shared map several times, and other tasks run in between:
  the lookup, the removal of an expired entry, making room, drawing a sequence number,
  the insertion and the record in the order index are separate steps.
\<close>

datatype dd_pc = AtLookup | AtRemove | AtRoom | AtSeq | AtInsert u64 | AtOrder u64 | Done bool

record dd_task =
  dt_now :: nanos
  dt_key :: string
  dt_pc :: dd_pc

definition dd_start :: "nanos \<Rightarrow> string \<Rightarrow> dd_task" where
  "dd_start now key = \<lparr>dt_now = now, dt_key = key, dt_pc = AtLookup\<rparr>"

fun dd_step :: "nanos \<Rightarrow> dd_task \<times> request_tracker \<Rightarrow> dd_task \<times> request_tracker" where
  "dd_step now' (t, tr) =
     (case dt_pc t of
        AtLookup \<Rightarrow>
          (case tracker_get (dt_key t) tr of
             Some e \<Rightarrow> (t\<lparr>dt_pc := if dt_now t < expires_at e then Done True else AtRemove\<rparr>, tr)
           | None \<Rightarrow> (t\<lparr>dt_pc := AtRoom\<rparr>, tr))
      | AtRemove \<Rightarrow> (t\<lparr>dt_pc := AtRoom\<rparr>, tracker_remove (dt_key t) tr)
      | AtRoom \<Rightarrow> (t\<lparr>dt_pc := AtSeq\<rparr>, make_room now' tr)
      | AtSeq \<Rightarrow> (t\<lparr>dt_pc := AtInsert (dd_seq tr)\<rparr>, tr\<lparr>dd_seq := dd_seq tr + 1\<rparr>)
      | AtInsert s \<Rightarrow>
          (t\<lparr>dt_pc := AtOrder s\<rparr>,
           tr\<lparr>tracker := AList.update (dt_key t)
                \<lparr>expires_at = dt_now t + dd_ttl tr, entry_seq = s\<rparr> (tracker tr)\<rparr>)
      | AtOrder s \<Rightarrow> (t\<lparr>dt_pc := Done False\<rparr>, tr\<lparr>dd_order := dd_order tr @ [(s, dt_key t)]\<rparr>)
      | Done r \<Rightarrow> (t, tr))"

fun dd_interleave ::
  "nanos \<Rightarrow> bool list \<Rightarrow> dd_task \<times> dd_task \<times> request_tracker \<Rightarrow> dd_task \<times> dd_task \<times> request_tracker" where
  "dd_interleave now' [] (a, b, tr) = (a, b, tr)"
| "dd_interleave now' (first # sched) (a, b, tr) =
     (if first then (let (a', tr') = dd_step now' (a, tr) in dd_interleave now' sched (a', b, tr'))
      else (let (b', tr') = dd_step now' (b, tr) in dd_interleave now' sched (a, b', tr')))"

lemma dd_steps_alone:
  "(dd_step now' ^^ 6) (dd_start now key, tr) =
     ((dd_start now key)\<lparr>dt_pc := Done (fst (check_and_mark now now' key tr))\<rparr>,
      snd (check_and_mark now now' key tr))"
  by (simp add: eval_nat_numeral dd_start_def check_and_mark_def mark_new_def Let_def
      split: option.splits)

text \<open>C36: (lookup and marking are not atomic) A task that is not interrupted computes
\<open>check_and_mark\<close> in six steps; but for every identifier, instant and tracker that does not
hold it there is an interleaving of two requests with that same identifier in which both are
admitted, although one after the other the second is refused.\<close>
theorem dedup_lookup_mark_race:
  assumes "tracker_get key tr = None" "0 < dd_ttl tr"
  shows "(dd_step now' ^^ 6) (dd_start now key, tr) =
      ((dd_start now key)\<lparr>dt_pc := Done (fst (check_and_mark now now' key tr))\<rparr>,
       snd (check_and_mark now now' key tr))
    \<and> fst (check_and_mark now now' key (snd (check_and_mark now now' key tr)))
    \<and> (\<exists>sched. let (a, b, tr') = dd_interleave now' sched (dd_start now key, dd_start now key, tr)
        in dt_pc a = Done False \<and> dt_pc b = Done False)"
proof -
  have "fst (check_and_mark now now' key (snd (check_and_mark now now' key tr)))"
    using assms by (simp add: check_and_mark_def mark_new_def tracker_get_def update_conv Let_def)
  moreover have "let (a, b, tr') = dd_interleave now'
        [True, False, True, True, True, True, False, False, False, False]
        (dd_start now key, dd_start now key, tr)
      in dt_pc a = Done False \<and> dt_pc b = Done False"
    using assms by (simp add: dd_start_def)
  ultimately show ?thesis using dd_steps_alone by blast
qed

theorem dedup_lookup_mark_race_witness:
  "\<exists>sched. let (a, b, tr') = dd_interleave 5 sched
      (dd_start 5 ''req-1'', dd_start 5 ''req-1'', tracker_new 60 100)
    in dt_pc a = Done False \<and> dt_pc b = Done False"
  using dedup_lookup_mark_race [of "''req-1''" "tracker_new 60 100" 5 5]
  by (simp add: tracker_new_def tracker_get_def)

section \<open>The order index grows\<close>

fun expiring_run :: "nat \<Rightarrow> string \<Rightarrow> request_tracker \<Rightarrow> request_tracker" where
  "expiring_run 0 key tr = tr"
| "expiring_run (Suc i) key tr =
     (let tr' = expiring_run i key tr; now = i * dd_ttl tr
      in cleanup_expired (now + dd_ttl tr) (snd (check_and_mark now now key tr')))"

text \<open>Below capacity nothing ever shortens the insertion-order index: after any
number \<open>i\<close> of requests, even all with one identifier and each followed by the periodic
cleanup of expired entries, the tracker is empty and the index still has \<open>i\<close> records.\<close>
theorem dedup_order_unbounded:
  assumes "0 < n" "0 < ttl"
  shows "tracker (expiring_run i key (tracker_new ttl n)) = []
    \<and> length (dd_order (expiring_run i key (tracker_new ttl n))) = i"
proof -
  have "tracker (expiring_run i key (tracker_new ttl n)) = []
    \<and> length (dd_order (expiring_run i key (tracker_new ttl n))) = i
    \<and> dd_ttl (expiring_run i key (tracker_new ttl n)) = ttl
    \<and> dd_max (expiring_run i key (tracker_new ttl n)) = n"
    using assms
    by (induction i) (auto simp: tracker_new_def check_and_mark_def tracker_get_def mark_new_def
        make_room_def cleanup_expired_def Let_def)
  then show ?thesis by blast
qed

theorem dedup_order_unbounded_witness:
  "length (dd_order (expiring_run 1000000 ''k'' (tracker_new 60 10000))) = 1000000"
  using dedup_order_unbounded [of 10000 60 1000000 "''k''"] by simp

section \<open>The service\<close>

definition duplicate_response :: response where
  "duplicate_response =
     \<lparr>rs_status = 409, rs_headers = [(''x-duplicate-request'', ''true'')],
      rs_body = TextBody ''Duplicate request detected''\<rparr>"

record dedup_layer =
  dl_tracker :: request_tracker
  dl_header_name :: string

definition dedup_layer_new :: "nanos \<Rightarrow> nat \<Rightarrow> string \<Rightarrow> dedup_layer" where
  "dedup_layer_new ttl n header = \<lparr>dl_tracker = tracker_new ttl n, dl_header_name = header\<rparr>"

definition dedup_layer_tracker :: "dedup_layer \<Rightarrow> request_tracker" where
  "dedup_layer_tracker l = dl_tracker l"

text \<open>\<open>Layer::layer\<close>: the service shares the tracker with its layer, and waits for the inner service only.\<close>

record 'v dedup_service =
  ds_inner :: 'v
  ds_layer :: dedup_layer

definition dedup_layer_layer :: "dedup_layer \<Rightarrow> 'v \<Rightarrow> 'v dedup_service" where
  "dedup_layer_layer l inner = \<lparr>ds_inner = inner, ds_layer = l\<rparr>"

definition dedup_poll_ready :: "('v \<Rightarrow> 'p) \<Rightarrow> 'v dedup_service \<Rightarrow> 'p" where
  "dedup_poll_ready poll_ready s = poll_ready (ds_inner s)"

text \<open>\<open>DeduplicationService::call\<close>.\<close>

definition dedup_call ::
  "nanos \<Rightarrow> nanos \<Rightarrow> (string \<Rightarrow> header_value) \<Rightarrow> 'q \<Rightarrow> dedup_layer \<Rightarrow> 'q decision \<times> dedup_layer" where
  "dedup_call now now' header req l =
     (case to_str_ok (header (dl_header_name l)) of
        None \<Rightarrow> (Next req, l)
      | Some request_id \<Rightarrow>
          (let (dup, tr) = check_and_mark now now' request_id (dl_tracker l)
           in (if dup then Reply duplicate_response else Next req, l\<lparr>dl_tracker := tr\<rparr>)))"

text \<open>\<open>cleanup_task\<close> runs for ever; this is its effect after the given ticks.\<close>

definition cleanup_task :: "nanos list \<Rightarrow> request_tracker \<Rightarrow> request_tracker" where
  "cleanup_task ticks tr = fold cleanup_expired ticks tr"

end
