(* ===== verification/Config.thy ===== *)
theory Config
  imports Errors Utils Net Dedup Circuit_Breaker
begin

text \<open>
  The configuration, \<open>src/config/\<close>: the settings of every part, their defaults, the
  builder methods, loading, and validation.  Log output (the warnings of \<open>validate\<close>) is
  not modelled.  A number of bytes is a \<^typ>\<open>u64\<close>, an \<open>f64\<close> its bit pattern, HTTP
  methods and header names are their texts.
\<close>

section \<open>Middleware selection\<close>

datatype http_middleware =
    Oidc | BasicAuth | ProxyOidc | RequestDeduplication | RateLimiting | ConcurrencyLimit
  | MaxPayloadSize | Compression | PathNormalization | SensitiveHeaders | RequestId
  | ApiVersioning | Cors | SecurityHeaders | Logging | Metrics | Liveness | Readiness | Timeout
  | CatchPanic | Session | OpenTelemetry

datatype http_middleware_config = Include "http_middleware list" | Exclude "http_middleware list"

fun mw_is_enabled :: "http_middleware_config \<Rightarrow> http_middleware \<Rightarrow> bool" where
  "mw_is_enabled (Include xs) m = (m \<in> set xs)"
| "mw_is_enabled (Exclude xs) m = (m \<notin> set xs)"

definition mw_validate :: "http_middleware_config \<Rightarrow> error + unit" where
  "mw_validate c = all_ok
     [reject_if (mw_is_enabled c RequestDeduplication \<and> \<not> mw_is_enabled c RequestId)
        (invalid_input_error ''RequestDeduplication requires RequestId. Remove 'request-id' from Exclude list or add both to Include list.''),
      reject_if (mw_is_enabled c Oidc \<and> \<not> mw_is_enabled c Session)
        (invalid_input_error ''Oidc requires Session middleware. Remove 'session' from Exclude list or add both to Include list.'')]"

section \<open>Response headers and cookies\<close>

datatype x_frame_options = Deny | SameOrigin | AllowFrom string

fun x_frame_display :: "x_frame_options \<Rightarrow> string" where
  "x_frame_display Deny = ''DENY''"
| "x_frame_display SameOrigin = ''SAMEORIGIN''"
| "x_frame_display (AllowFrom url) = ''ALLOW-FROM '' @ url"

text \<open>
  \<open>str::to_uppercase\<close> as far as comparing with ASCII words can tell: besides the ASCII
  letters, the long s and the dotless i have ASCII capitals.
\<close>

fun to_uppercase :: "string \<Rightarrow> string" where
  "to_uppercase [] = []"
| "to_uppercase [c] = [to_ascii_upper c]"
| "to_uppercase (c # d # s) =
     (if c = CHR 0xC5 \<and> d = CHR 0xBF then CHR ''S'' # to_uppercase s
      else if c = CHR 0xC4 \<and> d = CHR 0xB1 then CHR ''I'' # to_uppercase s
      else to_ascii_upper c # to_uppercase (d # s))"

definition x_frame_deserialize :: "string \<Rightarrow> x_frame_options" where
  "x_frame_deserialize s =
     (if to_uppercase s = ''DENY'' then Deny
      else if to_uppercase s = ''SAMEORIGIN'' then SameOrigin
      else AllowFrom s)"

definition x_frame_deny :: x_frame_options where
  "x_frame_deny = Deny"

definition x_frame_same_origin :: x_frame_options where
  "x_frame_same_origin = SameOrigin"

definition x_frame_allow_from :: "string \<Rightarrow> x_frame_options" where
  "x_frame_allow_from url = AllowFrom url"

definition x_frame_default :: x_frame_options where
  "x_frame_default = SameOrigin"

datatype same_site = Strict | Lax | SameSiteNone

datatype session_store_config = Memory | Postgres | Redis string

fun store_is_external :: "session_store_config \<Rightarrow> bool" where
  "store_is_external Memory = False"
| "store_is_external Postgres = True"
| "store_is_external (Redis url) = True"

section \<open>Static directories\<close>

datatype static_dir_route = Route string | Fallback bool

record static_dir_config =
  sd_directory :: string
  sd_route :: static_dir_route
  sd_protected :: bool
  sd_cache_max_age :: "u64 option"

definition max_cache_age_seconds :: u64 where
  "max_cache_age_seconds = 31536000"

definition is_fallback :: "static_dir_config \<Rightarrow> bool" where
  "is_fallback d = (case sd_route d of Fallback b \<Rightarrow> True | Route r \<Rightarrow> False)"

definition static_dir_validate :: "static_dir_config \<Rightarrow> error + unit" where
  "static_dir_validate d = all_ok
     [reject_if (trim (sd_directory d) = [])
        (invalid_input_error ''Static directory path is required. Set [[http.directories]] directory = \"./public\" in config.''),
      (case sd_route d of
         Route r \<Rightarrow> reject_if (trim r = [])
           (invalid_input_error ''Static directory route is required. Set route = \"/static\" or use fallback = true.'')
       | Fallback b \<Rightarrow> Inr ()),
      reject_if (is_fallback d \<and> sd_protected d)
        (invalid_input_error ''Fallback directories cannot be protected. Remove protected = true or use route = \"/path\" instead.''),
      when_some (\<lambda>age. reject_if (age > max_cache_age_seconds)
        (invalid_input_error ''cache_max_age exceeds 31536000 (1 year). Use values like 86400 (1 day) or 604800 (1 week).''))
        (sd_cache_max_age d)]"

section \<open>Authentication settings\<close>

record proxy_oidc_config =
  po_user_header :: string
  po_email_header :: string
  po_groups_header :: string
  po_preferred_username_header :: string
  po_access_token_header :: string
  po_roles_header :: string
  po_trusted_proxies :: "string list"
  po_shared_secret :: "string sensitive option"
  po_shared_secret_header :: string

definition proxy_oidc_default :: proxy_oidc_config where
  "proxy_oidc_default =
     \<lparr>po_user_header = ''X-Auth-Request-User'', po_email_header = ''X-Auth-Request-Email'',
      po_groups_header = ''X-Auth-Request-Groups'',
      po_preferred_username_header = ''X-Auth-Request-Preferred-Username'',
      po_access_token_header = ''X-Auth-Request-Access-Token'',
      po_roles_header = ''X-Auth-Request-Roles'', po_trusted_proxies = [],
      po_shared_secret = None, po_shared_secret_header = ''X-Proxy-Secret''\<rparr>"

definition effective_shared_secret :: "proxy_oidc_config \<Rightarrow> string option" where
  "effective_shared_secret c =
     (case po_shared_secret c of
        None \<Rightarrow> None
      | Some s \<Rightarrow> let t = trim (expose_secret s) in if t = [] then None else Some t)"

definition has_trust_anchor :: "proxy_oidc_config \<Rightarrow> bool" where
  "has_trust_anchor c = (po_trusted_proxies c \<noteq> [] \<or> effective_shared_secret c \<noteq> None)"

record oidc_config =
  oc_issuer_url :: string
  oc_realm :: string
  oc_audiences :: "string list"
  oc_jwks_url :: "string option"
  oc_client_id :: string
  oc_client_secret :: "string sensitive"
  oc_redirect_uri :: "string option"
  oc_scopes :: "string list"
  oc_post_login_redirect :: string
  oc_post_logout_redirect :: string
  oc_login_route :: string
  oc_callback_route :: string
  oc_logout_route :: string
  oc_auto_redirect_to_login :: bool
  oc_roles_claim :: string

text \<open>The values of an \<open>[http.oidc]\<close> table that sets only the required fields.\<close>

definition oidc_defaults :: "string \<Rightarrow> string sensitive \<Rightarrow> oidc_config" where
  "oidc_defaults client_id client_secret =
     \<lparr>oc_issuer_url = [], oc_realm = [], oc_audiences = [], oc_jwks_url = None,
      oc_client_id = client_id, oc_client_secret = client_secret, oc_redirect_uri = None,
      oc_scopes = [''openid''], oc_post_login_redirect = ''/'', oc_post_logout_redirect = ''/'',
      oc_login_route = ''/auth/login'', oc_callback_route = ''/auth/callback'',
      oc_logout_route = ''/auth/logout'', oc_auto_redirect_to_login = False,
      oc_roles_claim = ''applicationRoles''\<rparr>"

definition auth_code_flow_enabled :: "oidc_config \<Rightarrow> bool" where
  "auth_code_flow_enabled c = (oc_redirect_uri c \<noteq> None)"

definition trim_end_matches :: "char \<Rightarrow> string \<Rightarrow> string" where
  "trim_end_matches c s = rev (dropWhile (\<lambda>d. d = c) (rev s))"

definition oidc_issuer :: "oidc_config \<Rightarrow> string" where
  "oidc_issuer c =
     (let base = trim_end_matches CHR ''/'' (oc_issuer_url c)
      in if trim (oc_realm c) = [] then base else base @ ''/realms/'' @ oc_realm c)"

definition has_http_scheme :: "string \<Rightarrow> bool" where
  "has_http_scheme s = (starts_with s ''http://'' \<or> starts_with s ''https://'')"

definition oidc_validate :: "oidc_config \<Rightarrow> error + unit" where
  "oidc_validate c = all_ok
     [reject_if (trim (oc_issuer_url c) = [])
        (invalid_input_error ''OIDC issuer_url is required. Set [http.oidc] issuer_url = \"https://your-keycloak-server\" in config.''),
      reject_if (\<not> has_http_scheme (oc_issuer_url c))
        (invalid_input_error ''OIDC issuer_url must start with http:// or https://. Example: \"https://keycloak.example.com\"''),
      reject_if (trim (oc_client_id c) = [])
        (invalid_input_error ''OIDC client_id is required. Set [http.oidc] client_id = \"your-client-id\" in config.''),
      reject_if (expose_secret (oc_client_secret c) = [])
        (invalid_input_error ''OIDC client_secret is required. Set [http.oidc] client_secret = \"{{ OIDC_CLIENT_SECRET }}\" to use env var.''),
      when_some (\<lambda>u. reject_if (\<not> has_http_scheme u)
        (invalid_input_error ''OIDC redirect_uri must start with http:// or https://.'')) (oc_redirect_uri c),
      when_some (\<lambda>u. reject_if (\<not> has_http_scheme u)
        (invalid_input_error ''OIDC jwks_url must start with http:// or https://.'')) (oc_jwks_url c)]"

datatype basic_auth_mode = BasicMode | ApiKeyMode | EitherMode

record basic_auth_user =
  bu_username :: string
  bu_password :: "string sensitive"
  bu_email :: "string option"
  bu_groups :: "string list"
  bu_roles :: "string list"
  bu_preferred_username :: "string option"

record basic_auth_api_key =
  bk_key :: "string sensitive"
  bk_name :: "string option"
  bk_email :: "string option"
  bk_groups :: "string list"
  bk_roles :: "string list"
  bk_preferred_username :: "string option"

record basic_auth_config =
  ba_mode :: basic_auth_mode
  ba_api_key_header :: string
  ba_users :: "basic_auth_user list"
  ba_api_keys :: "basic_auth_api_key list"

definition basic_auth_default :: basic_auth_config where
  "basic_auth_default =
     \<lparr>ba_mode = EitherMode, ba_api_key_header = ''X-API-Key'', ba_users = [], ba_api_keys = []\<rparr>"

definition basic_auth_validate :: "basic_auth_config \<Rightarrow> error + unit" where
  "basic_auth_validate c = all_ok
     [(case ba_mode c of
         BasicMode \<Rightarrow> reject_if (ba_users c = [])
           (invalid_input_error ''Basic auth mode 'basic' requires at least one user. Add [[http.basic_auth.users]] to config.'')
       | ApiKeyMode \<Rightarrow> reject_if (ba_api_keys c = [])
           (invalid_input_error ''Basic auth mode 'api_key' requires at least one API key. Add [[http.basic_auth.api_keys]] to config.'')
       | EitherMode \<Rightarrow> reject_if (ba_users c = [] \<and> ba_api_keys c = [])
           (invalid_input_error ''Basic auth requires at least one user or API key. Add credentials to config.'')),
      for_each (\<lambda>u. all_ok
        [reject_if (trim (bu_username u) = [])
           (invalid_input_error ''Basic auth username cannot be empty.''),
         reject_if (expose_secret (bu_password u) = [])
           (invalid_input_error ''Basic auth password cannot be empty. Use {{ ENV_VAR }} for secrets.'')])
        (ba_users c),
      for_each (\<lambda>k. reject_if (expose_secret (bk_key k) = [])
        (invalid_input_error ''API key cannot be empty. Use {{ ENV_VAR }} for secrets.'')) (ba_api_keys c),
      reject_if (trim (ba_api_key_header c) = [])
        (invalid_input_error ''API key header name cannot be empty.'')]"

section \<open>CORS and metrics settings\<close>

record cors_config =
  co_allow_credentials :: "bool option"
  co_allowed_origins :: "string list option"
  co_allowed_methods :: "string list option"
  co_allowed_headers :: "string list option"
  co_exposed_headers :: "string list option"
  co_max_age :: "nanos option"

definition cors_with_allow_credentials :: "cors_config \<Rightarrow> cors_config" where
  "cors_with_allow_credentials c = c\<lparr>co_allow_credentials := Some True\<rparr>"

definition cors_with_allowed_origins :: "string list \<Rightarrow> cors_config \<Rightarrow> cors_config" where
  "cors_with_allowed_origins xs c = c\<lparr>co_allowed_origins := Some xs\<rparr>"

definition cors_with_allowed_methods :: "string list \<Rightarrow> cors_config \<Rightarrow> cors_config" where
  "cors_with_allowed_methods xs c = c\<lparr>co_allowed_methods := Some xs\<rparr>"

definition cors_with_allowed_headers :: "string list \<Rightarrow> cors_config \<Rightarrow> cors_config" where
  "cors_with_allowed_headers xs c = c\<lparr>co_allowed_headers := Some xs\<rparr>"

definition cors_with_exposed_headers :: "string list \<Rightarrow> cors_config \<Rightarrow> cors_config" where
  "cors_with_exposed_headers xs c = c\<lparr>co_exposed_headers := Some xs\<rparr>"

definition cors_with_max_age :: "nanos \<Rightarrow> cors_config \<Rightarrow> cors_config" where
  "cors_with_max_age d c = c\<lparr>co_max_age := Some d\<rparr>"

text \<open>
  \<open>method_from_str\<close> and \<open>name_from_str\<close> are the parsers of the \<open>http\<close> crate; a method or header
  name is kept as the text they return.
\<close>

definition cors_method_deserialize :: "(string \<Rightarrow> string + string) \<Rightarrow> string \<Rightarrow> string + string" where
  "cors_method_deserialize method_from_str s = method_from_str s"

definition cors_header_deserialize :: "(string \<Rightarrow> string + string) \<Rightarrow> string \<Rightarrow> string + string" where
  "cors_header_deserialize name_from_str s = name_from_str s"

type_synonym f64 = "64 word"

datatype metric_match = FullMatch | PrefixMatch | SuffixMatch

record metric_buckets_config =
  mb_metric :: string
  mb_match :: metric_match
  mb_buckets :: "f64 list"

text \<open>
  The warnings that validation logs about the buckets; \<open>le\<close> is the comparison of \<open>f64\<close> values.
\<close>

datatype bucket_warning = EmptyBuckets string | BucketsNotAscending string

fun some_window :: "('b \<Rightarrow> 'b \<Rightarrow> bool) \<Rightarrow> 'b list \<Rightarrow> bool" where
  "some_window P (x # y # xs) = (P x y \<or> some_window P (y # xs))"
| "some_window P _ = False"

definition bucket_warnings :: "(f64 \<Rightarrow> f64 \<Rightarrow> bool) \<Rightarrow> metric_buckets_config list \<Rightarrow> bucket_warning list" where
  "bucket_warnings le entries = List.map_filter (\<lambda>entry.
     if mb_buckets entry = [] then Some (EmptyBuckets (mb_metric entry))
     else if some_window (\<lambda>x y. le y x) (mb_buckets entry) then Some (BucketsNotAscending (mb_metric entry))
     else None) entries"

lemma some_window_iff:
  "some_window P xs \<longleftrightarrow> (\<exists>i. Suc i < length xs \<and> P (xs ! i) (xs ! Suc i))"
proof (induction P xs rule: some_window.induct)
  case (1 P x y xs)
  show ?case
  proof
    assume "some_window P (x # y # xs)"
    then show "\<exists>i. Suc i < length (x # y # xs) \<and> P ((x # y # xs) ! i) ((x # y # xs) ! Suc i)"
      using 1 by (cases "P x y") (force intro: exI [of _ 0], fastforce intro: exI [of _ "Suc _"])
  next
    assume "\<exists>i. Suc i < length (x # y # xs) \<and> P ((x # y # xs) ! i) ((x # y # xs) ! Suc i)"
    then obtain i where "Suc i < length (x # y # xs)" "P ((x # y # xs) ! i) ((x # y # xs) ! Suc i)" by blast
    then show "some_window P (x # y # xs)" using 1 by (cases i) auto
  qed
qed auto

section \<open>The HTTP section\<close>

record http_config =
  hc_bind_addr :: string
  hc_bind_port :: u16
  hc_max_concurrent_requests :: u32
  hc_max_requests_per_sec :: u32
  hc_request_timeout :: "nanos option"
  hc_max_payload_size_bytes :: u64
  hc_support_compression :: bool
  hc_with_metrics :: bool
  hc_trim_trailing_slash :: bool
  hc_liveness_route :: string
  hc_readiness_route :: string
  hc_metrics_route :: string
  hc_x_content_type_nosniff :: bool
  hc_x_frame_options :: x_frame_options
  hc_hsts_max_age :: "u64 option"
  hc_hsts_include_subdomains :: bool
  hc_content_security_policy :: "string option"
  hc_directories :: "static_dir_config list"
  hc_session_secure_cookie :: bool
  hc_session_same_site :: same_site
  hc_session_store :: session_store_config
  hc_session_signing_key :: "string sensitive option"
  hc_oidc :: "oidc_config option"
  hc_basic_auth :: "basic_auth_config option"
  hc_proxy_oidc :: "proxy_oidc_config option"
  hc_cors :: "cors_config option"
  hc_metrics_buckets :: "metric_buckets_config list"
  hc_metrics_global_labels :: "(string \<times> string) list"
  hc_metrics_idle_timeout :: "nanos option"
  hc_metrics_upkeep_timeout :: "nanos option"
  hc_default_api_version :: u32
  hc_deduplication :: "dedup_config option"
  hc_shutdown_timeout :: nanos
  hc_middleware :: "http_middleware_config option"

text \<open>The functions that give the fields their defaults.\<close>

abbreviation (input) default_bind_addr :: string where
  "default_bind_addr \<equiv> ''0.0.0.0''"

abbreviation (input) default_bind_port :: u16 where
  "default_bind_port \<equiv> 3000"

abbreviation (input) default_max_concurrent_requests :: u32 where
  "default_max_concurrent_requests \<equiv> 4096"

abbreviation (input) default_max_requests_per_sec :: u32 where
  "default_max_requests_per_sec \<equiv> 100"

abbreviation (input) default_request_timeout :: "nanos option" where
  "default_request_timeout \<equiv> Some (secs 60)"

abbreviation (input) default_max_payload_size_bytes :: u64 where
  "default_max_payload_size_bytes \<equiv> 32 * 1024"

abbreviation (input) default_trim_trailing_slash :: bool where
  "default_trim_trailing_slash \<equiv> True"

abbreviation (input) default_with_metrics :: bool where
  "default_with_metrics \<equiv> True"

abbreviation (input) default_liveness_route :: string where
  "default_liveness_route \<equiv> ''/live''"

abbreviation (input) default_readiness_route :: string where
  "default_readiness_route \<equiv> ''/ready''"

abbreviation (input) default_metrics_route :: string where
  "default_metrics_route \<equiv> ''/metrics''"

abbreviation (input) default_x_content_type_nosniff :: bool where
  "default_x_content_type_nosniff \<equiv> True"

abbreviation (input) default_true :: bool where
  "default_true \<equiv> True"

abbreviation (input) default_x_frame_options :: x_frame_options where
  "default_x_frame_options \<equiv> Deny"

abbreviation (input) default_api_version :: u32 where
  "default_api_version \<equiv> 1"

abbreviation (input) default_shutdown_timeout :: nanos where
  "default_shutdown_timeout \<equiv> secs 30"

abbreviation (input) default_session_secure_cookie :: bool where
  "default_session_secure_cookie \<equiv> True"

definition http_default :: http_config where
  "http_default =
     \<lparr>hc_bind_addr = default_bind_addr, hc_bind_port = default_bind_port,
      hc_max_concurrent_requests = default_max_concurrent_requests,
      hc_max_requests_per_sec = default_max_requests_per_sec, hc_request_timeout = default_request_timeout,
      hc_max_payload_size_bytes = default_max_payload_size_bytes, hc_support_compression = False,
      hc_with_metrics = default_with_metrics, hc_trim_trailing_slash = default_trim_trailing_slash,
      hc_liveness_route = default_liveness_route, hc_readiness_route = default_readiness_route,
      hc_metrics_route = default_metrics_route, hc_x_content_type_nosniff = default_x_content_type_nosniff,
      hc_x_frame_options = default_x_frame_options, hc_hsts_max_age = None,
      hc_hsts_include_subdomains = default_true, hc_content_security_policy = None,
      hc_directories = [], hc_session_secure_cookie = default_session_secure_cookie,
      hc_session_same_site = Strict, hc_session_store = Memory, hc_session_signing_key = None,
      hc_oidc = None, hc_basic_auth = None, hc_proxy_oidc = None, hc_cors = None,
      hc_metrics_buckets = [], hc_metrics_global_labels = [], hc_metrics_idle_timeout = None,
      hc_metrics_upkeep_timeout = None, hc_default_api_version = default_api_version,
      hc_deduplication = None, hc_shutdown_timeout = default_shutdown_timeout, hc_middleware = None\<rparr>"

definition full_bind_addr :: "http_config \<Rightarrow> string" where
  "full_bind_addr h = hc_bind_addr h @ '':'' @ show_nat (unat (hc_bind_port h))"

definition bind_addr_is_loopback :: "http_config \<Rightarrow> bool" where
  "bind_addr_is_loopback h =
     (case parse_ip (hc_bind_addr h) of Some ip \<Rightarrow> is_loopback ip | None \<Rightarrow> False)"

definition fallback_count :: "static_dir_config list \<Rightarrow> nat" where
  "fallback_count ds = length (filter is_fallback ds)"

definition empty_proxy_secret :: "proxy_oidc_config \<Rightarrow> bool" where
  "empty_proxy_secret p =
     (case po_shared_secret p of Some s \<Rightarrow> trim (expose_secret s) = [] | None \<Rightarrow> False)"

definition signing_key_validate :: "http_config \<Rightarrow> error + unit" where
  "signing_key_validate h =
     (if store_is_external (hc_session_store h)
      then (case hc_session_signing_key h of
              None \<Rightarrow> Inl (config_error ''session_store is external (postgres/redis) but no session_signing_key is configured. Set [http] session_signing_key (>= 32 bytes, stable across replicas) so session records can be HMAC-tagged against tampering.'')
            | Some key \<Rightarrow> reject_if (length (expose_secret key) < 32)
                (config_error ''session_signing_key is too short; it must be at least 32 bytes.''))
      else Inr ())"

definition http_validate :: "http_config \<Rightarrow> error + unit" where
  "http_validate h = all_ok
     [reject_if (trim (hc_bind_addr h) = [])
        (invalid_input_error ''HTTP bind_addr is required. Set [http] bind_addr = \"0.0.0.0\" or \"127.0.0.1\" in config.''),
      reject_if (parse_ip (hc_bind_addr h) = None)
        (invalid_input_error ''HTTP bind_addr must be a valid IP address. Examples: \"127.0.0.1\", \"0.0.0.0\", \"::1\"''),
      reject_if (hc_max_concurrent_requests h = 0)
        (invalid_input_error ''HTTP max_concurrent_requests must be > 0. Set [http] max_concurrent_requests = 4096 in config.''),
      when_some oidc_validate (hc_oidc h),
      when_some basic_auth_validate (hc_basic_auth h),
      (case (hc_basic_auth h, hc_oidc h) of
         (Some b, Some o') \<Rightarrow> reject_if (\<not> auth_code_flow_enabled o')
           (invalid_input_error ''Cannot configure both [http.basic_auth] and [http.oidc] in bearer-only mode. Either enable auth code flow by setting redirect_uri, or choose one authentication method.'')
       | _ \<Rightarrow> Inr ()),
      reject_if (hc_basic_auth h \<noteq> None \<and> hc_proxy_oidc h \<noteq> None)
        (invalid_input_error ''Cannot configure both [http.basic_auth] and [http.proxy_oidc]. Choose one authentication method.''),
      reject_if (hc_oidc h \<noteq> None \<and> hc_proxy_oidc h \<noteq> None)
        (invalid_input_error ''Cannot configure both [http.oidc] and [http.proxy_oidc]. Choose one authentication method.''),
      for_each static_dir_validate (hc_directories h),
      reject_if (fallback_count (hc_directories h) > 1)
        (invalid_input_error ''Only one static directory can be configured as fallback''),
      when_some mw_validate (hc_middleware h),
      when_some (\<lambda>p. reject_if (empty_proxy_secret p)
        (config_error ''[http.proxy_oidc] shared_secret is configured but empty (e.g. an unset environment variable). Remove it or provide a non-empty secret.''))
        (hc_proxy_oidc h),
      signing_key_validate h]"

section \<open>Logging and database\<close>

datatype log_format = JsonFormat | DefaultFormat | CompactFormat | PrettyFormat

record otel_config =
  ot_endpoint :: string
  ot_service_name :: "string option"

definition otel_new :: "string \<Rightarrow> otel_config" where
  "otel_new endpoint = \<lparr>ot_endpoint = endpoint, ot_service_name = Some ''axum-conf''\<rparr>"

definition otel_with_service_name :: "string \<Rightarrow> otel_config \<Rightarrow> otel_config" where
  "otel_with_service_name name c = c\<lparr>ot_service_name := Some name\<rparr>"

record logging_config =
  lc_format :: log_format
  lc_opentelemetry :: "otel_config option"

definition logging_default :: logging_config where
  "logging_default = \<lparr>lc_format = DefaultFormat, lc_opentelemetry = None\<rparr>"

definition logging_validate :: "logging_config \<Rightarrow> error + unit" where
  "logging_validate c = Inr ()"

record database_config =
  dc_url :: string
  dc_min_pool_size :: u8
  dc_max_pool_size :: u8
  dc_max_idle_time :: "nanos option"

definition database_default_url :: "(string \<Rightarrow> string option) \<Rightarrow> string" where
  "database_default_url env =
     (case env ''DATABASE_URL'' of Some u \<Rightarrow> u | None \<Rightarrow> ''postgres://localhost:5432/test'')"

definition default_min_pool_size :: u8 where
  "default_min_pool_size = 1"

definition default_max_pool_size :: u8 where
  "default_max_pool_size = 2"

definition database_default :: "(string \<Rightarrow> string option) \<Rightarrow> database_config" where
  "database_default env =
     \<lparr>dc_url = database_default_url env, dc_min_pool_size = default_min_pool_size, dc_max_pool_size = default_max_pool_size,
      dc_max_idle_time = None\<rparr>"

definition database_validate :: "database_config \<Rightarrow> error + unit" where
  "database_validate c = all_ok
     [reject_if (trim (dc_url c) = [])
        (database_config_error ''URL is required. Set DATABASE_URL env var or [database] url in config.''),
      reject_if (\<not> starts_with (dc_url c) ''postgres://'' \<and> \<not> starts_with (dc_url c) ''postgresql://'')
        (database_config_error ''URL must start with postgres:// or postgresql://''),
      reject_if (dc_max_pool_size c = 0) (database_config_error ''max_pool_size must be > 0'')]"

section \<open>The whole configuration\<close>

record 'a config =
  cf_http :: http_config
  cf_database :: database_config
  cf_logging :: logging_config
  cf_circuit_breakers :: "(string \<times> cb_target_config) list"
  cf_app :: 'a
  cf_is_production :: bool

text \<open>
  The connection pool; \<open>parse\<close> is \<open>PgConnectOptions::from_str\<close>, and the pool connects lazily, so
  nothing else can fail.
\<close>

record 'o pgpool =
  pp_min_connections :: u32
  pp_max_connections :: u32
  pp_idle_timeout :: "nanos option"
  pp_connect_options :: 'o
  pp_application_name :: string
  pp_ssl_prefer :: bool

definition create_pgpool :: "(string \<Rightarrow> string + 'o) \<Rightarrow> 'a config \<Rightarrow> error + 'o pgpool" where
  "create_pgpool parse c =
     (let d = cf_database c
      in and_then (map_err (\<lambda>m. error_from (SqlxError m)) (parse (dc_url d))) (\<lambda>options. Inr
           \<lparr>pp_min_connections = ucast (dc_min_pool_size d),
            pp_max_connections = ucast (dc_max_pool_size d),
            pp_idle_timeout = dc_max_idle_time d, pp_connect_options = options,
            pp_application_name = ''axum-conf'', pp_ssl_prefer = True\<rparr>))"

definition default_is_production :: bool where
  "default_is_production = True"

text \<open>\<open>str::to_lowercase\<close>: no other letter has an ASCII letter of these words as lower case.\<close>

definition is_production_env :: "string \<Rightarrow> bool" where
  "is_production_env rust_env =
     (let env = map to_ascii_lower (trim rust_env)
      in env = [] \<or> env = ''prod'' \<or> env = ''production'' \<or> env = ''release'')"

definition config_validate :: "'a config \<Rightarrow> error + unit" where
  "config_validate c = all_ok
     [database_validate (cf_database c), http_validate (cf_http c), logging_validate (cf_logging c)]"

subsection \<open>Loading\<close>

text \<open>
  \<open>toml\<close> is \<open>toml::from_str\<close> (its error by display text), which knows nothing of the
  production flag: that field is skipped and takes its default.  \<open>read\<close> is
  \<open>fs::read_to_string\<close>, and \<open>env\<close> is \<open>env::var(..).ok()\<close>.
\<close>

definition config_from_str ::
  "(string \<Rightarrow> string option) \<Rightarrow> (string \<Rightarrow> string + 'a config) \<Rightarrow> string \<Rightarrow> error + 'a config" where
  "config_from_str env toml s =
     and_then (map_err (\<lambda>m. error_from (TomlError m)) (toml (replace_handlebars_with_env env s)))
       (\<lambda>c. Inr (c\<lparr>cf_is_production := default_is_production\<rparr>))"

definition config_from_toml ::
  "(string \<Rightarrow> string option) \<Rightarrow> (string \<Rightarrow> string + 'a config) \<Rightarrow> string \<Rightarrow> error + 'a config" where
  "config_from_toml env toml s = config_from_str env toml (replace_handlebars_with_env env s)"

definition config_from_toml_file ::
  "(string \<Rightarrow> string option) \<Rightarrow> (string \<Rightarrow> string + 'a config) \<Rightarrow> (string \<Rightarrow> string + string)
    \<Rightarrow> string \<Rightarrow> error + 'a config" where
  "config_from_toml_file env toml read name =
     and_then (map_err (\<lambda>m. error_from (IoError m)) (read (''config/'' @ name @ ''.toml'')))
       (\<lambda>text. and_then (config_from_toml env toml text)
         (\<lambda>c. Inr (c\<lparr>cf_is_production := is_production_env name\<rparr>)))"

definition config_from_rust_env ::
  "(string \<Rightarrow> string option) \<Rightarrow> (string \<Rightarrow> string + 'a config) \<Rightarrow> (string \<Rightarrow> string + string)
    \<Rightarrow> string + string \<Rightarrow> error + 'a config" where
  "config_from_rust_env env toml read rust_env =
     and_then (map_err (\<lambda>m. error_from (VarError m)) rust_env) (config_from_toml_file env toml read)"

definition config_default ::
  "(string \<Rightarrow> string option) \<Rightarrow> (string \<Rightarrow> string + 'a config) \<Rightarrow> (string \<Rightarrow> string + string)
    \<Rightarrow> string + string \<Rightarrow> 'a \<Rightarrow> 'a config" where
  "config_default env toml read rust_env app_default =
     (case config_from_rust_env env toml read rust_env of
        Inr c \<Rightarrow> c
      | Inl e \<Rightarrow>
          \<lparr>cf_http = http_default, cf_database = database_default env,
           cf_logging = logging_default, cf_circuit_breakers = [], cf_app = app_default,
           cf_is_production = default_is_production\<rparr>)"

subsection \<open>Builder methods\<close>

definition on_http :: "(http_config \<Rightarrow> http_config) \<Rightarrow> 'a config \<Rightarrow> 'a config" where
  "on_http f c = c\<lparr>cf_http := f (cf_http c)\<rparr>"

definition on_database :: "(database_config \<Rightarrow> database_config) \<Rightarrow> 'a config \<Rightarrow> 'a config" where
  "on_database f c = c\<lparr>cf_database := f (cf_database c)\<rparr>"

definition with_production :: "bool \<Rightarrow> 'a config \<Rightarrow> 'a config" where
  "with_production b c = c\<lparr>cf_is_production := b\<rparr>"

definition with_bind_addr :: "string \<Rightarrow> 'a config \<Rightarrow> 'a config" where
  "with_bind_addr x = on_http (hc_bind_addr_update (\<lambda>_. x))"

definition with_bind_port :: "u16 \<Rightarrow> 'a config \<Rightarrow> 'a config" where
  "with_bind_port x = on_http (hc_bind_port_update (\<lambda>_. x))"

definition with_max_concurrent_requests :: "u32 \<Rightarrow> 'a config \<Rightarrow> 'a config" where
  "with_max_concurrent_requests x = on_http (hc_max_concurrent_requests_update (\<lambda>_. x))"

definition with_request_timeout :: "nanos \<Rightarrow> 'a config \<Rightarrow> 'a config" where
  "with_request_timeout x = on_http (hc_request_timeout_update (\<lambda>_. Some x))"

definition with_x_frame_options :: "x_frame_options \<Rightarrow> 'a config \<Rightarrow> 'a config" where
  "with_x_frame_options x = on_http (hc_x_frame_options_update (\<lambda>_. x))"

definition with_x_content_type_nosniff :: "bool \<Rightarrow> 'a config \<Rightarrow> 'a config" where
  "with_x_content_type_nosniff x = on_http (hc_x_content_type_nosniff_update (\<lambda>_. x))"

definition with_max_payload_size_bytes :: "u64 \<Rightarrow> 'a config \<Rightarrow> 'a config" where
  "with_max_payload_size_bytes x = on_http (hc_max_payload_size_bytes_update (\<lambda>_. x))"

definition with_compression :: "bool \<Rightarrow> 'a config \<Rightarrow> 'a config" where
  "with_compression x = on_http (hc_support_compression_update (\<lambda>_. x))"

definition with_trim_trailing_slash :: "bool \<Rightarrow> 'a config \<Rightarrow> 'a config" where
  "with_trim_trailing_slash x = on_http (hc_trim_trailing_slash_update (\<lambda>_. x))"

definition with_liveness_route :: "string \<Rightarrow> 'a config \<Rightarrow> 'a config" where
  "with_liveness_route x = on_http (hc_liveness_route_update (\<lambda>_. x))"

definition with_readiness_route :: "string \<Rightarrow> 'a config \<Rightarrow> 'a config" where
  "with_readiness_route x = on_http (hc_readiness_route_update (\<lambda>_. x))"

definition with_metrics_route :: "string \<Rightarrow> 'a config \<Rightarrow> 'a config" where
  "with_metrics_route x = on_http (hc_metrics_route_update (\<lambda>_. x))"

definition with_metric_buckets_matched ::
  "string \<Rightarrow> metric_match \<Rightarrow> f64 list \<Rightarrow> 'a config \<Rightarrow> 'a config" where
  "with_metric_buckets_matched metric m bs = on_http (hc_metrics_buckets_update
     (\<lambda>xs. xs @ [\<lparr>mb_metric = metric, mb_match = m, mb_buckets = bs\<rparr>]))"

definition with_metric_buckets :: "string \<Rightarrow> f64 list \<Rightarrow> 'a config \<Rightarrow> 'a config" where
  "with_metric_buckets metric bs = on_http (hc_metrics_buckets_update
     (\<lambda>xs. xs @ [\<lparr>mb_metric = metric, mb_match = FullMatch, mb_buckets = bs\<rparr>]))"

definition with_metrics_global_label :: "string \<Rightarrow> string \<Rightarrow> 'a config \<Rightarrow> 'a config" where
  "with_metrics_global_label k v = on_http (hc_metrics_global_labels_update (AList.update k v))"

definition with_metrics_idle_timeout :: "nanos \<Rightarrow> 'a config \<Rightarrow> 'a config" where
  "with_metrics_idle_timeout x = on_http (hc_metrics_idle_timeout_update (\<lambda>_. Some x))"

definition with_metrics_upkeep_timeout :: "nanos \<Rightarrow> 'a config \<Rightarrow> 'a config" where
  "with_metrics_upkeep_timeout x = on_http (hc_metrics_upkeep_timeout_update (\<lambda>_. Some x))"

definition with_pg_url :: "string \<Rightarrow> 'a config \<Rightarrow> 'a config" where
  "with_pg_url x = on_database (dc_url_update (\<lambda>_. x))"

definition with_pg_max_pool_size :: "u8 \<Rightarrow> 'a config \<Rightarrow> 'a config" where
  "with_pg_max_pool_size x = on_database (dc_max_pool_size_update (\<lambda>_. x))"

definition with_pg_max_idle_time :: "nanos \<Rightarrow> 'a config \<Rightarrow> 'a config" where
  "with_pg_max_idle_time x = on_database (dc_max_idle_time_update (\<lambda>_. Some x))"

definition with_log_format :: "log_format \<Rightarrow> 'a config \<Rightarrow> 'a config" where
  "with_log_format x c = c\<lparr>cf_logging := (cf_logging c)\<lparr>lc_format := x\<rparr>\<rparr>"

definition with_oidc_config :: "oidc_config \<Rightarrow> 'a config \<Rightarrow> 'a config" where
  "with_oidc_config x = on_http (hc_oidc_update (\<lambda>_. Some x))"

definition with_cors_config :: "cors_config \<Rightarrow> 'a config \<Rightarrow> 'a config" where
  "with_cors_config x = on_http (hc_cors_update (\<lambda>_. Some x))"

definition with_deduplication_config :: "dedup_config \<Rightarrow> 'a config \<Rightarrow> 'a config" where
  "with_deduplication_config x = on_http (hc_deduplication_update (\<lambda>_. Some x))"

definition with_included_middlewares :: "http_middleware list \<Rightarrow> 'a config \<Rightarrow> 'a config" where
  "with_included_middlewares x = on_http (hc_middleware_update (\<lambda>_. Some (Include x)))"

definition with_excluded_middlewares :: "http_middleware list \<Rightarrow> 'a config \<Rightarrow> 'a config" where
  "with_excluded_middlewares x = on_http (hc_middleware_update (\<lambda>_. Some (Exclude x)))"

definition with_opentelemetry_config :: "otel_config \<Rightarrow> 'a config \<Rightarrow> 'a config" where
  "with_opentelemetry_config x c = c\<lparr>cf_logging := (cf_logging c)\<lparr>lc_opentelemetry := Some x\<rparr>\<rparr>"

definition with_app :: "'a \<Rightarrow> 'a config \<Rightarrow> 'a config" where
  "with_app x c = c\<lparr>cf_app := x\<rparr>"

section \<open>What validation guarantees\<close>

lemmas validate_defs =
  config_validate_def http_validate_def database_validate_def logging_validate_def
  static_dir_validate_def oidc_validate_def basic_auth_validate_def mw_validate_def
  signing_key_validate_def

lemma static_dir_valid:
  "static_dir_validate d = Inr u \<Longrightarrow> sd_protected d \<Longrightarrow> \<exists>r. sd_route d = Route r \<and> trim r \<noteq> []"
  by (auto simp: static_dir_validate_def result_simps is_fallback_def split: static_dir_route.splits)

lemma signing_key_valid:
  "signing_key_validate h = Inr u \<Longrightarrow> store_is_external (hc_session_store h) \<Longrightarrow>
   \<exists>key. hc_session_signing_key h = Some key \<and> 32 \<le> length (expose_secret key)"
  by (auto simp: signing_key_validate_def result_simps split: option.splits)

lemma mw_valid:
  "mw_validate c = Inr u \<Longrightarrow>
   (mw_is_enabled c RequestDeduplication \<longrightarrow> mw_is_enabled c RequestId)
   \<and> (mw_is_enabled c Oidc \<longrightarrow> mw_is_enabled c Session)"
  by (auto simp: mw_validate_def result_simps)

lemma proxy_secret_valid:
  "\<not> empty_proxy_secret p \<Longrightarrow> po_shared_secret p \<noteq> None \<Longrightarrow>
   \<exists>s. effective_shared_secret p = Some s \<and> s \<noteq> []"
  by (auto simp: empty_proxy_secret_def effective_shared_secret_def Let_def)


definition sample_config :: "unit config" where
  "sample_config =
     \<lparr>cf_http = http_default\<lparr>hc_session_store := Postgres,
        hc_session_signing_key := Some (Sensitive (replicate 32 CHR ''k''))\<rparr>,
      cf_database = database_default (\<lambda>_. None), cf_logging = logging_default,
      cf_circuit_breakers = [], cf_app = (), cf_is_production = True\<rparr>"

lemma trim_ascii_id:
  assumes "s \<noteq> []" "0x20 < (of_char (hd s) :: nat)" "(of_char (hd s) :: nat) < 0x80"
    "0x20 < (of_char (last s) :: nat)" "(of_char (last s) :: nat) < 0x80"
  shows "trim s = s"
  by (rule trim_id) (use assms in \<open>auto simp: ws_head_def ws_last_def ws_seqs_def\<close>)

lemma http_default_valid: "http_validate http_default = Inr ()"
  by (simp add: http_validate_def http_default_def result_simps parse_any_v4 trim_ascii_id
      fallback_count_def signing_key_validate_def)

lemma sample_config_valid: "config_validate sample_config = Inr ()"
  by (simp add: config_validate_def sample_config_def http_validate_def http_default_def
      result_simps parse_any_v4 trim_ascii_id fallback_count_def signing_key_validate_def
      database_validate_def database_default_def default_min_pool_size_def default_max_pool_size_def database_default_url_def starts_with_def
      logging_validate_def)


text \<open>\<open>Config::from_toml\<close> substitutes placeholders twice: where a variable's value is itself a
placeholder, the TOML parser is given the value of the second variable, although one
substitution leaves the inner placeholder alone and \<open>str::parse\<close> does only one.\<close>
theorem from_toml_substitutes_twice:
  assumes "x \<noteq> []" "list_all is_var_char x" "y \<noteq> []" "list_all is_var_char y"
    "CHR ''{'' \<notin> set p" "CHR ''{'' \<notin> set s" "env x = Some (placeholder i y j)"
  shows "config_from_str env toml (p @ placeholder 1 x 1 @ s) =
      and_then (map_err (\<lambda>m. error_from (TomlError m)) (toml (p @ placeholder i y j @ s)))
        (\<lambda>c. Inr (c\<lparr>cf_is_production := True\<rparr>))
    \<and> config_from_toml env toml (p @ placeholder 1 x 1 @ s) =
      and_then (map_err (\<lambda>m. error_from (TomlError m)) (toml (p @ var_value env y @ s)))
        (\<lambda>c. Inr (c\<lparr>cf_is_production := True\<rparr>))"
proof -
  have s: "replace_hb env s = s"
    using replace_hb_plain [OF assms(6), of env "[]"] by simp
  have one: "replace_hb env (p @ placeholder k n l @ s) = p @ var_value env n @ s"
    if "n \<noteq> []" "list_all is_var_char n" for k n l
    using that assms(5) s by (simp add: replace_hb_plain replace_hb_placeholder)
  show ?thesis
    by (simp add: config_from_str_def config_from_toml_def one [OF assms(1,2)] one [OF assms(3,4)]
        assms(7) var_value_def [of env x] default_is_production_def)
qed

theorem from_toml_substitutes_twice_witness:
  "config_from_toml [''A'' \<mapsto> placeholder 1 ''B'' 1, ''B'' \<mapsto> ''b''] (\<lambda>t. Inl t)
     (''x = '' @ placeholder 1 ''A'' 1 @ '''') = (Inl (error_from (TomlError ''x = b'')) :: error + unit config)"
  using from_toml_substitutes_twice [of "''A''" "''B''" "''x = ''" "''''"
      "[''A'' \<mapsto> placeholder 1 ''B'' 1, ''B'' \<mapsto> ''b'']" 1 1 "\<lambda>t. Inl t :: string + unit config"]
  by (simp add: is_var_char_def is_ascii_upper_def var_value_def)

end
