(* ===== verification/Identity.thy ===== *)
theory Identity
  imports Http Utils Net
begin

text \<open>
  \<open>src/config/http/identity.rs\<close> and \<open>role_extractors.rs\<close>: the identity that the
  authentication middlewares attach to a request, the extractors that read it, and the
  role guards.  Also the request as the middlewares see it, and what the authentication
  layers have in common.
\<close>

section \<open>Identities and requests\<close>

datatype auth_method = ByBasicAuth | ByApiKey | ByOidc | ByProxyOidc

record identity =
  id_method :: auth_method
  id_user :: string
  id_email :: "string option"
  id_groups :: "string list"
  id_roles :: "string list"
  id_preferred_username :: "string option"
  id_access_token :: "string sensitive option"

text \<open>
  The two extensions an identity can be stored in (behind an \<open>Arc\<close>, and plain) are separate
  fields.  \<open>rq_peer\<close> is the address in \<open>ConnectInfo\<close>.
\<close>

record request =
  rq_method :: http_method
  rq_path :: string
  rq_query :: "string option"
  rq_path_and_query :: "string option"
  rq_header :: "string \<Rightarrow> header_value"
  rq_peer :: "ip_addr option"
  rq_identity_arc :: "identity option"
  rq_identity_plain :: "identity option"
  rq_has_session :: bool
  rq_api_version :: "api_version option"

definition identity_from_extensions :: "request \<Rightarrow> identity option" where
  "identity_from_extensions rq =
     (case rq_identity_arc rq of Some i \<Rightarrow> Some i | None \<Rightarrow> rq_identity_plain rq)"

definition present_in :: "request \<Rightarrow> bool" where
  "present_in rq = (rq_identity_arc rq \<noteq> None \<or> rq_identity_plain rq \<noteq> None)"

definition from_extensions_ref :: "request \<Rightarrow> identity option" where
  "from_extensions_ref rq =
     (case rq_identity_arc rq of Some i \<Rightarrow> Some i | None \<Rightarrow> rq_identity_plain rq)"

definition with_identity :: "identity \<Rightarrow> request \<Rightarrow> request" where
  "with_identity i rq = rq\<lparr>rq_identity_arc := Some i\<rparr>"

section \<open>Extractors\<close>

type_synonym rejection = "nat \<times> string"

definition extract_identity_required :: "request \<Rightarrow> rejection + identity" where
  "extract_identity_required rq =
     ok_or (401, ''Authentication required'') (identity_from_extensions rq)"

definition extract_identity_optional :: "request \<Rightarrow> identity option" where
  "extract_identity_optional rq = identity_from_extensions rq"

definition extract_shared :: "request \<Rightarrow> rejection + identity" where
  "extract_shared rq = ok_or (401, ''Authentication required'') (identity_from_extensions rq)"

definition extract_shared_optional :: "request \<Rightarrow> identity option" where
  "extract_shared_optional rq = identity_from_extensions rq"

definition with_role :: "string \<Rightarrow> request \<Rightarrow> rejection + identity" where
  "with_role role rq =
     and_then (ok_or (401, ''Authentication required'') (identity_from_extensions rq))
       (\<lambda>i. if role \<in> set (id_roles i) then Inr i else Inl (403, ''Insufficient role''))"

definition any_role :: "string list \<Rightarrow> request \<Rightarrow> rejection + identity" where
  "any_role roles rq =
     and_then (ok_or (401, ''Authentication required'') (identity_from_extensions rq))
       (\<lambda>i. if list_ex (\<lambda>r. r \<in> set (id_roles i)) roles then Inr i
            else Inl (403, ''Insufficient role''))"

definition all_roles :: "string list \<Rightarrow> request \<Rightarrow> rejection + identity" where
  "all_roles roles rq =
     and_then (ok_or (401, ''Authentication required'') (identity_from_extensions rq))
       (\<lambda>i. if list_all (\<lambda>r. r \<in> set (id_roles i)) roles then Inr i
            else Inl (403, ''Insufficient role''))"

lemma present_iff: "present_in rq \<longleftrightarrow> identity_from_extensions rq \<noteq> None"
  by (auto simp: present_in_def identity_from_extensions_def split: option.splits)

lemma identity_with_identity [simp]: "identity_from_extensions (with_identity i rq) = Some i"
  by (simp add: identity_from_extensions_def with_identity_def)

lemma present_with_identity [simp]: "present_in (with_identity i rq)"
  by (simp add: present_iff)

lemma with_role_iff:
  "with_role r rq = Inr i \<longleftrightarrow> identity_from_extensions rq = Some i \<and> r \<in> set (id_roles i)"
  by (cases "identity_from_extensions rq") (auto simp: with_role_def ok_or_def)

text \<open>A guard admits exactly the requests whose identity has the required role, one of them,
or all of them; it answers 401 exactly without an identity and 403 otherwise.  So the
guard for all roles is the conjunction of the single guards, that for any role their
disjunction; the empty list admits every identity in the first case and none in the second.\<close>
theorem role_guards_exact:
  "(with_role r rq = Inr i \<longleftrightarrow> identity_from_extensions rq = Some i \<and> r \<in> set (id_roles i))
   \<and> (any_role rs rq = Inr i \<longleftrightarrow> (\<exists>r \<in> set rs. with_role r rq = Inr i))
   \<and> (all_roles rs rq = Inr i \<longleftrightarrow>
        identity_from_extensions rq = Some i \<and> set rs \<subseteq> set (id_roles i))
   \<and> (with_role r rq = Inl e \<longrightarrow> fst e = (if present_in rq then 403 else 401))
   \<and> (any_role rs rq = Inl e \<longrightarrow> fst e = (if present_in rq then 403 else 401))
   \<and> (all_roles rs rq = Inl e \<longrightarrow> fst e = (if present_in rq then 403 else 401))"
proof (cases "identity_from_extensions rq")
  case None
  then show ?thesis
    by (auto simp: with_role_def any_role_def all_roles_def ok_or_def present_iff)
next
  case (Some j)
  then show ?thesis
    by (auto simp: with_role_def any_role_def all_roles_def ok_or_def present_iff list_ex_iff
        list_all_iff)
qed

definition sample_request :: request where
  "sample_request =
     \<lparr>rq_method = GET, rq_path = ''/'', rq_query = None, rq_path_and_query = Some ''/'',
      rq_header = (\<lambda>_. Absent), rq_peer = None, rq_identity_arc = None,
      rq_identity_plain = None, rq_has_session = False, rq_api_version = None\<rparr>"

definition sample_identity :: identity where
  "sample_identity =
     \<lparr>id_method = ByBasicAuth, id_user = ''ann'', id_email = None, id_groups = [],
      id_roles = [''editor''], id_preferred_username = None, id_access_token = None\<rparr>"

theorem role_guards_exact_witness:
  "fst (projl (with_role ''admin'' (with_identity sample_identity sample_request))) = 403"
proof -
  have "with_role ''admin'' (with_identity sample_identity sample_request)
      = Inl (403, ''Insufficient role'')"
    by (simp add: with_role_def ok_or_def sample_identity_def)
  then show ?thesis
    using role_guards_exact [of "''admin''" "with_identity sample_identity sample_request" _ "[]"
        "(403, ''Insufficient role'')"] by simp
qed

section \<open>Layers in front of a handler\<close>

text \<open>A layer decides; the layers of a list run from the outermost to the innermost.\<close>

type_synonym layer = "request \<Rightarrow> request decision"

fun run_layers :: "layer list \<Rightarrow> layer" where
  "run_layers [] rq = Next rq"
| "run_layers (l # ls) rq = (case l rq of Next rq' \<Rightarrow> run_layers ls rq' | Reply r \<Rightarrow> Reply r)"

definition same_but_identity :: "request \<Rightarrow> request \<Rightarrow> bool" where
  "same_but_identity rq rq' = (rq'\<lparr>rq_identity_arc := rq_identity_arc rq\<rparr> = rq)"

lemma same_but_identity_refl [simp]: "same_but_identity rq rq"
  by (simp add: same_but_identity_def)

lemma same_but_identity_with [simp]: "same_but_identity rq (with_identity i rq)"
  by (simp add: same_but_identity_def with_identity_def)

lemma same_but_identity_trans:
  "same_but_identity a b \<Longrightarrow> same_but_identity b c \<Longrightarrow> same_but_identity a c"
  by (cases a, cases b, cases c) (simp add: same_but_identity_def)

text \<open>
  What every authentication layer promises: it hands on the request it got, with at most
  an identity attached, and never takes an identity away.
\<close>

locale auth_layer =
  fixes mw :: layer
  assumes frame: "mw rq = Next rq' \<Longrightarrow> same_but_identity rq rq'"
    and keeps: "mw rq = Next rq' \<Longrightarrow> present_in rq \<Longrightarrow> present_in rq'"
begin

lemma before_layers:
  assumes "run_layers (mw # ls) rq = Next rq'"
  obtains rq1 where "mw rq = Next rq1" "same_but_identity rq rq1" "run_layers ls rq1 = Next rq'"
  using assms frame by (auto split: decision.splits)

end

text \<open>A layer that lets nobody through without an identity.\<close>

locale strict_auth_layer = auth_layer +
  assumes authenticates: "mw rq = Next rq' \<Longrightarrow> present_in rq'"
begin

lemma no_anonymous: "mw rq = Next rq' \<Longrightarrow> extract_identity_required rq' \<noteq> Inl e"
  using authenticates present_iff by (auto simp: extract_identity_required_def result_simps)

end

text \<open>Two authentication layers, one behind the other, are an authentication layer.\<close>

locale auth_pair = outer: auth_layer mw1 + inner: auth_layer mw2 for mw1 mw2

sublocale auth_pair \<subseteq> pair: auth_layer "run_layers [mw1, mw2]"
proof (unfold_locales, goal_cases)
  case (1 rq rq')
  then obtain q where "mw1 rq = Next q" "mw2 q = Next rq'" by (auto split: decision.splits)
  then show ?case by (blast intro: same_but_identity_trans outer.frame inner.frame)
next
  case (2 rq rq')
  then show ?case using outer.keeps inner.keeps by (auto split: decision.splits)
qed

end
