(* ===== verification/Basic_Auth.thy ===== *)
theory Basic_Auth
  imports Identity Config
begin

text \<open>
  \<open>src/fluent/basic_auth.rs\<close>: HTTP Basic and API-key authentication, and the middleware
  around it.  \<open>dec\<close> is the \<open>base64\<close> crate's standard decoder (\<open>None\<close> on an error) and
  \<open>ct_eq\<close> the \<open>subtle\<close> crate's comparison.
\<close>

datatype auth_outcome = Authenticated identity | InvalidCredentials response | NoCredentials

definition basic_allowed :: "basic_auth_config \<Rightarrow> bool" where
  "basic_allowed c = (ba_mode c \<in> {BasicMode, EitherMode})"

definition api_key_allowed :: "basic_auth_config \<Rightarrow> bool" where
  "api_key_allowed c = (ba_mode c \<in> {ApiKeyMode, EitherMode})"

definition unauthorized_response :: "basic_auth_config \<Rightarrow> response" where
  "unauthorized_response c =
     (let r = text_response 401 ''Authentication required''
      in if basic_allowed c then add_header ''www-authenticate'' ''Basic realm=\"API\"'' r else r)"

definition bad_request_response :: response where
  "bad_request_response = text_response 400 ''Invalid authentication format''"

definition user_identity :: "string \<Rightarrow> basic_auth_user \<Rightarrow> identity" where
  "user_identity username u =
     \<lparr>id_method = ByBasicAuth, id_user = username, id_email = bu_email u,
      id_groups = bu_groups u, id_roles = bu_roles u,
      id_preferred_username = bu_preferred_username u, id_access_token = None\<rparr>"

definition key_identity :: "basic_auth_api_key \<Rightarrow> identity" where
  "key_identity k =
     \<lparr>id_method = ByApiKey,
      id_user = (case bk_name k of Some n \<Rightarrow> n | None \<Rightarrow> ''api-key''), id_email = bk_email k,
      id_groups = bk_groups k, id_roles = bk_roles k,
      id_preferred_username = bk_preferred_username k, id_access_token = None\<rparr>"

text \<open>Decoding \<open>Basic <base64(user:password)>\<close>; every step may answer 400.\<close>

definition decode_credentials ::
  "(string \<Rightarrow> string option) \<Rightarrow> string \<Rightarrow> response + (string \<times> string)" where
  "decode_credentials dec encoded =
     and_then (ok_or bad_request_response (dec encoded)) (\<lambda>decoded.
       and_then (reject_if (\<not> utf8_valid decoded) bad_request_response) (\<lambda>_.
         ok_or bad_request_response (split_once CHR '':'' decoded)))"

definition matching_user ::
  "(string \<Rightarrow> string \<Rightarrow> bool) \<Rightarrow> string \<Rightarrow> string \<Rightarrow> basic_auth_user \<Rightarrow> bool" where
  "matching_user ct_eq username password u =
     (constant_time_eq ct_eq username (bu_username u)
      \<and> constant_time_eq ct_eq password (expose_secret (bu_password u)))"

definition try_basic_auth ::
  "(string \<Rightarrow> string option) \<Rightarrow> (string \<Rightarrow> string \<Rightarrow> bool) \<Rightarrow> basic_auth_config
    \<Rightarrow> (string \<Rightarrow> header_value) \<Rightarrow> response + identity option" where
  "try_basic_auth dec ct_eq c header =
     (case header ''authorization'' of
        Absent \<Rightarrow> Inr None
      | NotText \<Rightarrow> Inl bad_request_response
      | HeaderText v \<Rightarrow>
          if \<not> starts_with v ''Basic '' then Inr None
          else and_then (decode_credentials dec (drop 6 v)) (\<lambda>(username, password).
            Inr (map_option (user_identity username)
              (find (matching_user ct_eq username password) (ba_users c)))))"

definition try_api_key_auth ::
  "(string \<Rightarrow> string \<Rightarrow> bool) \<Rightarrow> basic_auth_config \<Rightarrow> (string \<Rightarrow> header_value)
    \<Rightarrow> response + identity option" where
  "try_api_key_auth ct_eq c header =
     (case header (ba_api_key_header c) of
        Absent \<Rightarrow> Inr None
      | NotText \<Rightarrow> Inl bad_request_response
      | HeaderText v \<Rightarrow>
          Inr (map_option key_identity
            (find (\<lambda>k. constant_time_eq ct_eq v (expose_secret (bk_key k))) (ba_api_keys c))))"

definition has_basic_header :: "(string \<Rightarrow> header_value) \<Rightarrow> bool" where
  "has_basic_header header =
     (case to_str_ok (header ''authorization'') of Some v \<Rightarrow> starts_with v ''Basic '' | None \<Rightarrow> False)"

definition try_authenticate ::
  "(string \<Rightarrow> string option) \<Rightarrow> (string \<Rightarrow> string \<Rightarrow> bool) \<Rightarrow> basic_auth_config
    \<Rightarrow> (string \<Rightarrow> header_value) \<Rightarrow> auth_outcome" where
  "try_authenticate dec ct_eq c header =
     (let basic = (if basic_allowed c then try_basic_auth dec ct_eq c header else Inr None);
          had_basic = (basic_allowed c \<and> has_basic_header header)
      in case basic of
           Inl r \<Rightarrow> InvalidCredentials r
         | Inr (Some i) \<Rightarrow> Authenticated i
         | Inr None \<Rightarrow>
             (let key = (if api_key_allowed c then try_api_key_auth ct_eq c header else Inr None);
                  had_key = (api_key_allowed c \<and> header_present (header (ba_api_key_header c)))
              in case key of
                   Inl r \<Rightarrow> InvalidCredentials r
                 | Inr (Some i) \<Rightarrow> Authenticated i
                 | Inr None \<Rightarrow>
                     if had_basic \<or> had_key then InvalidCredentials (unauthorized_response c)
                     else NoCredentials))"

definition basic_auth_middleware ::
  "(string \<Rightarrow> string option) \<Rightarrow> (string \<Rightarrow> string \<Rightarrow> bool) \<Rightarrow> basic_auth_config \<Rightarrow> bool \<Rightarrow> layer" where
  "basic_auth_middleware dec ct_eq c passthrough rq =
     (case try_authenticate dec ct_eq c (rq_header rq) of
        Authenticated i \<Rightarrow> Next (with_identity i rq)
      | InvalidCredentials r \<Rightarrow> Reply r
      | NoCredentials \<Rightarrow> if passthrough then Next rq else Reply (unauthorized_response c))"

lemma auth_statuses [simp]:
  "rs_status (unauthorized_response c) = 401" "rs_status bad_request_response = 400"
  by (simp_all add: unauthorized_response_def bad_request_response_def text_response_def
      add_header_def Let_def)

interpretation basic_layer: auth_layer "basic_auth_middleware dec ct_eq c passthrough"
  for dec ct_eq c passthrough
  by unfold_locales (auto simp: basic_auth_middleware_def split: auth_outcome.splits if_splits)

interpretation basic_strict: strict_auth_layer "basic_auth_middleware dec ct_eq c False"
  for dec ct_eq c
  by unfold_locales (auto simp: basic_auth_middleware_def split: auth_outcome.splits)

section \<open>Who is authenticated\<close>

text \<open>The header carries exactly the credentials of a configured user, or a configured key.\<close>

definition presents_user ::
  "(string \<Rightarrow> string option) \<Rightarrow> basic_auth_config \<Rightarrow> (string \<Rightarrow> header_value) \<Rightarrow> basic_auth_user \<Rightarrow> bool" where
  "presents_user dec c header u \<longleftrightarrow>
     u \<in> set (ba_users c) \<and> basic_allowed c
     \<and> (\<exists>enc cred. header ''authorization'' = HeaderText (''Basic '' @ enc) \<and> dec enc = Some cred
          \<and> utf8_valid cred \<and> CHR '':'' \<notin> set (bu_username u)
          \<and> cred = bu_username u @ CHR '':'' # expose_secret (bu_password u))"

definition presents_key ::
  "basic_auth_config \<Rightarrow> (string \<Rightarrow> header_value) \<Rightarrow> basic_auth_api_key \<Rightarrow> bool" where
  "presents_key c header k \<longleftrightarrow>
     k \<in> set (ba_api_keys c) \<and> api_key_allowed c
     \<and> header (ba_api_key_header c) = HeaderText (expose_secret (bk_key k))"

lemma decode_credentials_iff:
  "decode_credentials dec enc = Inr (n, p) \<longleftrightarrow>
    (\<exists>cred. dec enc = Some cred \<and> utf8_valid cred \<and> CHR '':'' \<notin> set n \<and> cred = n @ CHR '':'' # p)"
  by (auto simp: decode_credentials_def result_simps split_once_iff)

lemma find_first:
  "find P xs = Some x \<Longrightarrow> x \<in> set xs \<and> P x"
  by (auto simp: find_Some_iff)

lemma try_basic_sound:
  assumes "\<And>a b. ct_eq a b = (a = b)" "try_basic_auth dec ct_eq c header = Inr (Some i)"
    "basic_allowed c"
  shows "\<exists>u. presents_user dec c header u \<and> i = user_identity (bu_username u) u"
proof -
  obtain v n p u where v: "header ''authorization'' = HeaderText v" "starts_with v ''Basic ''"
    and d: "decode_credentials dec (drop 6 v) = Inr (n, p)"
    and u: "find (matching_user ct_eq n p) (ba_users c) = Some u" "i = user_identity n u"
    using assms(2)
    by (auto simp: try_basic_auth_def result_simps split: header_value.splits if_splits)
  have "v = ''Basic '' @ drop 6 v"
    using starts_with_split [OF v(2)] by (simp add: eval_nat_numeral)
  moreover have "n = bu_username u" "p = expose_secret (bu_password u)" "u \<in> set (ba_users c)"
    using find_first [OF u(1)] assms(1) by (auto simp: matching_user_def constant_time_eq_def)
  ultimately show ?thesis
    using v(1) d u(2) assms(3) unfolding decode_credentials_iff presents_user_def by auto
qed

lemma try_key_sound:
  assumes "\<And>a b. ct_eq a b = (a = b)" "try_api_key_auth ct_eq c header = Inr (Some i)"
    "api_key_allowed c"
  shows "\<exists>k. presents_key c header k \<and> i = key_identity k"
  using assms
  by (auto simp: try_api_key_auth_def presents_key_def constant_time_eq_def
      split: header_value.splits dest!: find_first)

text \<open>C31: (basic authentication is sound) The middleware attaches an identity only if the request carries
exactly the user name and password of a configured user, or exactly a configured API key,
in a header the mode accepts, and then it is that user's or key's identity.  Otherwise
the request is answered with 400 or 401, except that a request without credentials is
handed on unchanged when passing through is configured.\<close>
theorem basic_auth_sound:
  assumes "\<And>a b. ct_eq a b = (a = b)"
  shows "case basic_auth_middleware dec ct_eq c passthrough rq of
      Next rq' \<Rightarrow>
        (\<exists>u. presents_user dec c (rq_header rq) u
          \<and> rq' = with_identity (user_identity (bu_username u) u) rq)
        \<or> (\<exists>k. presents_key c (rq_header rq) k \<and> rq' = with_identity (key_identity k) rq)
        \<or> (passthrough \<and> rq' = rq \<and> (basic_allowed c \<longrightarrow> \<not> has_basic_header (rq_header rq))
          \<and> (api_key_allowed c \<longrightarrow> rq_header rq (ba_api_key_header c) = Absent))
    | Reply r \<Rightarrow> rs_status r \<in> {400, 401}"
proof (cases "try_authenticate dec ct_eq c (rq_header rq)")
  case (Authenticated i)
  then have "(basic_allowed c \<and> try_basic_auth dec ct_eq c (rq_header rq) = Inr (Some i))
      \<or> (api_key_allowed c \<and> try_api_key_auth ct_eq c (rq_header rq) = Inr (Some i))"
    by (auto simp: try_authenticate_def Let_def split: sum.splits option.splits if_splits)
  then have "(\<exists>u. presents_user dec c (rq_header rq) u \<and> i = user_identity (bu_username u) u)
      \<or> (\<exists>k. presents_key c (rq_header rq) k \<and> i = key_identity k)"
    using try_basic_sound [OF assms] try_key_sound [OF assms] by blast
  then show ?thesis using Authenticated by (auto simp: basic_auth_middleware_def)
next
  case (InvalidCredentials r)
  then have "r = bad_request_response \<or> r = unauthorized_response c"
    by (auto simp: try_authenticate_def try_basic_auth_def try_api_key_auth_def
        decode_credentials_def result_simps Let_def
        split: sum.splits option.splits if_splits header_value.splits)
  then show ?thesis using InvalidCredentials
    by (auto simp: basic_auth_middleware_def)
next
  case NoCredentials
  then have "(basic_allowed c \<longrightarrow> \<not> has_basic_header (rq_header rq))
      \<and> (api_key_allowed c \<longrightarrow> rq_header rq (ba_api_key_header c) = Absent)"
    by (auto simp: try_authenticate_def Let_def header_present.simps
        split: sum.splits option.splits if_splits elim!: header_present.elims)
  then show ?thesis using NoCredentials
    by (simp add: basic_auth_middleware_def)
qed

definition demo_user :: basic_auth_user where
  "demo_user =
     \<lparr>bu_username = ''ann'', bu_password = Sensitive ''s3'', bu_email = None, bu_groups = [],
      bu_roles = [''editor''], bu_preferred_username = None\<rparr>"

definition demo_auth :: basic_auth_config where
  "demo_auth = basic_auth_default\<lparr>ba_users := [demo_user]\<rparr>"

definition demo_request :: request where
  "demo_request = sample_request\<lparr>rq_header :=
     (\<lambda>n. if n = ''authorization'' then HeaderText ''Basic YW5uOnMz'' else Absent)\<rparr>"

definition demo_decode :: "string \<Rightarrow> string option" where
  "demo_decode = [''YW5uOnMz'' \<mapsto> ''ann:s3'']"

theorem basic_auth_sound_witness:
  "\<not> (\<exists>rq'. basic_auth_middleware demo_decode (=) (demo_auth\<lparr>ba_users := []\<rparr>) False demo_request = Next rq')"
proof
  let ?c = "demo_auth\<lparr>ba_users := []\<rparr>"
  assume "\<exists>rq'. basic_auth_middleware demo_decode (=) ?c False demo_request = Next rq'"
  then obtain rq' where "basic_auth_middleware demo_decode (=) ?c False demo_request = Next rq'" by blast
  then show False
    using basic_auth_sound [where ct_eq = "(=)" and dec = demo_decode and c = ?c
        and passthrough = False and rq = demo_request]
    by (simp add: presents_user_def presents_key_def demo_auth_def basic_auth_default_def)
qed

lemma find_complete: "x \<in> set xs \<Longrightarrow> P x \<Longrightarrow> \<exists>y. find P xs = Some y \<and> y \<in> set xs \<and> P y"
  by (induction xs) auto

text \<open>A request that carries the credentials of a configured user is
always let through with an identity of that user name, built from a user entry with exactly
these credentials, whatever other headers it has.\<close>
theorem basic_auth_complete:
  assumes "\<And>a b. ct_eq a b = (a = b)" "presents_user dec c (rq_header rq) u"
  shows "\<exists>u' \<in> set (ba_users c). bu_username u' = bu_username u
      \<and> expose_secret (bu_password u') = expose_secret (bu_password u)
      \<and> basic_auth_middleware dec ct_eq c passthrough rq
        = Next (with_identity (user_identity (bu_username u) u') rq)"
proof -
  let ?P = "matching_user ct_eq (bu_username u) (expose_secret (bu_password u))"
  obtain enc where h: "rq_header rq ''authorization'' = HeaderText (''Basic '' @ enc)"
    and d: "decode_credentials dec enc = Inr (bu_username u, expose_secret (bu_password u))"
    and u: "u \<in> set (ba_users c)" "basic_allowed c"
    using assms(2) unfolding presents_user_def decode_credentials_iff by blast
  have "?P u" by (simp add: matching_user_def constant_time_eq_def assms(1))
  then obtain u' where u': "find ?P (ba_users c) = Some u'" "u' \<in> set (ba_users c)" "?P u'"
    using find_complete [OF u(1)] by blast
  have "drop 6 (''Basic '' @ enc) = enc" by (simp add: eval_nat_numeral)
  then have "try_basic_auth dec ct_eq c (rq_header rq)
      = Inr (Some (user_identity (bu_username u) u'))"
    using h d u'(1) by (simp add: try_basic_auth_def starts_with_def)
  then have "basic_auth_middleware dec ct_eq c passthrough rq
      = Next (with_identity (user_identity (bu_username u) u') rq)"
    using u(2) by (simp add: basic_auth_middleware_def try_authenticate_def)
  moreover have "bu_username u' = bu_username u
      \<and> expose_secret (bu_password u') = expose_secret (bu_password u)"
    using u'(3) assms(1) by (simp add: matching_user_def constant_time_eq_def)
  ultimately show ?thesis using u'(2) by blast
qed

theorem basic_auth_complete_witness:
  "basic_auth_middleware demo_decode (=) demo_auth False demo_request
   = Next (with_identity (user_identity ''ann'' demo_user) demo_request)"
proof -
  have "utf8_valid ''ann:s3''" by (rule utf8_valid_ascii) (simp add: byte_in_def)
  then have "presents_user demo_decode demo_auth (rq_header demo_request) demo_user"
    by (simp add: presents_user_def demo_auth_def basic_auth_default_def basic_allowed_def
        demo_request_def demo_decode_def demo_user_def)
  from basic_auth_complete [OF _ this, where ct_eq = "(=)" and passthrough = False] show ?thesis
    by (simp add: demo_auth_def) (simp add: demo_user_def)
qed

end
