(* ===== verification/Proxy_Auth.thy ===== *)
theory Proxy_Auth
  imports Identity Config
begin

text \<open>
  \<open>src/fluent/proxy_oidc.rs\<close> (identity from the headers of an authenticating proxy),
  \<open>browser_redirect.rs\<close> (sending browsers to the login page) and \<open>user_span.rs\<close> (the user
  name in the trace span).  \<open>in_net\<close> is \<open>IpNet::contains\<close> for a configured range.
\<close>

section \<open>Proxy headers\<close>

definition is_trusted_source ::
  "(string \<Rightarrow> string \<Rightarrow> bool) \<Rightarrow> (string \<Rightarrow> ip_addr \<Rightarrow> bool) \<Rightarrow> proxy_oidc_config \<Rightarrow> bool
    \<Rightarrow> ip_addr option \<Rightarrow> (string \<Rightarrow> header_value) \<Rightarrow> bool" where
  "is_trusted_source ct_eq in_net c is_production peer_ip header =
     (if (case effective_shared_secret c of
            Some secret \<Rightarrow>
              (case to_str_ok (header (po_shared_secret_header c)) of
                 Some provided \<Rightarrow> constant_time_eq ct_eq provided secret
               | None \<Rightarrow> False)
          | None \<Rightarrow> False) then True
      else if po_trusted_proxies c \<noteq> []
              \<and> (case peer_ip of
                   Some ip \<Rightarrow> list_ex (\<lambda>net. in_net net ip) (po_trusted_proxies c)
                 | None \<Rightarrow> False) then True
      else if has_trust_anchor c then False
      else \<not> is_production)"

definition comma_list :: "string \<Rightarrow> string list" where
  "comma_list s = filter (\<lambda>g. g \<noteq> []) (map trim (split_on CHR '','' s))"

definition non_empty :: "string option \<Rightarrow> string option" where
  "non_empty x = (case x of Some s \<Rightarrow> if s = [] then None else Some s | None \<Rightarrow> None)"

definition extract_identity :: "proxy_oidc_config \<Rightarrow> (string \<Rightarrow> header_value) \<Rightarrow> identity option" where
  "extract_identity c header =
     (case to_str_ok (header (po_user_header c)) of
        None \<Rightarrow> None
      | Some user \<Rightarrow> Some
          \<lparr>id_method = ByProxyOidc, id_user = user,
           id_email = non_empty (to_str_ok (header (po_email_header c))),
           id_groups = (case to_str_ok (header (po_groups_header c)) of
                          Some s \<Rightarrow> comma_list s | None \<Rightarrow> []),
           id_roles = (case to_str_ok (header (po_roles_header c)) of
                         Some s \<Rightarrow> comma_list s | None \<Rightarrow> []),
           id_preferred_username = non_empty (to_str_ok (header (po_preferred_username_header c))),
           id_access_token =
             map_option Sensitive (non_empty (to_str_ok (header (po_access_token_header c))))\<rparr>)"

definition proxy_oidc_middleware ::
  "(string \<Rightarrow> string \<Rightarrow> bool) \<Rightarrow> (string \<Rightarrow> ip_addr \<Rightarrow> bool) \<Rightarrow> proxy_oidc_config \<Rightarrow> bool \<Rightarrow> layer" where
  "proxy_oidc_middleware ct_eq in_net c is_production rq =
     (if is_trusted_source ct_eq in_net c is_production (rq_peer rq) (rq_header rq)
      then (case extract_identity c (rq_header rq) of
              Some i \<Rightarrow> Next (with_identity i rq)
            | None \<Rightarrow> Next rq)
      else Next rq)"

interpretation proxy_layer: auth_layer "proxy_oidc_middleware ct_eq in_net c is_production"
  for ct_eq in_net c is_production
  by unfold_locales (auto simp: proxy_oidc_middleware_def split: if_splits option.splits)

lemma comma_list_items:
  "x \<in> set (comma_list s) \<Longrightarrow> x \<noteq> [] \<and> CHR '','' \<notin> set x"
  using split_on_pieces set_trim by (fastforce simp: comma_list_def)

text \<open>Where a request's trust comes from.\<close>

definition from_trusted_proxy ::
  "(string \<Rightarrow> ip_addr \<Rightarrow> bool) \<Rightarrow> proxy_oidc_config \<Rightarrow> request \<Rightarrow> bool" where
  "from_trusted_proxy in_net c rq \<longleftrightarrow>
     (\<exists>s. effective_shared_secret c = Some s \<and> rq_header rq (po_shared_secret_header c) = HeaderText s)
     \<or> (\<exists>net \<in> set (po_trusted_proxies c). \<exists>ip. rq_peer rq = Some ip \<and> in_net net ip)"

lemma is_trusted_iff:
  assumes "\<And>a b. ct_eq a b = (a = b)"
  shows "is_trusted_source ct_eq in_net c p (rq_peer rq) (rq_header rq) \<longleftrightarrow>
    from_trusted_proxy in_net c rq \<or> \<not> has_trust_anchor c \<and> \<not> p"
proof -
  have "to_str_ok h = Some s \<longleftrightarrow> h = HeaderText s" for h s by (cases h) auto
  then show ?thesis
    by (auto simp: is_trusted_source_def from_trusted_proxy_def constant_time_eq_def assms
        list_ex_iff has_trust_anchor_def split: option.splits)
qed


definition spoofed_request :: request where
  "spoofed_request = sample_request\<lparr>rq_header :=
     (\<lambda>n. if n = ''X-Auth-Request-User'' then HeaderText ''root''
          else if n = ''X-Proxy-Secret'' then HeaderText '''' else Absent)\<rparr>"


section \<open>Browser redirection\<close>

record browser_redirect_config =
  br_login_route :: string
  br_skip_paths :: "string list"

text \<open>
  The decision and the values stored in the session (under the key \<open>oidc_return_url\<close>).
  \<open>redirect\<close> is \<open>Redirect::temporary(..).into_response()\<close>.
\<close>

definition return_url :: "request \<Rightarrow> string" where
  "return_url rq =
     (case rq_path_and_query rq of
        Some u \<Rightarrow> if is_safe_local_path u then u else ''/''
      | None \<Rightarrow> ''/'')"

definition accepts_html :: "request \<Rightarrow> bool" where
  "accepts_html rq =
     (case to_str_ok (rq_header rq ''accept'') of
        Some a \<Rightarrow> contains_str a ''text/html'' | None \<Rightarrow> False)"

definition browser_redirect_middleware ::
  "(string \<Rightarrow> response) \<Rightarrow> browser_redirect_config \<Rightarrow> request
    \<Rightarrow> request decision \<times> (string \<times> string) list" where
  "browser_redirect_middleware redirect c rq =
     (if present_in rq then (Next rq, [])
      else if list_ex (\<lambda>skip. starts_with (rq_path rq) skip) (br_skip_paths c) then (Next rq, [])
      else if header_present (rq_header rq ''authorization'') then (Next rq, [])
      else if \<not> accepts_html rq then (Next rq, [])
      else (Reply (redirect (br_login_route c)),
            if rq_has_session rq then [(''oidc_return_url'', return_url rq)] else []))"

definition browser_redirect_layer ::
  "(string \<Rightarrow> response) \<Rightarrow> browser_redirect_config \<Rightarrow> layer" where
  "browser_redirect_layer redirect c rq = fst (browser_redirect_middleware redirect c rq)"

interpretation redirect_layer: auth_layer "browser_redirect_layer redirect c" for redirect c
  by unfold_locales
    (auto simp: browser_redirect_layer_def browser_redirect_middleware_def split: if_splits)

text \<open>The user name recorded in the span, and the request handed on.\<close>

definition record_user_to_span :: "request \<Rightarrow> string option \<times> request decision" where
  "record_user_to_span rq =
     (map_option (\<lambda>i. case id_preferred_username i of Some u \<Rightarrow> u | None \<Rightarrow> id_user i)
        (from_extensions_ref rq),
      Next rq)"

lemma return_url_safe: "is_safe_local_path (return_url rq)"
  by (auto simp: return_url_def is_safe_local_path_def starts_with_def split: option.splits)

text \<open>Only anonymous requests of browsers outside the skipped paths are redirected, to
the login route; every other request is handed on as it is.  Whatever is stored for the
way back is a path on this site: it begins with one slash and never with two or with a
slash and a backslash.\<close>
theorem browser_redirect_exact:
  "(fst (browser_redirect_middleware redirect c rq) = Next rq
      \<longleftrightarrow> present_in rq \<or> (\<exists>p \<in> set (br_skip_paths c). starts_with (rq_path rq) p)
          \<or> rq_header rq ''authorization'' \<noteq> Absent \<or> \<not> accepts_html rq)
   \<and> (fst (browser_redirect_middleware redirect c rq) \<noteq> Next rq
      \<longrightarrow> fst (browser_redirect_middleware redirect c rq) = Reply (redirect (br_login_route c)))
   \<and> (\<forall>(k, url) \<in> set (snd (browser_redirect_middleware redirect c rq)).
        k = ''oidc_return_url'' \<and> (\<exists>rest. url = CHR ''/'' # rest
          \<and> (rest = [] \<or> hd rest \<noteq> CHR ''/'' \<and> hd rest \<noteq> CHR 0x5C)))"
proof -
  have safe: "\<exists>rest. u = CHR ''/'' # rest \<and> (rest = [] \<or> hd rest \<noteq> CHR ''/'' \<and> hd rest \<noteq> CHR 0x5C)"
    if "is_safe_local_path u" for u
    using that by (cases u; cases "tl u") (auto simp: is_safe_local_path_def starts_with_def)
  have pres: "header_present h \<longleftrightarrow> h \<noteq> Absent" for h by (cases h) auto
  show ?thesis using safe [OF return_url_safe [of rq]]
    by (auto simp: browser_redirect_middleware_def list_ex_iff pres)
qed

definition api_client :: request where
  "api_client = sample_request\<lparr>rq_header :=
     (\<lambda>n. if n = ''accept'' then HeaderText ''application/json'' else Absent)\<rparr>"

definition login_redirect :: browser_redirect_config where
  "login_redirect = \<lparr>br_login_route = ''/auth/login'', br_skip_paths = [''/live'']\<rparr>"

theorem browser_redirect_exact_witness:
  "fst (browser_redirect_middleware (\<lambda>l. status_response 307) login_redirect api_client)
   = Next api_client"
  using browser_redirect_exact [of "\<lambda>l. status_response 307" login_redirect api_client]
  by (simp add: accepts_html_def starts_with_def api_client_def)

end
