(* ===== verification/Oidc_Bearer.thy ===== *)
theory Oidc_Bearer
  imports Identity Resilience
begin

text \<open>
  \<open>src/fluent/oidc_bearer.rs\<close>: the cache of the provider's signing keys, the validation of
  bearer tokens and the middleware.  The \<open>jsonwebtoken\<close> crate is given by three functions:
  \<open>decode_header\<close> (the \<open>kid\<close> of a token, if the header parses), \<open>from_jwk\<close> (a key, if the JWK
  parses) and \<open>decode\<close> (the claims, if the token passes the validation).  A network fetch is
  given by its result.
\<close>

section \<open>JSON values\<close>

datatype json = JNull | JBool bool | JNumber int | JString string | JArray "json list"
  | JObject "(string \<times> json) list"

fun json_get :: "string \<Rightarrow> json \<Rightarrow> json option" where
  "json_get k (JObject kvs) = map_of kvs k"
| "json_get k _ = None"

fun json_as_str :: "json \<Rightarrow> string option" where
  "json_as_str (JString s) = Some s"
| "json_as_str _ = None"

fun json_as_array :: "json \<Rightarrow> json list option" where
  "json_as_array (JArray xs) = Some xs"
| "json_as_array _ = None"

definition json_strings :: "json list \<Rightarrow> string list" where
  "json_strings xs = List.map_filter json_as_str xs"

section \<open>Surroundings\<close>

text \<open>\<open>built\<close> is what the builder of the HTTP client returns; \<open>env\<close> are the environment variables.\<close>

definition build_http_client :: "string + unit \<Rightarrow> error + unit" where
  "build_http_client built =
     map_err (\<lambda>e. config_error (''failed to build OIDC HTTP client: '' @ e)) built"

definition log_token_claims_enabled :: "(string \<Rightarrow> string option) \<Rightarrow> bool" where
  "log_token_claims_enabled env =
     (case env ''AXUM_CONF_LOG_TOKEN_CLAIMS'' of
        Some v \<Rightarrow> v = ''1'' \<or> map to_ascii_upper v = ''TRUE'' | None \<Rightarrow> False)"

section \<open>Keys\<close>

datatype algorithm = HS256 | HS384 | HS512 | ES256 | ES384 | RS256 | RS384 | RS512
  | PS256 | PS384 | PS512 | EdDSA

datatype key_algorithm = SigningAlg algorithm | OtherAlg

record 'm jwk =
  jwk_key_id :: "string option"
  jwk_key_algorithm :: "key_algorithm option"
  jwk_material :: 'm

definition jwk_signing_algorithm :: "'m jwk \<Rightarrow> algorithm option" where
  "jwk_signing_algorithm k =
     (case jwk_key_algorithm k of Some (SigningAlg a) \<Rightarrow> Some a | _ \<Rightarrow> None)"

text \<open>The fields of \<open>jsonwebtoken::Validation\<close> that the code sets, with their documented defaults.\<close>

record validation =
  v_algorithm :: algorithm
  v_validate_exp :: bool
  v_validate_aud :: bool
  v_aud :: "string list option"
  v_iss :: "string list option"

definition validation_new :: "algorithm \<Rightarrow> validation" where
  "validation_new alg =
     \<lparr>v_algorithm = alg, v_validate_exp = True, v_validate_aud = True, v_aud = None, v_iss = None\<rparr>"

record 'k cached_key =
  ck_decoding_key :: 'k
  ck_validation :: validation

record 'k jwks_provider =
  jp_keys :: "string \<rightharpoonup> 'k cached_key"
  jp_issuer :: string
  jp_audiences :: "string list"
  jp_is_production :: bool

definition key_validation :: "string \<Rightarrow> string list \<Rightarrow> 'm jwk \<Rightarrow> validation" where
  "key_validation issuer audiences k =
     (let alg = (case jwk_signing_algorithm k of Some a \<Rightarrow> a | None \<Rightarrow> RS256);
          v = validation_new alg;
          v' = (if audiences = [] then v\<lparr>v_validate_aud := False\<rparr> else v\<lparr>v_aud := Some audiences\<rparr>)
      in v'\<lparr>v_iss := Some [issuer]\<rparr>)"

definition build_keys ::
  "('m jwk \<Rightarrow> 'k option) \<Rightarrow> 'm jwk list \<Rightarrow> string \<Rightarrow> string list \<Rightarrow> bool
    \<Rightarrow> (string \<rightharpoonup> 'k cached_key)" where
  "build_keys from_jwk jwks issuer audiences is_production =
     (if audiences = [] \<and> is_production then Map.empty
      else fold (\<lambda>k m. case jwk_key_id k of
                         None \<Rightarrow> m
                       | Some kid \<Rightarrow>
                           (case from_jwk k of
                              None \<Rightarrow> m
                            | Some key \<Rightarrow> m(kid \<mapsto> \<lparr>ck_decoding_key = key,
                                ck_validation = key_validation issuer audiences k\<rparr>)))
             jwks Map.empty)"

section \<open>Fetching\<close>

text \<open>
  The outcome of one HTTP request: no response (with the error's text), or a status and
  the body (or the error of reading it).  \<open>parse\<close> is \<open>serde_json::from_str\<close> and \<open>show_status\<close>
  the display of a status code.
\<close>

datatype http_result = NoResponse string | HttpResponse nat "string + string"

definition fetch_jwks ::
  "(nat \<Rightarrow> string) \<Rightarrow> (string \<Rightarrow> string + 'm jwk list) \<Rightarrow> http_result \<Rightarrow> error + 'm jwk list" where
  "fetch_jwks show_status parse res =
     (case res of
        NoResponse e \<Rightarrow> Inl (io_error (''JWKS fetch failed: '' @ e))
      | HttpResponse status text \<Rightarrow>
          if \<not> (200 \<le> status \<and> status < 300)
          then (let msg = ''JWKS fetch returned status '' @ show_status status
                in Inl (if 400 \<le> status \<and> status < 500 then config_error msg else io_error msg))
          else (case text of
                  Inl e \<Rightarrow> Inl (io_error (''JWKS response read failed: '' @ e))
                | Inr body \<Rightarrow>
                    map_err (\<lambda>e. config_error (''JWKS deserialization failed: '' @ e)) (parse body)))"

definition fetch_jwks_with_retry ::
  "(u32 \<Rightarrow> nanos \<Rightarrow> nanos) \<Rightarrow> (nat \<Rightarrow> string) \<Rightarrow> (string \<Rightarrow> string + 'm jwk list)
    \<Rightarrow> (nat \<Rightarrow> http_result) \<Rightarrow> (error + 'm jwk list) \<times> nat \<times> nanos list" where
  "fetch_jwks_with_retry scale show_status parse results =
     retry_transient scale retry_default (\<lambda>i. fetch_jwks show_status parse (results i))"

definition provider_new ::
  "('m jwk \<Rightarrow> 'k option) \<Rightarrow> error + 'm jwk list \<Rightarrow> string \<Rightarrow> string list \<Rightarrow> bool
    \<Rightarrow> error + 'k jwks_provider" where
  "provider_new from_jwk fetched issuer audiences is_production =
     and_then fetched (\<lambda>jwks. Inr
       \<lparr>jp_keys = build_keys from_jwk jwks issuer audiences is_production, jp_issuer = issuer,
        jp_audiences = audiences, jp_is_production = is_production\<rparr>)"

definition refresh ::
  "('m jwk \<Rightarrow> 'k option) \<Rightarrow> error + 'm jwk list \<Rightarrow> 'k jwks_provider
    \<Rightarrow> (error + unit) \<times> 'k jwks_provider" where
  "refresh from_jwk fetched p =
     (case fetched of
        Inl e \<Rightarrow> (Inl e, p)
      | Inr jwks \<Rightarrow> (Inr (), p\<lparr>jp_keys :=
          build_keys from_jwk jwks (jp_issuer p) (jp_audiences p) (jp_is_production p)\<rparr>))"

section \<open>Token validation\<close>

datatype token_error = KeyNotFound | Invalid

type_synonym 'k decoder = "'k \<Rightarrow> validation \<Rightarrow> string \<Rightarrow> json option"

definition try_decode :: "'k decoder \<Rightarrow> string \<Rightarrow> string \<Rightarrow> 'k jwks_provider \<Rightarrow> token_error + json" where
  "try_decode decode token kid p =
     (case jp_keys p kid of
        None \<Rightarrow> Inl KeyNotFound
      | Some ck \<Rightarrow> ok_or Invalid (decode (ck_decoding_key ck) (ck_validation ck) token))"

definition validate_token ::
  "(string \<Rightarrow> string option option) \<Rightarrow> ('m jwk \<Rightarrow> 'k option) \<Rightarrow> 'k decoder \<Rightarrow> error + 'm jwk list
    \<Rightarrow> string \<Rightarrow> 'k jwks_provider \<Rightarrow> (token_error + json) \<times> 'k jwks_provider" where
  "validate_token decode_header from_jwk decode fetched token p =
     (case decode_header token of
        None \<Rightarrow> (Inl Invalid, p)
      | Some None \<Rightarrow> (Inl Invalid, p)
      | Some (Some kid) \<Rightarrow>
          (case try_decode decode token kid p of
             Inr claims \<Rightarrow> (Inr claims, p)
           | Inl KeyNotFound \<Rightarrow>
               (case refresh from_jwk fetched p of
                  (Inl e, p') \<Rightarrow> (Inl Invalid, p')
                | (Inr u, p') \<Rightarrow> (try_decode decode token kid p', p'))
           | Inl Invalid \<Rightarrow> (Inl Invalid, p)))"

datatype signature_check = Valid | InvalidSignature | Unverifiable

definition verify_signature ::
  "(string \<Rightarrow> string option option) \<Rightarrow> ('m jwk \<Rightarrow> 'k option) \<Rightarrow> 'k decoder \<Rightarrow> error + 'm jwk list
    \<Rightarrow> string \<Rightarrow> 'k jwks_provider \<Rightarrow> signature_check \<times> 'k jwks_provider" where
  "verify_signature decode_header from_jwk decode fetched token p =
     (case decode_header token of
        None \<Rightarrow> (InvalidSignature, p)
      | Some None \<Rightarrow> (InvalidSignature, p)
      | Some (Some kid) \<Rightarrow>
          (let (ok, p') = (if jp_keys p kid = None
                           then (case refresh from_jwk fetched p of
                                   (Inl e, q) \<Rightarrow> (False, q) | (Inr u, q) \<Rightarrow> (True, q))
                           else (True, p))
           in if \<not> ok then (Unverifiable, p')
              else (case jp_keys p' kid of
                      None \<Rightarrow> (Unverifiable, p')
                    | Some ck \<Rightarrow>
                        (case decode (ck_decoding_key ck)
                                ((ck_validation ck)\<lparr>v_validate_exp := False, v_validate_aud := False\<rparr>)
                                token of
                           Some c \<Rightarrow> (Valid, p')
                         | None \<Rightarrow> (InvalidSignature, p')))))"

definition opt_text :: "json option \<Rightarrow> string option" where
  "opt_text v =
     (case Option.bind v json_as_str of Some s \<Rightarrow> if s = [] then None else Some s | None \<Rightarrow> None)"

definition opt_strings :: "json option \<Rightarrow> string list" where
  "opt_strings v = (case Option.bind v json_as_array of Some xs \<Rightarrow> json_strings xs | None \<Rightarrow> [])"

lemma json_as_str_iff [simp]: "json_as_str v = Some t \<longleftrightarrow> v = JString t"
  by (cases v) auto

lemma json_as_array_iff [simp]: "json_as_array v = Some xs \<longleftrightarrow> v = JArray xs"
  by (cases v) auto

lemma opt_strings_member:
  "t \<in> set (opt_strings v) \<longleftrightarrow> (\<exists>xs. v = Some (JArray xs) \<and> JString t \<in> set xs)"
proof (cases "Option.bind v json_as_array")
  case None
  then show ?thesis by (cases v) (auto simp: opt_strings_def)
next
  case (Some ys)
  then show ?thesis
    by (auto simp: opt_strings_def json_strings_def set_map_filter bind_eq_Some_conv image_iff)
qed

definition claims_to_identity :: "json \<Rightarrow> string \<Rightarrow> string option \<Rightarrow> identity option" where
  "claims_to_identity claims roles_claim access_token =
     (case Option.bind (json_get ''sub'' claims) json_as_str of
        None \<Rightarrow> None
      | Some sub \<Rightarrow> Some
          \<lparr>id_method = ByOidc, id_user = sub, id_email = opt_text (json_get ''email'' claims),
           id_groups = opt_strings (Option.bind (json_get ''realm_access'' claims) (json_get ''roles'')),
           id_roles = opt_strings (json_get roles_claim claims),
           id_preferred_username = opt_text (json_get ''preferred_username'' claims),
           id_access_token = map_option Sensitive access_token\<rparr>)"

section \<open>The middleware\<close>

record bearer_config =
  bc_passthrough :: bool
  bc_roles_claim :: string

definition bearer_token :: "request \<Rightarrow> string option" where
  "bearer_token rq =
     Option.bind (to_str_ok (rq_header rq ''authorization'')) (\<lambda>v. strip_prefix v ''Bearer '')"

definition bearer_auth_middleware ::
  "(string \<Rightarrow> string option option) \<Rightarrow> ('m jwk \<Rightarrow> 'k option) \<Rightarrow> 'k decoder \<Rightarrow> error + 'm jwk list
    \<Rightarrow> bearer_config \<Rightarrow> request \<Rightarrow> 'k jwks_provider \<Rightarrow> request decision \<times> 'k jwks_provider" where
  "bearer_auth_middleware decode_header from_jwk decode fetched c rq p =
     (case bearer_token rq of
        None \<Rightarrow>
          (if bc_passthrough c then Next rq else Reply (text_response 401 ''Missing Bearer token''), p)
      | Some token \<Rightarrow>
          (case validate_token decode_header from_jwk decode fetched token p of
             (Inr claims, p') \<Rightarrow>
               (case claims_to_identity claims (bc_roles_claim c) (Some token) of
                  Some i \<Rightarrow> (Next (with_identity i rq), p')
                | None \<Rightarrow> (Next rq, p'))
           | (Inl e, p') \<Rightarrow>
               (if bc_passthrough c then Next rq else Reply (text_response 401 ''Invalid Bearer token''),
                p')))"

interpretation bearer_layer:
  auth_layer "\<lambda>rq. fst (bearer_auth_middleware decode_header from_jwk decode fetched c rq p)"
  for decode_header from_jwk decode fetched c p
  by unfold_locales
    (auto simp: bearer_auth_middleware_def split: option.splits sum.splits prod.splits if_splits)

section \<open>What a provider accepts\<close>

text \<open>A provider as the code uses it: created from a fetched set, and refreshed any number of times.\<close>

inductive jp_reach ::
  "('m jwk \<Rightarrow> 'k option) \<Rightarrow> string \<Rightarrow> string list \<Rightarrow> bool \<Rightarrow> 'k jwks_provider \<Rightarrow> bool"
  for from_jwk issuer audiences is_production where
  created: "provider_new from_jwk fetched issuer audiences is_production = Inr p \<Longrightarrow>
    jp_reach from_jwk issuer audiences is_production p"
| refreshed: "jp_reach from_jwk issuer audiences is_production p \<Longrightarrow>
    jp_reach from_jwk issuer audiences is_production (snd (refresh from_jwk fetched p))"

definition strict_validation :: "string \<Rightarrow> string list \<Rightarrow> validation \<Rightarrow> bool" where
  "strict_validation issuer audiences v \<longleftrightarrow>
     v_validate_exp v \<and> v_iss v = Some [issuer]
     \<and> (if audiences = [] then \<not> v_validate_aud v else v_validate_aud v \<and> v_aud v = Some audiences)"

lemma key_validation_strict: "strict_validation issuer audiences (key_validation issuer audiences k)"
  by (simp add: strict_validation_def key_validation_def validation_new_def Let_def)

lemma build_keys_strict:
  "build_keys from_jwk jwks issuer audiences is_production kid = Some ck \<Longrightarrow>
   strict_validation issuer audiences (ck_validation ck) \<and> \<not> (audiences = [] \<and> is_production)"
proof -
  let ?f = "\<lambda>k m. case jwk_key_id k of
                     None \<Rightarrow> m
                   | Some kid \<Rightarrow>
                       (case from_jwk k of
                          None \<Rightarrow> m
                        | Some key \<Rightarrow> m(kid \<mapsto> \<lparr>ck_decoding_key = key,
                            ck_validation = key_validation issuer audiences k\<rparr>))"
  have inv: "\<forall>kid ck. fold ?f ks m kid = Some ck \<longrightarrow> strict_validation issuer audiences (ck_validation ck)"
    if "\<forall>kid ck. m kid = Some ck \<longrightarrow> strict_validation issuer audiences (ck_validation ck)" for ks m
    using that
  proof (induction ks arbitrary: m)
    case (Cons k ks)
    have "\<forall>kid ck. ?f k m kid = Some ck \<longrightarrow> strict_validation issuer audiences (ck_validation ck)"
      using Cons.prems key_validation_strict by (auto split: option.splits if_splits)
    then show ?case using Cons.IH by simp
  qed simp
  assume "build_keys from_jwk jwks issuer audiences is_production kid = Some ck"
  then show ?thesis using inv [of Map.empty jwks] by (auto simp: build_keys_def split: if_splits)
qed

definition provider_ok :: "string \<Rightarrow> string list \<Rightarrow> bool \<Rightarrow> 'k jwks_provider \<Rightarrow> bool" where
  "provider_ok issuer audiences is_production p \<longleftrightarrow>
     jp_issuer p = issuer \<and> jp_audiences p = audiences \<and> jp_is_production p = is_production
     \<and> (\<forall>kid ck. jp_keys p kid = Some ck \<longrightarrow>
          strict_validation issuer audiences (ck_validation ck)
          \<and> \<not> (audiences = [] \<and> is_production))"

lemma refresh_ok:
  "provider_ok issuer audiences is_production p \<Longrightarrow>
   provider_ok issuer audiences is_production (snd (refresh from_jwk fetched p))"
  using build_keys_strict by (fastforce simp: provider_ok_def refresh_def split: sum.splits)

lemma jp_reach_ok:
  "jp_reach from_jwk issuer audiences is_production p \<Longrightarrow> provider_ok issuer audiences is_production p"
proof (induction rule: jp_reach.induct)
  case (created fetched p)
  then show ?case using build_keys_strict
    by (fastforce simp: provider_ok_def provider_new_def result_simps)
next
  case (refreshed p fetched)
  show ?case using refreshed.IH by (rule refresh_ok)
qed

lemma try_decode_accepts:
  assumes "provider_ok issuer audiences is_production p" "try_decode decode token kid p = Inr claims"
  shows "\<exists>key v. decode key v token = Some claims \<and> strict_validation issuer audiences v
    \<and> \<not> (audiences = [] \<and> is_production)"
  using assms by (fastforce simp: try_decode_def provider_ok_def result_simps split: option.splits)

lemma validate_token_accepts:
  assumes "provider_ok issuer audiences is_production p"
    "fst (validate_token decode_header from_jwk decode fetched token p) = Inr claims"
  shows "\<exists>key v. decode key v token = Some claims \<and> strict_validation issuer audiences v
    \<and> \<not> (audiences = [] \<and> is_production)"
proof -
  obtain kid q where q: "try_decode decode token kid q = Inr claims"
    "q = p \<or> q = snd (refresh from_jwk fetched p)"
    using assms(2)
    by (auto simp: validate_token_def split: option.splits sum.splits token_error.splits prod.splits)
  have "provider_ok issuer audiences is_production q"
    using q(2) assms(1) refresh_ok [OF assms(1)] by blast
  then show ?thesis using q(1) by (rule try_decode_accepts)
qed


definition demo_jwk :: "unit jwk" where
  "demo_jwk = \<lparr>jwk_key_id = Some ''k1'', jwk_key_algorithm = None, jwk_material = ()\<rparr>"

definition demo_provider :: "unit jwks_provider" where
  "demo_provider =
     \<lparr>jp_keys = build_keys (\<lambda>k. Some (jwk_material k)) [demo_jwk] ''iss'' [''app''] True,
      jp_issuer = ''iss'', jp_audiences = [''app''], jp_is_production = True\<rparr>"

definition demo_decoder :: "json \<Rightarrow> unit decoder" where
  "demo_decoder claims = (\<lambda>k v token. if v_aud v = Some [''app''] \<and> token = ''tok'' then Some claims else None)"

definition bearer_request :: request where
  "bearer_request = sample_request\<lparr>rq_header :=
     (\<lambda>n. if n = ''authorization'' then HeaderText ''Bearer tok'' else Absent)\<rparr>"

definition block_mode :: bearer_config where
  "block_mode = \<lparr>bc_passthrough = False, bc_roles_claim = ''applicationRoles''\<rparr>"

lemma demo_provider_reach:
  "jp_reach (\<lambda>k. Some (jwk_material k)) ''iss'' [''app''] True demo_provider"
  by (rule jp_reach.created [where fetched = "Inr [demo_jwk]"])
    (simp add: provider_new_def demo_provider_def)

lemma demo_bearer_token: "bearer_token bearer_request = Some ''tok''"
  by (simp add: bearer_token_def bearer_request_def strip_prefix_def starts_with_def)

lemma demo_validates:
  "validate_token (\<lambda>t. Some (Some ''k1'')) from_jwk (demo_decoder claims) fetched ''tok'' demo_provider
   = (Inr claims, demo_provider)"
  by (simp add: validate_token_def try_decode_def demo_provider_def build_keys_def demo_jwk_def
      key_validation_def validation_new_def demo_decoder_def ok_or_def Let_def)


text \<open>Without passing through, a request that has no identity yet is handed on without one
exactly when its bearer token validates but its claims have no textual subject; every other
such request gets an identity or is answered with 401.\<close>
theorem bearer_block_mode_gap:
  assumes "\<not> bc_passthrough c" "\<not> present_in rq"
  shows "(\<exists>rq'. fst (bearer_auth_middleware decode_header from_jwk decode fetched c rq p) = Next rq'
        \<and> \<not> present_in rq')
    \<longleftrightarrow> (\<exists>token claims. bearer_token rq = Some token
        \<and> fst (validate_token decode_header from_jwk decode fetched token p) = Inr claims
        \<and> Option.bind (json_get ''sub'' claims) json_as_str = None)"
proof (cases "bearer_token rq")
  case None
  then show ?thesis using assms by (simp add: bearer_auth_middleware_def)
next
  case (Some token)
  obtain r p' where r: "validate_token decode_header from_jwk decode fetched token p = (r, p')"
    by fastforce
  show ?thesis
  proof (cases r)
    case (Inl e)
    then show ?thesis using assms Some r by (simp add: bearer_auth_middleware_def)
  next
    case (Inr claims)
    then show ?thesis using assms Some r
      by (cases "Option.bind (json_get ''sub'' claims) json_as_str")
        (simp_all add: bearer_auth_middleware_def claims_to_identity_def)
  qed
qed

theorem bearer_block_mode_gap_witness:
  "\<exists>rq'. fst (bearer_auth_middleware (\<lambda>t. Some (Some ''k1'')) (\<lambda>k. Some (jwk_material k))
      (demo_decoder (JObject [])) (Inl (io_error '''')) block_mode bearer_request demo_provider) = Next rq'
    \<and> \<not> present_in rq'"
proof -
  have "\<not> present_in bearer_request"
    by (simp add: present_in_def bearer_request_def sample_request_def)
  then show ?thesis
    using bearer_block_mode_gap [of block_mode bearer_request "\<lambda>t. Some (Some ''k1'')"
        "\<lambda>k. Some (jwk_material k)" "demo_decoder (JObject [])" "Inl (io_error '''')" demo_provider]
    by (simp add: block_mode_def demo_bearer_token demo_validates)
qed

end
