(* ===== verification/Oidc_Flow.thy ===== *)
theory Oidc_Flow
  imports Oidc_Bearer Config
begin

text \<open>
  \<open>src/fluent/oidc_flow.rs\<close>: discovery, login, callback and logout of the authorization code
  flow, and the middleware that turns the tokens of a session into an identity.

  Two libraries are parameters.  A handle of \<open>tower_sessions::Session\<close> is a state \<open>'s\<close> with
  the operations of a \<open>session_api\<close>; the handle is shared, so an operation whose result the
  code drops is only its effect.  The client of the \<open>openidconnect\<close> crate is a record of
  what its calls return.  Random secrets, clock readings and network answers are arguments.
\<close>

section \<open>The session\<close>

text \<open>
  \<open>ss_string\<close> and \<open>ss_u64\<close> are \<open>get::<String>\<close> and \<open>get::<u64>\<close>: an error when the record cannot
  be loaded or the value has another type.
\<close>

record 's session_api =
  ss_string :: "'s \<Rightarrow> string \<Rightarrow> string + string option"
  ss_u64 :: "'s \<Rightarrow> string \<Rightarrow> string + u64 option"
  ss_put_string :: "string \<Rightarrow> string \<Rightarrow> 's \<Rightarrow> 's"
  ss_put_u64 :: "string \<Rightarrow> u64 \<Rightarrow> 's \<Rightarrow> 's"
  ss_remove :: "string \<Rightarrow> 's \<Rightarrow> 's"
  ss_flush :: "'s \<Rightarrow> 's"

text \<open>
  What the code relies on: once a read of the session has worked, its record is in memory and
  stays there, and a write, a removal and a flush have their effect on later reads of the same
  handle and none on other keys.
\<close>

definition loaded :: "'s session_api \<Rightarrow> 's \<Rightarrow> bool" where
  "loaded api s \<longleftrightarrow> (\<exists>k x. ss_string api s k = Inr x)"

definition session_laws :: "'s session_api \<Rightarrow> bool" where
  "session_laws api \<longleftrightarrow>
     (\<forall>s. loaded api s \<longrightarrow>
        (\<forall>k v j. ss_string api (ss_put_string api k v s) j
           = (if j = k then Inr (Some v) else ss_string api s j))
      \<and> (\<forall>k n. loaded api (ss_put_u64 api k n s))
      \<and> (\<forall>k n j. j \<noteq> k \<longrightarrow> ss_string api (ss_put_u64 api k n s) j = ss_string api s j)
      \<and> (\<forall>k j. ss_string api (ss_remove api k s) j = (if j = k then Inr None else ss_string api s j))
      \<and> (\<forall>j. ss_string api (ss_flush api s) j = Inr None)
      \<and> (\<forall>k n j. ss_u64 api (ss_put_u64 api k n s) j = (if j = k then Inr (Some n) else ss_u64 api s j))
      \<and> (\<forall>k v j. j \<noteq> k \<longrightarrow> ss_u64 api (ss_put_string api k v s) j = ss_u64 api s j)
      \<and> (\<forall>k j. j \<noteq> k \<longrightarrow> ss_u64 api (ss_remove api k s) j = ss_u64 api s j))"

named_theorems session_simps "reads of a loaded session after its operations"

lemma loadedI: "ss_string api s k = Inr x \<Longrightarrow> loaded api s"
  by (auto simp: loaded_def)

lemma string_after_put [session_simps]:
  "session_laws api \<Longrightarrow> loaded api s \<Longrightarrow>
   ss_string api (ss_put_string api k v s) j = (if j = k then Inr (Some v) else ss_string api s j)"
  by (simp add: session_laws_def)

lemma string_after_put_u64 [session_simps]:
  "session_laws api \<Longrightarrow> loaded api s \<Longrightarrow> j \<noteq> k \<Longrightarrow>
   ss_string api (ss_put_u64 api k n s) j = ss_string api s j"
  by (simp add: session_laws_def)

lemma string_after_remove [session_simps]:
  "session_laws api \<Longrightarrow> loaded api s \<Longrightarrow>
   ss_string api (ss_remove api k s) j = (if j = k then Inr None else ss_string api s j)"
  by (simp add: session_laws_def)

lemma string_after_flush [session_simps]:
  "session_laws api \<Longrightarrow> loaded api s \<Longrightarrow> ss_string api (ss_flush api s) j = Inr None"
  by (simp add: session_laws_def)

lemma u64_after_put [session_simps]:
  "session_laws api \<Longrightarrow> loaded api s \<Longrightarrow>
   ss_u64 api (ss_put_u64 api k n s) j = (if j = k then Inr (Some n) else ss_u64 api s j)"
  by (simp add: session_laws_def)

lemma u64_after_others [session_simps]:
  "session_laws api \<Longrightarrow> loaded api s \<Longrightarrow> j \<noteq> k \<Longrightarrow>
   ss_u64 api (ss_put_string api k v s) j = ss_u64 api s j"
  "session_laws api \<Longrightarrow> loaded api s \<Longrightarrow> j \<noteq> k \<Longrightarrow> ss_u64 api (ss_remove api k s) j = ss_u64 api s j"
  by (simp_all add: session_laws_def)

lemma loaded_after [session_simps]:
  "session_laws api \<Longrightarrow> loaded api s \<Longrightarrow> loaded api (ss_put_string api k v s)"
  "session_laws api \<Longrightarrow> loaded api s \<Longrightarrow> loaded api (ss_put_u64 api k n s)"
  "session_laws api \<Longrightarrow> loaded api s \<Longrightarrow> loaded api (ss_remove api k s)"
  "session_laws api \<Longrightarrow> loaded api s \<Longrightarrow> loaded api (ss_flush api s)"
  by (auto intro: loadedI [where k = k] simp: string_after_put string_after_remove string_after_flush)
    (simp add: session_laws_def)

abbreviation SESSION_PKCE_VERIFIER :: string where
  "SESSION_PKCE_VERIFIER \<equiv> ''oidc_pkce_verifier''"
abbreviation SESSION_CSRF_STATE :: string where
  "SESSION_CSRF_STATE \<equiv> ''oidc_csrf_state''"
abbreviation SESSION_NONCE :: string where
  "SESSION_NONCE \<equiv> ''oidc_nonce''"
abbreviation SESSION_ACCESS_TOKEN :: string where
  "SESSION_ACCESS_TOKEN \<equiv> ''oidc_access_token''"
abbreviation SESSION_REFRESH_TOKEN :: string where
  "SESSION_REFRESH_TOKEN \<equiv> ''oidc_refresh_token''"
abbreviation SESSION_ID_TOKEN :: string where
  "SESSION_ID_TOKEN \<equiv> ''oidc_id_token''"
abbreviation SESSION_TOKEN_EXPIRY :: string where
  "SESSION_TOKEN_EXPIRY \<equiv> ''oidc_token_expiry''"
abbreviation SESSION_RETURN_URL :: string where
  "SESSION_RETURN_URL \<equiv> ''oidc_return_url''"

text \<open>\<open>session.get(..).await.ok().flatten()\<close>\<close>

fun ok_flatten :: "'e + 'a option \<Rightarrow> 'a option" where
  "ok_flatten (Inr v) = v"
| "ok_flatten (Inl e) = None"

section \<open>The client\<close>

record token_response =
  tr_access_token :: string
  tr_refresh_token :: "string option"
  tr_id_token :: "string option"
  tr_expires_in :: "u64 option"

text \<open>
  \<open>cl_authorize_url\<close> takes the scopes, the PKCE challenge, the state and the nonce;
  \<open>cl_token_endpoint\<close> is the error of a missing token endpoint; \<open>cl_id_token_claims\<close> takes the
  verifier of further audiences, the nonce and the ID token.
\<close>

record openid_client =
  cl_authorize_url :: "string list \<Rightarrow> string \<Rightarrow> string \<Rightarrow> string \<Rightarrow> string"
  cl_token_endpoint :: "string + unit"
  cl_request_code :: "string \<Rightarrow> string \<Rightarrow> string + token_response"
  cl_request_refresh :: "string \<Rightarrow> string + token_response"
  cl_id_token_claims :: "(string \<Rightarrow> bool) \<Rightarrow> string \<Rightarrow> string \<Rightarrow> string + unit"

record 'k oidc_client =
  fl_client :: openid_client
  fl_scopes :: "string list"
  fl_audiences :: "string list"
  fl_post_login_redirect :: string
  fl_post_logout_redirect :: string
  fl_end_session_url :: "string option"
  fl_id_token_keys :: "'k jwks_provider"

section \<open>Discovery\<close>

datatype discovery_error = RequestError string | ResponseError nat string | OtherDiscoveryError string

fun discovery_text :: "discovery_error \<Rightarrow> string" where
  "discovery_text (RequestError t) = t"
| "discovery_text (ResponseError s t) = t"
| "discovery_text (OtherDiscoveryError t) = t"

fun map_discovery_error :: "discovery_error \<Rightarrow> error" where
  "map_discovery_error (RequestError t) = io_error (''OIDC discovery failed: '' @ t)"
| "map_discovery_error (ResponseError s t) =
     (if 500 \<le> s \<and> s < 600 then io_error (''OIDC discovery failed: '' @ t)
      else config_error (''OIDC discovery failed: '' @ t))"
| "map_discovery_error (OtherDiscoveryError t) = config_error (''OIDC discovery failed: '' @ t)"

definition resolve_end_session_url :: "string option \<Rightarrow> string \<Rightarrow> bool \<Rightarrow> string option" where
  "resolve_end_session_url discovered issuer realm_configured =
     (case discovered of
        Some u \<Rightarrow> Some u
      | None \<Rightarrow> if realm_configured then Some (issuer @ ''/protocol/openid-connect/logout'') else None)"

definition with_realm_hint :: "error \<Rightarrow> string \<Rightarrow> string \<Rightarrow> error" where
  "with_realm_hint err issuer realm =
     (if trim realm = [] then err
      else error_new (error_kind_of err)
        (error_display err @ ''; issuer resolved to `'' @ issuer
          @ ''`; if your provider is not Keycloak, unset `realm`''))"

record provider_metadata =
  pm_end_session_endpoint :: "string option"
  pm_jwks_uri :: string

text \<open>
  \<open>issuer_url\<close> is \<open>IssuerUrl::new\<close>, \<open>http_client\<close> the result of building the HTTP client and
  \<open>answers\<close> what the successive discovery requests return.
\<close>

definition discover_provider_metadata ::
  "(u32 \<Rightarrow> nanos \<Rightarrow> nanos) \<Rightarrow> (string \<Rightarrow> string + 'u) \<Rightarrow> error + unit
    \<Rightarrow> ('u \<Rightarrow> nat \<Rightarrow> discovery_error + 'd provider_metadata_scheme) \<Rightarrow> string \<Rightarrow> string
    \<Rightarrow> error + 'd provider_metadata_scheme" where
  "discover_provider_metadata scale issuer_url http_client answers issuer realm =
     and_then (map_err (\<lambda>e. config_error (''Invalid OIDC issuer URL: '' @ e)) (issuer_url issuer))
       (\<lambda>u. and_then http_client
         (\<lambda>_. map_err (\<lambda>e. with_realm_hint e issuer realm)
            (fst (retry_transient scale retry_default
               (\<lambda>i. map_err map_discovery_error (answers u i))))))"

text \<open>
  \<open>metadata\<close> is the result of \<open>discover_provider_metadata\<close>, \<open>fetch_keys\<close> the JWK set fetched from
  a URI, \<open>redirect_url\<close> is \<open>RedirectUrl::new\<close> and \<open>from_metadata\<close> builds the client.
\<close>

definition discover ::
  "(oidc_config \<Rightarrow> error + 'd provider_metadata_scheme) \<Rightarrow> ('m jwk \<Rightarrow> 'k option)
    \<Rightarrow> (string \<Rightarrow> error + 'm jwk list) \<Rightarrow> error + unit \<Rightarrow> (string \<Rightarrow> string + 'r)
    \<Rightarrow> ('d provider_metadata_scheme \<Rightarrow> string \<Rightarrow> string \<Rightarrow> 'r \<Rightarrow> openid_client)
    \<Rightarrow> oidc_config \<Rightarrow> error + 'k oidc_client" where
  "discover metadata from_jwk fetch_keys http_client redirect_url from_metadata c =
     and_then (metadata c) (\<lambda>pm.
     and_then (provider_new from_jwk (fetch_keys (pm_jwks_uri pm)) (oidc_issuer c) [oc_client_id c] False) (\<lambda>keys.
     and_then http_client (\<lambda>_.
     and_then (ok_or (config_error ''OIDC redirect_uri is required for auth code flow'') (oc_redirect_uri c)) (\<lambda>uri.
     and_then (map_err (\<lambda>e. config_error (''Invalid OIDC redirect_uri: '' @ e)) (redirect_url uri)) (\<lambda>ru. Inr
       \<lparr>fl_client = from_metadata pm (oc_client_id c) (expose_secret (oc_client_secret c)) ru,
        fl_scopes = oc_scopes c, fl_audiences = oc_audiences c,
        fl_post_login_redirect = oc_post_login_redirect c,
        fl_post_logout_redirect = oc_post_logout_redirect c,
        fl_end_session_url = resolve_end_session_url (pm_end_session_endpoint pm) (oidc_issuer c)
          (trim (oc_realm c) \<noteq> []),
        fl_id_token_keys = keys\<rparr>)))))"

section \<open>Refreshing tokens\<close>

record refreshed_tokens =
  rt_access :: string
  rt_refresh :: "string option"
  rt_id_token :: "string option"
  rt_expiry :: u64

abbreviation DEFAULT_TOKEN_LIFETIME_SECS :: u64 where
  "DEFAULT_TOKEN_LIFETIME_SECS \<equiv> 300"

text \<open>The sum is the code's \<open>u64\<close> addition as a release build performs it.\<close>

definition token_expiry :: "u64 \<Rightarrow> u64 option \<Rightarrow> u64" where
  "token_expiry now expires_in =
     (case expires_in of None \<Rightarrow> now + DEFAULT_TOKEN_LIFETIME_SECS | Some d \<Rightarrow> now + d)"

definition refresh_tokens :: "u64 \<Rightarrow> 'k oidc_client \<Rightarrow> string \<Rightarrow> error + refreshed_tokens" where
  "refresh_tokens now oc refresh_token =
     and_then (map_err (\<lambda>e. authentication_error (''Token endpoint not configured: '' @ e))
         (cl_token_endpoint (fl_client oc)))
       (\<lambda>_. and_then (map_err (\<lambda>e. authentication_error (''Token refresh failed: '' @ e))
           (cl_request_refresh (fl_client oc) refresh_token))
         (\<lambda>r. Inr \<lparr>rt_access = tr_access_token r, rt_refresh = tr_refresh_token r,
                   rt_id_token = tr_id_token r, rt_expiry = token_expiry now (tr_expires_in r)\<rparr>))"

section \<open>Handlers\<close>

text \<open>
  The arguments before the client are the random challenge, verifier, state and nonce; the
  result is the target of the redirect and the session.
\<close>

definition login_handler ::
  "'s session_api \<Rightarrow> string \<Rightarrow> string \<Rightarrow> string \<Rightarrow> string \<Rightarrow> 'k oidc_client \<Rightarrow> 's \<Rightarrow> string \<times> 's" where
  "login_handler api challenge verifier csrf nonce oc s =
     (cl_authorize_url (fl_client oc) (fl_scopes oc) challenge csrf nonce,
      ss_put_string api SESSION_NONCE nonce
        (ss_put_string api SESSION_CSRF_STATE csrf
          (ss_put_string api SESSION_PKCE_VERIFIER verifier s)))"

definition session_get :: "'s session_api \<Rightarrow> 's \<Rightarrow> string \<Rightarrow> string \<Rightarrow> error + string" where
  "session_get api s key missing =
     and_then (map_err (\<lambda>e. authentication_error (''Session error: '' @ e)) (ss_string api s key))
       (\<lambda>v. ok_or (authentication_error missing) v)"

text \<open>The part of the callback that can fail: it does not change the session.\<close>

definition callback_exchange ::
  "'s session_api \<Rightarrow> string \<Rightarrow> string \<Rightarrow> 'k oidc_client \<Rightarrow> 's
    \<Rightarrow> error + token_response \<times> string" where
  "callback_exchange api code state oc s =
     and_then (session_get api s SESSION_CSRF_STATE ''Missing CSRF state in session'') (\<lambda>stored.
     if state \<noteq> stored then Inl (authentication_error ''CSRF state mismatch'') else
     and_then (session_get api s SESSION_PKCE_VERIFIER ''Missing PKCE verifier in session'') (\<lambda>verifier.
     and_then (session_get api s SESSION_NONCE ''Missing nonce in session'') (\<lambda>nonce.
     and_then (map_err (\<lambda>e. authentication_error (''Token endpoint not configured: '' @ e))
         (cl_token_endpoint (fl_client oc))) (\<lambda>_.
     and_then (map_err (\<lambda>e. authentication_error (''Token exchange failed: '' @ e))
         (cl_request_code (fl_client oc) code verifier)) (\<lambda>tr.
     and_then (ok_or (authentication_error ''No ID token in response'') (tr_id_token tr)) (\<lambda>jwt.
     and_then (map_err (\<lambda>e. authentication_error (''ID token validation failed: '' @ e))
         (cl_id_token_claims (fl_client oc) (\<lambda>aud. aud \<in> set (fl_audiences oc)) nonce jwt)) (\<lambda>_.
     Inr (tr, jwt))))))))"

definition store_tokens ::
  "'s session_api \<Rightarrow> u64 \<Rightarrow> token_response \<Rightarrow> string \<Rightarrow> 's \<Rightarrow> 's" where
  "store_tokens api now tr jwt s =
     (let s1 = ss_put_string api SESSION_ACCESS_TOKEN (tr_access_token tr) s;
          s2 = (case tr_refresh_token tr of
                  Some r \<Rightarrow> ss_put_string api SESSION_REFRESH_TOKEN r s1 | None \<Rightarrow> s1);
          s3 = ss_put_string api SESSION_ID_TOKEN jwt s2
      in ss_put_u64 api SESSION_TOKEN_EXPIRY (token_expiry now (tr_expires_in tr)) s3)"

definition clear_flow_state :: "'s session_api \<Rightarrow> 's \<Rightarrow> 's" where
  "clear_flow_state api s =
     ss_remove api SESSION_NONCE (ss_remove api SESSION_CSRF_STATE (ss_remove api SESSION_PKCE_VERIFIER s))"

definition redirect_target :: "string option \<Rightarrow> 'k oidc_client \<Rightarrow> string" where
  "redirect_target return_url oc =
     (case return_url of
        Some u \<Rightarrow> if is_safe_local_path u then u else fl_post_login_redirect oc
      | None \<Rightarrow> fl_post_login_redirect oc)"

definition callback_handler ::
  "'s session_api \<Rightarrow> u64 \<Rightarrow> string \<Rightarrow> string \<Rightarrow> 'k oidc_client \<Rightarrow> 's
    \<Rightarrow> (error + string) \<times> 's" where
  "callback_handler api now code state oc s =
     (case callback_exchange api code state oc s of
        Inl e \<Rightarrow> (Inl e, s)
      | Inr (tr, jwt) \<Rightarrow>
          (let s' = clear_flow_state api (store_tokens api now tr jwt s)
           in (Inr (redirect_target (ok_flatten (ss_string api s' SESSION_RETURN_URL)) oc),
               ss_remove api SESSION_RETURN_URL s')))"

text \<open>
  \<open>parse\<close>, \<open>add_pair\<close> and \<open>show\<close> are \<open>Url::parse\<close>, \<open>query_pairs_mut().append_pair\<close> and \<open>as_str\<close>;
  \<open>fallback\<close> is the constant URL of last resort.
\<close>

definition logout_handler ::
  "'s session_api \<Rightarrow> (string \<Rightarrow> 'u option) \<Rightarrow> (string \<Rightarrow> string \<Rightarrow> 'u \<Rightarrow> 'u) \<Rightarrow> ('u \<Rightarrow> string) \<Rightarrow> 'u
    \<Rightarrow> 'k oidc_client \<Rightarrow> 's \<Rightarrow> string \<times> 's" where
  "logout_handler api parse add_pair show fallback oc s =
     (let hint = ok_flatten (ss_string api s SESSION_ID_TOKEN);
          target = (case fl_end_session_url oc of
             None \<Rightarrow> fl_post_logout_redirect oc
           | Some end_session \<Rightarrow>
               (let url = (case parse end_session of
                             Some u \<Rightarrow> u
                           | None \<Rightarrow> (case parse (fl_post_logout_redirect oc) of
                                       Some u \<Rightarrow> u | None \<Rightarrow> fallback));
                    url' = (case hint of Some t \<Rightarrow> add_pair ''id_token_hint'' t url | None \<Rightarrow> url)
                in show (add_pair ''post_logout_redirect_uri'' (fl_post_logout_redirect oc) url')))
      in (target, ss_flush api s))"

section \<open>From session to identity\<close>

text \<open>
  \<open>decode_base64\<close> is the URL-safe decoder without padding and \<open>parse_json\<close> is
  \<open>serde_json::from_slice\<close>.
\<close>

definition json_text :: "json option \<Rightarrow> string option" where
  "json_text v = Option.bind v json_as_str"

definition parse_id_token_to_identity ::
  "(string \<Rightarrow> string option) \<Rightarrow> (string \<Rightarrow> json option) \<Rightarrow> string \<Rightarrow> string option \<Rightarrow> string
    \<Rightarrow> identity option" where
  "parse_id_token_to_identity decode_base64 parse_json jwt access_token roles_claim =
     (case split_on CHR ''.'' jwt of
        [header, payload, sig] \<Rightarrow>
          Option.bind (Option.bind (decode_base64 payload) parse_json) (\<lambda>claims.
          Option.bind (json_text (json_get ''sub'' claims)) (\<lambda>sub. Some
            \<lparr>id_method = ByOidc, id_user = sub, id_email = json_text (json_get ''email'' claims),
             id_groups = opt_strings (Option.bind (json_get ''realm_access'' claims) (json_get ''roles'')),
             id_roles = opt_strings (json_get roles_claim claims),
             id_preferred_username = json_text (json_get ''preferred_username'' claims),
             id_access_token = map_option Sensitive access_token\<rparr>))
      | _ \<Rightarrow> None)"

definition is_expired :: "u64 \<Rightarrow> u64 option \<Rightarrow> bool" where
  "is_expired now expiry =
     (case expiry of None \<Rightarrow> False | Some e \<Rightarrow> unat e - 30 \<le> unat now)"

text \<open>The session after a successful refresh.\<close>

definition store_refreshed :: "'s session_api \<Rightarrow> refreshed_tokens \<Rightarrow> 's \<Rightarrow> 's" where
  "store_refreshed api r s =
     (let s1 = ss_put_string api SESSION_ACCESS_TOKEN (rt_access r) s;
          s2 = (case rt_refresh r of
                  Some t \<Rightarrow> ss_put_string api SESSION_REFRESH_TOKEN t s1 | None \<Rightarrow> s1);
          s3 = (case rt_id_token r of
                  Some t \<Rightarrow> ss_put_string api SESSION_ID_TOKEN t s2 | None \<Rightarrow> s2)
      in ss_put_u64 api SESSION_TOKEN_EXPIRY (rt_expiry r) s3)"

text \<open>
  The first half: \<open>None\<close> when the request goes on without an identity.  \<open>refresh_now\<close> is the
  second reading of the clock.
\<close>

definition session_refresh ::
  "'s session_api \<Rightarrow> u64 \<Rightarrow> u64 \<Rightarrow> 'k oidc_client option \<Rightarrow> 's \<Rightarrow> bool \<times> 's" where
  "session_refresh api now refresh_now client s =
     (if \<not> is_expired now (ok_flatten (ss_u64 api s SESSION_TOKEN_EXPIRY)) then (True, s)
      else case (client, ok_flatten (ss_string api s SESSION_REFRESH_TOKEN)) of
             (Some oc, Some token) \<Rightarrow>
               (case refresh_tokens refresh_now oc token of
                  Inr r \<Rightarrow> (True, store_refreshed api r s)
                | Inl e \<Rightarrow> (False, ss_flush api s))
           | _ \<Rightarrow> (False, ss_flush api s))"

text \<open>
  The second half.  \<open>verify\<close> is \<open>verify_id_token_signature\<close>, which may refresh the keys of the
  shared client.
\<close>

definition session_attach ::
  "'s session_api \<Rightarrow> (string \<Rightarrow> 'k oidc_client \<Rightarrow> signature_check \<times> 'k oidc_client)
    \<Rightarrow> (string \<Rightarrow> string option \<Rightarrow> identity option)
    \<Rightarrow> request \<Rightarrow> 'k oidc_client option \<Rightarrow> 's \<Rightarrow> request \<times> 's \<times> 'k oidc_client option" where
  "session_attach api verify parse rq client s =
     (case ss_string api s SESSION_ID_TOKEN of
        Inr (Some jwt) \<Rightarrow>
          (let (check, client') =
                 (case client of
                    Some oc \<Rightarrow> (case verify jwt oc of (c, oc') \<Rightarrow> (Some c, Some oc'))
                  | None \<Rightarrow> (None, None))
           in if check = Some InvalidSignature then (rq, ss_flush api s, client')
              else (case parse jwt (ok_flatten (ss_string api s SESSION_ACCESS_TOKEN)) of
                      Some i \<Rightarrow> (with_identity i rq, s, client')
                    | None \<Rightarrow> (rq, s, client')))
      | _ \<Rightarrow> (rq, s, client))"

definition session_to_identity ::
  "'s session_api \<Rightarrow> (string \<Rightarrow> 'k oidc_client \<Rightarrow> signature_check \<times> 'k oidc_client)
    \<Rightarrow> (string \<Rightarrow> string option \<Rightarrow> identity option) \<Rightarrow> u64 \<Rightarrow> u64
    \<Rightarrow> request \<Rightarrow> 'k oidc_client option \<Rightarrow> 's \<Rightarrow> request decision \<times> 's \<times> 'k oidc_client option" where
  "session_to_identity api verify parse now refresh_now rq client s =
     (if present_in rq then (Next rq, s, client)
      else if \<not> rq_has_session rq then (Next rq, s, client)
      else if ok_flatten (ss_string api s SESSION_ACCESS_TOKEN) = None then (Next rq, s, client)
      else (case session_refresh api now refresh_now client s of
              (False, s') \<Rightarrow> (Next rq, s', client)
            | (True, s') \<Rightarrow>
                (case session_attach api verify parse rq client s' of
                   (rq', s'', client') \<Rightarrow> (Next rq', s'', client'))))"

definition verify_id_token_signature ::
  "(string \<Rightarrow> string option option) \<Rightarrow> ('m jwk \<Rightarrow> 'k option) \<Rightarrow> 'k decoder \<Rightarrow> error + 'm jwk list
    \<Rightarrow> string \<Rightarrow> 'k oidc_client \<Rightarrow> signature_check \<times> 'k oidc_client" where
  "verify_id_token_signature decode_header from_jwk decode fetched jwt oc =
     (case verify_signature decode_header from_jwk decode fetched jwt (fl_id_token_keys oc) of
        (check, keys) \<Rightarrow> (check, oc\<lparr>fl_id_token_keys := keys\<rparr>))"

lemma session_attach_cases:
  assumes "session_attach api verify parse rq client s = (rq', s', client')"
  shows "rq' = rq \<or> (\<exists>jwt i. ss_string api s SESSION_ID_TOKEN = Inr (Some jwt)
      \<and> parse jwt (ok_flatten (ss_string api s SESSION_ACCESS_TOKEN)) = Some i
      \<and> rq' = with_identity i rq \<and> s' = s
      \<and> (\<forall>oc. client = Some oc \<longrightarrow> fst (verify jwt oc) \<noteq> InvalidSignature))"
  using assms
  by (auto simp: session_attach_def Let_def split: sum.splits option.splits prod.splits if_splits)

interpretation session_layer:
  auth_layer "\<lambda>rq. fst (session_to_identity api verify parse now refresh_now rq client s)"
  for api verify parse now refresh_now client s
proof (unfold_locales, goal_cases)
  case (1 rq rq')
  then show ?case
    by (auto simp: session_to_identity_def split: if_splits prod.splits bool.splits
        dest!: session_attach_cases)
next
  case (2 rq rq')
  then show ?case by (simp add: session_to_identity_def)
qed

text \<open>
  As \<open>setup_oidc\<close> installs them the session layer runs first and the bearer layer behind it;
  together they are one authentication layer.
\<close>

interpretation session_then_bearer:
  auth_pair
    "\<lambda>rq. fst (session_to_identity api verify parse now refresh_now rq client s)"
    "\<lambda>rq. fst (bearer_auth_middleware decode_header from_jwk decode fetched c rq p)"
  for api verify parse now refresh_now client s decode_header from_jwk decode fetched c p
  by unfold_locales

section \<open>What the flow guarantees\<close>

lemma session_get_Inr: "session_get api s k m = Inr v \<longleftrightarrow> ss_string api s k = Inr (Some v)"
  by (auto simp: session_get_def result_simps)

lemma callback_exchange_Inr:
  assumes "callback_exchange api code state oc s = Inr (tr, jwt)"
  shows "ss_string api s SESSION_CSRF_STATE = Inr (Some state)
    \<and> (\<exists>verifier nonce. ss_string api s SESSION_PKCE_VERIFIER = Inr (Some verifier)
        \<and> ss_string api s SESSION_NONCE = Inr (Some nonce)
        \<and> cl_request_code (fl_client oc) code verifier = Inr tr \<and> tr_id_token tr = Some jwt
        \<and> cl_id_token_claims (fl_client oc) (\<lambda>aud. aud \<in> set (fl_audiences oc)) nonce jwt = Inr ())"
  using assms by (auto simp: callback_exchange_def result_simps session_get_Inr split: if_splits)

lemma loaded_store_tokens [session_simps]:
  "session_laws api \<Longrightarrow> loaded api s \<Longrightarrow> loaded api (store_tokens api now tr jwt s)"
  by (simp add: store_tokens_def Let_def session_simps split: option.split)

lemma loaded_clear_flow_state [session_simps]:
  "session_laws api \<Longrightarrow> loaded api s \<Longrightarrow> loaded api (clear_flow_state api s)"
  by (simp add: clear_flow_state_def session_simps)

lemma store_tokens_read [session_simps]:
  assumes "session_laws api" "loaded api s"
  shows "ss_string api (store_tokens api now tr jwt s) SESSION_ACCESS_TOKEN
      = Inr (Some (tr_access_token tr))"
    and "ss_string api (store_tokens api now tr jwt s) SESSION_ID_TOKEN = Inr (Some jwt)"
    and "ss_u64 api (store_tokens api now tr jwt s) SESSION_TOKEN_EXPIRY
      = Inr (Some (token_expiry now (tr_expires_in tr)))"
    and "k \<notin> {SESSION_ACCESS_TOKEN, SESSION_REFRESH_TOKEN, SESSION_ID_TOKEN, SESSION_TOKEN_EXPIRY} \<Longrightarrow>
      ss_string api (store_tokens api now tr jwt s) k = ss_string api s k"
  using assms by (simp_all add: store_tokens_def Let_def session_simps split: option.split)

lemma clear_flow_state_read [session_simps]:
  assumes "session_laws api" "loaded api s"
  shows "ss_string api (clear_flow_state api s) k =
    (if k \<in> {SESSION_PKCE_VERIFIER, SESSION_CSRF_STATE, SESSION_NONCE} then Inr None
     else ss_string api s k)"
  using assms by (simp add: clear_flow_state_def session_simps)

lemma redirect_target_safe:
  "redirect_target u oc = fl_post_login_redirect oc \<or> is_safe_local_path (redirect_target u oc)"
  by (simp add: redirect_target_def split: option.split)


lemma callback_missing_state:
  "ss_string api s SESSION_CSRF_STATE = Inr None \<Longrightarrow>
   callback_handler api now code state oc s
   = (Inl (authentication_error ''Missing CSRF state in session''), s)"
  by (simp add: callback_handler_def callback_exchange_def session_get_def ok_or_def)

text \<open>C5: (authorization callback) A callback succeeds only with the state that the login stored in this very
session, after an exchange with the stored PKCE verifier whose ID token passed the
library's verification against the stored nonce.  Then the session holds exactly those
tokens with a finite expiry, the redirect goes to a path on this site or to the configured
page, and the flow state is used up: no later callback on the session succeeds.  A failed
callback leaves the session as it was.\<close>
theorem callback_correct:
  assumes laws: "session_laws api"
    and cb: "callback_handler api now code state oc s = (r, s')"
  shows "(case r of
      Inl e \<Rightarrow> s' = s
    | Inr target \<Rightarrow>
        (\<exists>verifier nonce tr jwt. ss_string api s SESSION_CSRF_STATE = Inr (Some state)
          \<and> ss_string api s SESSION_PKCE_VERIFIER = Inr (Some verifier)
          \<and> ss_string api s SESSION_NONCE = Inr (Some nonce)
          \<and> cl_request_code (fl_client oc) code verifier = Inr tr
          \<and> cl_id_token_claims (fl_client oc) (\<lambda>aud. aud \<in> set (fl_audiences oc)) nonce jwt = Inr ()
          \<and> ss_string api s' SESSION_ACCESS_TOKEN = Inr (Some (tr_access_token tr))
          \<and> ss_string api s' SESSION_ID_TOKEN = Inr (Some jwt) \<and> tr_id_token tr = Some jwt)
        \<and> (target = fl_post_login_redirect oc \<or> is_safe_local_path target)
        \<and> (\<forall>now' code' state'. callback_handler api now' code' state' oc s'
            = (Inl (authentication_error ''Missing CSRF state in session''), s')))"
proof (cases "callback_exchange api code state oc s")
  case (Inl e)
  then show ?thesis using cb by (auto simp: callback_handler_def)
next
  case (Inr v)
  obtain tr jwt where v: "v = (tr, jwt)" by fastforce
  note ex = callback_exchange_Inr [OF Inr [unfolded v]]
  then have load: "loaded api s" by (blast intro: loadedI)
  let ?t = "clear_flow_state api (store_tokens api now tr jwt s)"
  have r: "r = Inr (redirect_target (ok_flatten (ss_string api ?t SESSION_RETURN_URL)) oc)"
    and s': "s' = ss_remove api SESSION_RETURN_URL ?t"
    using cb Inr v by (auto simp: callback_handler_def Let_def)
  have "ss_string api s' SESSION_ACCESS_TOKEN = Inr (Some (tr_access_token tr))"
    "ss_string api s' SESSION_ID_TOKEN = Inr (Some jwt)"
    "ss_string api s' SESSION_CSRF_STATE = Inr None"
    unfolding s' using laws load by (simp_all add: session_simps)
  moreover have "callback_handler api now' code' state' oc s'
      = (Inl (authentication_error ''Missing CSRF state in session''), s')" for now' code' state'
    using calculation(3) by (rule callback_missing_state)
  ultimately show ?thesis
    using ex r redirect_target_safe [of "ok_flatten (ss_string api ?t SESSION_RETURN_URL)" oc] by auto
qed

lemma ok_flatten_iff: "ok_flatten r = Some v \<longleftrightarrow> r = Inr (Some v)"
  by (cases r) auto

lemma session_refresh_cases:
  assumes "session_refresh api now refresh_now client s = (ok, t)"
  obtains (fresh) "ok" "t = s" "\<not> is_expired now (ok_flatten (ss_u64 api s SESSION_TOKEN_EXPIRY))"
  | (refreshed) oc token r where "ok" "client = Some oc"
      "ss_string api s SESSION_REFRESH_TOKEN = Inr (Some token)"
      "refresh_tokens refresh_now oc token = Inr r" "t = store_refreshed api r s"
  | (failed) "\<not> ok" "t = ss_flush api s"
      "is_expired now (ok_flatten (ss_u64 api s SESSION_TOKEN_EXPIRY))"
proof (cases "is_expired now (ok_flatten (ss_u64 api s SESSION_TOKEN_EXPIRY))")
  case False
  then show ?thesis using assms fresh by (simp add: session_refresh_def)
next
  case expired: True
  show ?thesis
  proof (cases "\<exists>oc token r. client = Some oc \<and> ss_string api s SESSION_REFRESH_TOKEN = Inr (Some token)
      \<and> refresh_tokens refresh_now oc token = Inr r")
    case True
    then obtain oc token r where "client = Some oc"
      "ss_string api s SESSION_REFRESH_TOKEN = Inr (Some token)"
      "refresh_tokens refresh_now oc token = Inr r" by blast
    moreover from this have "ok" "t = store_refreshed api r s"
      using assms expired by (simp_all add: session_refresh_def)
    ultimately show ?thesis using refreshed by blast
  next
    case False
    have "(ok, t) = (False, ss_flush api s)"
    proof (cases client)
      case None
      then show ?thesis using assms expired by (simp add: session_refresh_def)
    next
      case oc: (Some oc)
      show ?thesis
      proof (cases "ok_flatten (ss_string api s SESSION_REFRESH_TOKEN)")
        case None
        then show ?thesis using assms expired oc by (simp add: session_refresh_def)
      next
        case token: (Some token)
        with False oc obtain e where "refresh_tokens refresh_now oc token = Inl e"
          by (cases "refresh_tokens refresh_now oc token") (auto simp: ok_flatten_iff)
        then show ?thesis using assms expired oc token by (simp add: session_refresh_def)
      qed
    qed
    then show ?thesis using expired failed by simp
  qed
qed

text \<open>C11: (session identities) The session middleware never rejects a request and never touches one that has an
identity.  It attaches one only from an ID token of a session with an access token that was
not about to expire or has just been refreshed, and whose signature the provider's keys did
not refute.  A session that is expired and cannot be refreshed is flushed and the request
goes on anonymous.\<close>
theorem session_identity_sound:
  assumes run: "session_to_identity api verify parse now refresh_now rq client s = (d, s', client')"
  shows "\<exists>rq'. d = Next rq' \<and> (present_in rq \<longrightarrow> rq' = rq \<and> s' = s)
    \<and> (rq' \<noteq> rq \<longrightarrow> (\<exists>jwt i. rq' = with_identity i rq
        \<and> ok_flatten (ss_string api s SESSION_ACCESS_TOKEN) \<noteq> None
        \<and> ss_string api s' SESSION_ID_TOKEN = Inr (Some jwt)
        \<and> parse jwt (ok_flatten (ss_string api s' SESSION_ACCESS_TOKEN)) = Some i
        \<and> (\<forall>oc. client = Some oc \<longrightarrow> fst (verify jwt oc) \<noteq> InvalidSignature)
        \<and> (is_expired now (ok_flatten (ss_u64 api s SESSION_TOKEN_EXPIRY)) \<longrightarrow>
            (\<exists>oc token r. client = Some oc
              \<and> ss_string api s SESSION_REFRESH_TOKEN = Inr (Some token)
              \<and> refresh_tokens refresh_now oc token = Inr r \<and> s' = store_refreshed api r s))))
    \<and> (\<not> present_in rq \<and> rq_has_session rq
        \<and> ok_flatten (ss_string api s SESSION_ACCESS_TOKEN) \<noteq> None
        \<and> is_expired now (ok_flatten (ss_u64 api s SESSION_TOKEN_EXPIRY))
        \<and> (\<forall>oc token. client = Some oc \<and> ss_string api s SESSION_REFRESH_TOKEN = Inr (Some token)
            \<longrightarrow> (\<exists>e. refresh_tokens refresh_now oc token = Inl e))
       \<longrightarrow> rq' = rq \<and> s' = ss_flush api s)"
proof (cases "present_in rq \<or> \<not> rq_has_session rq
    \<or> ok_flatten (ss_string api s SESSION_ACCESS_TOKEN) = None")
  case True
  then show ?thesis using run by (auto simp: session_to_identity_def split: if_splits)
next
  case False
  obtain ok t where t: "session_refresh api now refresh_now client s = (ok, t)" by fastforce
  have some: "d = (if ok then Next (fst (session_attach api verify parse rq client t)) else Next rq)"
    "s' = (if ok then fst (snd (session_attach api verify parse rq client t)) else t)"
    using run False t by (auto simp: session_to_identity_def split: prod.splits)
  from t show ?thesis
  proof (cases rule: session_refresh_cases)
    case fresh
    then show ?thesis using some False
        session_attach_cases [of api verify parse rq client t]
      by (cases "session_attach api verify parse rq client t") auto
  next
    case (refreshed oc token r)
    then show ?thesis using some False
        session_attach_cases [of api verify parse rq client t]
      by (cases "session_attach api verify parse rq client t") auto
  next
    case failed
    then show ?thesis using some False by simp
  qed
qed

lemma session_layer_result:
  "\<exists>rq1. fst (session_to_identity api verify parse now refresh_now rq client s) = Next rq1
    \<and> (rq1 = rq \<or> (\<exists>i. rq1 = with_identity i rq))"
proof -
  obtain ok t where t: "session_refresh api now refresh_now client s = (ok, t)" by fastforce
  obtain rq' s' client' where a: "session_attach api verify parse rq client t = (rq', s', client')"
    by (cases "session_attach api verify parse rq client t") auto
  from session_attach_cases [OF a] show ?thesis
    by (cases ok) (auto simp: session_to_identity_def t a)
qed

text \<open>The identity that the token of a request alone gives it.\<close>

definition bearer_identity ::
  "(string \<Rightarrow> string option option) \<Rightarrow> ('m jwk \<Rightarrow> 'k option) \<Rightarrow> 'k decoder \<Rightarrow> error + 'm jwk list
    \<Rightarrow> bearer_config \<Rightarrow> request \<Rightarrow> 'k jwks_provider \<Rightarrow> identity option" where
  "bearer_identity decode_header from_jwk decode fetched c rq p =
     Option.bind (bearer_token rq) (\<lambda>token.
       case fst (validate_token decode_header from_jwk decode fetched token p) of
         Inr claims \<Rightarrow> claims_to_identity claims (bc_roles_claim c) (Some token)
       | Inl e \<Rightarrow> None)"

lemma passthrough_bearer:
  assumes "bc_passthrough c"
  shows "fst (bearer_auth_middleware decode_header from_jwk decode fetched c rq p)
    = Next (case bearer_identity decode_header from_jwk decode fetched c rq p of
              Some i \<Rightarrow> with_identity i rq | None \<Rightarrow> rq)"
  using assms
  by (auto simp: bearer_auth_middleware_def bearer_identity_def
      split: option.split sum.split prod.split)

text \<open>C14: (bearer before session) With the authorization code flow the session layer runs first and the bearer
layer behind it passes requests through.  Together they give a request the identity of its
bearer token whenever the token validates and names a subject, whatever the session says,
and otherwise exactly what the session layer alone gives it.\<close>
theorem bearer_takes_precedence:
  assumes "bc_passthrough c"
  shows "run_layers
      [\<lambda>rq. fst (session_to_identity api verify parse now refresh_now rq client s),
       \<lambda>rq. fst (bearer_auth_middleware decode_header from_jwk decode fetched c rq p)] rq
    = (case bearer_identity decode_header from_jwk decode fetched c rq p of
         Some i \<Rightarrow> Next (with_identity i rq)
       | None \<Rightarrow> fst (session_to_identity api verify parse now refresh_now rq client s))"
proof -
  obtain rq1 where rq1: "fst (session_to_identity api verify parse now refresh_now rq client s) = Next rq1"
    "rq1 = rq \<or> (\<exists>i. rq1 = with_identity i rq)"
    using session_layer_result [of api verify parse now refresh_now rq client s] by blast
  have same: "bearer_identity decode_header from_jwk decode fetched c (with_identity j rq) p
      = bearer_identity decode_header from_jwk decode fetched c rq p" for j
    by (simp add: bearer_identity_def bearer_token_def with_identity_def)
  have twice: "with_identity i (with_identity j rq) = with_identity i rq" for i j
    by (simp add: with_identity_def)
  let ?b = "\<lambda>rq. case bearer_identity decode_header from_jwk decode fetched c rq p of
      Some i \<Rightarrow> with_identity i rq | None \<Rightarrow> rq"
  have "run_layers
      [\<lambda>rq. fst (session_to_identity api verify parse now refresh_now rq client s),
       \<lambda>rq. fst (bearer_auth_middleware decode_header from_jwk decode fetched c rq p)] rq
    = Next (?b rq1)"
    by (simp add: rq1(1) passthrough_bearer [OF assms])
  moreover have "?b rq1 = (case bearer_identity decode_header from_jwk decode fetched c rq p of
      Some i \<Rightarrow> with_identity i rq | None \<Rightarrow> rq1)"
    using rq1(2) by (elim disjE exE) (simp_all add: same twice split: option.split)
  ultimately show ?thesis using rq1(1) by (simp split: option.split)
qed

section \<open>An example session\<close>

definition map_session :: "((string \<rightharpoonup> string) \<times> (string \<rightharpoonup> u64)) session_api" where
  "map_session =
     \<lparr>ss_string = (\<lambda>s k. Inr (fst s k)), ss_u64 = (\<lambda>s k. Inr (snd s k)),
      ss_put_string = (\<lambda>k v s. ((fst s)(k \<mapsto> v), snd s)),
      ss_put_u64 = (\<lambda>k v s. (fst s, (snd s)(k \<mapsto> v))),
      ss_remove = (\<lambda>k s. ((fst s)(k := None), (snd s)(k := None))),
      ss_flush = (\<lambda>s. (Map.empty, Map.empty))\<rparr>"

lemma map_session_laws: "session_laws map_session"
  by (auto simp: session_laws_def map_session_def loaded_def)

definition demo_client :: "unit oidc_client" where
  "demo_client =
     \<lparr>fl_client = \<lparr>cl_authorize_url = (\<lambda>scopes challenge csrf nonce. ''https://idp/auth''),
        cl_token_endpoint = Inr (),
        cl_request_code = (\<lambda>code verifier. if verifier = ''v'' then Inr
           \<lparr>tr_access_token = ''at'', tr_refresh_token = None, tr_id_token = Some ''h.p.s'',
            tr_expires_in = None\<rparr> else Inl ''bad verifier''),
        cl_request_refresh = (\<lambda>t. Inl ''refused''),
        cl_id_token_claims = (\<lambda>trusted nonce jwt. if nonce = ''n'' then Inr () else Inl ''nonce'')\<rparr>,
      fl_scopes = [''openid''], fl_audiences = [], fl_post_login_redirect = ''/'',
      fl_post_logout_redirect = ''/'', fl_end_session_url = None,
      fl_id_token_keys = demo_provider\<rparr>"

lemma demo_login_callback:
  "callback_handler map_session 5 ''code'' ''st'' demo_client
     (snd (login_handler map_session ''ch'' ''v'' ''st'' ''n'' demo_client (Map.empty, Map.empty)))
   = (Inr ''/'', ([SESSION_ACCESS_TOKEN \<mapsto> ''at'', SESSION_ID_TOKEN \<mapsto> ''h.p.s''],
       [SESSION_TOKEN_EXPIRY \<mapsto> 305]))"
proof -
  have "fst (snd (login_handler map_session ''ch'' ''v'' ''st'' ''n'' demo_client (Map.empty, Map.empty)))
    = [SESSION_PKCE_VERIFIER \<mapsto> ''v'', SESSION_CSRF_STATE \<mapsto> ''st'', SESSION_NONCE \<mapsto> ''n'']"
    by (simp add: login_handler_def map_session_def)
  then show ?thesis
    by (simp add: callback_handler_def callback_exchange_def session_get_def map_session_def
        demo_client_def ok_or_def store_tokens_def clear_flow_state_def token_expiry_def
        redirect_target_def login_handler_def fun_upd_twist fun_eq_iff)
qed

theorem callback_correct_witness:
  "fst (callback_handler map_session 6 ''code2'' ''st'' demo_client
     (snd (callback_handler map_session 5 ''code'' ''st'' demo_client
       (snd (login_handler map_session ''ch'' ''v'' ''st'' ''n'' demo_client (Map.empty, Map.empty))))))
   = Inl (authentication_error ''Missing CSRF state in session'')"
  using callback_correct [OF map_session_laws demo_login_callback]
  by (simp add: demo_login_callback)

definition demo_session :: "(string \<rightharpoonup> string) \<times> (string \<rightharpoonup> u64)" where
  "demo_session =
     ([SESSION_ACCESS_TOKEN \<mapsto> ''at'', SESSION_ID_TOKEN \<mapsto> ''h.p.s''], [SESSION_TOKEN_EXPIRY \<mapsto> 305])"

definition session_request :: request where
  "session_request = sample_request\<lparr>rq_has_session := True\<rparr>"

lemma session_request_anonymous: "\<not> present_in session_request" "rq_has_session session_request"
  by (simp_all add: session_request_def sample_request_def present_in_def)

theorem session_identity_sound_witness:
  "fst (snd (session_to_identity map_session (\<lambda>jwt oc. (Valid, oc)) (\<lambda>jwt t. Some sample_identity)
     300 300 session_request (Some demo_client) demo_session)) = (Map.empty, Map.empty)"
proof -
  obtain d s' client' where run: "session_to_identity map_session (\<lambda>jwt oc. (Valid, oc))
      (\<lambda>jwt t. Some sample_identity) 300 300 session_request (Some demo_client) demo_session
    = (d, s', client')"
    by (cases "session_to_identity map_session (\<lambda>jwt oc. (Valid, oc))
      (\<lambda>jwt t. Some sample_identity) 300 300 session_request (Some demo_client) demo_session") auto
  have "ok_flatten (ss_string map_session demo_session SESSION_ACCESS_TOKEN) \<noteq> None"
    "is_expired 300 (ok_flatten (ss_u64 map_session demo_session SESSION_TOKEN_EXPIRY))"
    "ss_string map_session demo_session SESSION_REFRESH_TOKEN = Inr None"
    by (simp_all add: map_session_def demo_session_def is_expired_def)
  then have "s' = ss_flush map_session demo_session"
    using session_identity_sound [OF run] session_request_anonymous by auto
  moreover have "ss_flush map_session demo_session = (Map.empty, Map.empty)"
    by (simp add: map_session_def)
  ultimately show ?thesis by (simp add: run)
qed

definition passthrough_mode :: bearer_config where
  "passthrough_mode = \<lparr>bc_passthrough = True, bc_roles_claim = ''applicationRoles''\<rparr>"

theorem bearer_takes_precedence_witness:
  "\<exists>i. run_layers
      [\<lambda>rq. fst (session_to_identity map_session (\<lambda>jwt oc. (Valid, oc)) (\<lambda>jwt t. Some sample_identity)
         0 0 rq (Some demo_client) demo_session),
       \<lambda>rq. fst (bearer_auth_middleware (\<lambda>t. Some (Some ''k1'')) (\<lambda>k. Some (jwk_material k))
         (demo_decoder (JObject [(''sub'', JString ''u1'')])) (Inl (io_error '''')) passthrough_mode rq
         demo_provider)] bearer_request = Next (with_identity i bearer_request) \<and> id_user i = ''u1''"
proof -
  let ?c = "JObject [(''sub'', JString ''u1'')]"
  obtain i where i: "claims_to_identity ?c ''applicationRoles'' (Some ''tok'') = Some i" "id_user i = ''u1''"
    by (simp add: claims_to_identity_def)
  have "bearer_identity (\<lambda>t. Some (Some ''k1'')) (\<lambda>k. Some (jwk_material k)) (demo_decoder ?c)
      (Inl (io_error '''')) passthrough_mode bearer_request demo_provider = Some i"
    by (simp add: bearer_identity_def demo_bearer_token demo_validates passthrough_mode_def i)
  moreover have pass: "bc_passthrough passthrough_mode" by (simp add: passthrough_mode_def)
  ultimately show ?thesis
    using bearer_takes_precedence [OF pass, of map_session "\<lambda>jwt oc. (Valid, oc)"
        "\<lambda>jwt t. Some sample_identity" 0 0 "Some demo_client" demo_session
        "\<lambda>t. Some (Some ''k1'')" "\<lambda>k. Some (jwk_material k)" "demo_decoder ?c" "Inl (io_error '''')"
        demo_provider bearer_request] i(2)
    by (simp only: option.case) blast
qed

end
