(* ===== verification/Session_Store.thy ===== *)
theory Session_Store
  imports Prelude
begin

text \<open>
  \<open>src/fluent/session_store.rs\<close>: the Postgres and Redis back ends of the session store, with
  records sealed by a keyed tag.  HMAC-SHA256 is the argument \<open>mac\<close>; the MessagePack codec is
  \<open>encode\<close> and \<open>decode\<close>.  The contents of the database are a table of rows, on which the
  statements of the code act as SQL defines them; those of Redis are its keys.  An argument
  \<open>down\<close> is the error of a back end that does not carry out the operation.
\<close>

section \<open>Sealing\<close>

type_synonym bytes = "u8 list"
type_synonym mac = "bytes \<Rightarrow> bytes \<Rightarrow> bytes"

abbreviation TAG_LEN :: nat where
  "TAG_LEN \<equiv> 32"

definition seal :: "mac \<Rightarrow> bytes \<Rightarrow> bytes \<Rightarrow> bytes" where
  "seal mac key data = mac key data @ data"

definition open_sealed :: "mac \<Rightarrow> bytes \<Rightarrow> bytes \<Rightarrow> bytes option" where
  "open_sealed mac key sealed =
     (if length sealed < TAG_LEN then None
      else if mac key (drop TAG_LEN sealed) = take TAG_LEN sealed then Some (drop TAG_LEN sealed)
      else None)"

definition mac_tags :: "mac \<Rightarrow> bool" where
  "mac_tags mac \<longleftrightarrow> (\<forall>key data. length (mac key data) = TAG_LEN)"

lemma open_sealed_iff:
  "mac_tags mac \<Longrightarrow> open_sealed mac key b = Some d \<longleftrightarrow> b = seal mac key d"
  by (auto simp: open_sealed_def seal_def mac_tags_def)

lemma open_seal [simp]: "mac_tags mac \<Longrightarrow> open_sealed mac key (seal mac key d) = Some d"
  by (simp add: open_sealed_iff)

section \<open>Records and errors\<close>

text \<open>Times are microseconds since the epoch; identifiers are their text.\<close>

record 'd session_record =
  sr_id :: string
  sr_data :: 'd
  sr_expiry :: int

datatype store_error = EncodeError string | DecodeError string | BackendError string

record 'd codec =
  cd_mac :: mac
  cd_encode :: "'d session_record \<Rightarrow> string + bytes"
  cd_decode :: "bytes \<Rightarrow> string + 'd session_record"

text \<open>What the code relies on: tags of 32 bytes, and a codec that reads back what it wrote.\<close>

definition codec_laws :: "'d codec \<Rightarrow> bool" where
  "codec_laws c \<longleftrightarrow>
     mac_tags (cd_mac c) \<and> (\<forall>r b. cd_encode c r = Inr b \<longrightarrow> cd_decode c b = Inr r)"

definition backend :: "string option \<Rightarrow> 't \<Rightarrow> (store_error + unit) \<times> 't \<Rightarrow> (store_error + unit) \<times> 't" where
  "backend down unchanged done = (case down of Some e \<Rightarrow> (Inl (BackendError e), unchanged) | None \<Rightarrow> done)"

text \<open>The value stored by \<open>save\<close>, and what \<open>load\<close> makes of a value it found.\<close>

definition sealed_record :: "'d codec \<Rightarrow> bytes \<Rightarrow> 'd session_record \<Rightarrow> store_error + bytes" where
  "sealed_record c key r =
     and_then (map_err EncodeError (cd_encode c r)) (\<lambda>data. Inr (seal (cd_mac c) key data))"

definition unsealed_record ::
  "'d codec \<Rightarrow> bytes \<Rightarrow> bytes option \<Rightarrow> store_error + 'd session_record option" where
  "unsealed_record c key row =
     (case row of
        None \<Rightarrow> Inr None
      | Some sealed \<Rightarrow>
          (case open_sealed (cd_mac c) key sealed of
             Some data \<Rightarrow> and_then (map_err DecodeError (cd_decode c data)) (\<lambda>r. Inr (Some r))
           | None \<Rightarrow> Inr None))"

section \<open>Postgres\<close>

record pg_row =
  row_data :: bytes
  row_expiry :: int

type_synonym pg_table = "string \<rightharpoonup> pg_row"

definition pg_save ::
  "'d codec \<Rightarrow> bytes \<Rightarrow> string option \<Rightarrow> 'd session_record \<Rightarrow> pg_table
    \<Rightarrow> (store_error + unit) \<times> pg_table" where
  "pg_save c key down r t =
     (case sealed_record c key r of
        Inl e \<Rightarrow> (Inl e, t)
      | Inr sealed \<Rightarrow>
          backend down t (Inr (), t(sr_id r \<mapsto> \<lparr>row_data = sealed, row_expiry = sr_expiry r\<rparr>)))"

definition pg_select :: "int \<Rightarrow> string \<Rightarrow> pg_table \<Rightarrow> bytes option" where
  "pg_select now i t =
     (case t i of Some row \<Rightarrow> if row_expiry row > now then Some (row_data row) else None | None \<Rightarrow> None)"

definition pg_load ::
  "'d codec \<Rightarrow> bytes \<Rightarrow> string option \<Rightarrow> int \<Rightarrow> string \<Rightarrow> pg_table
    \<Rightarrow> store_error + 'd session_record option" where
  "pg_load c key down now i t =
     (case down of
        Some e \<Rightarrow> Inl (BackendError e)
      | None \<Rightarrow> unsealed_record c key (pg_select now i t))"

definition pg_delete :: "string option \<Rightarrow> string \<Rightarrow> pg_table \<Rightarrow> (store_error + unit) \<times> pg_table" where
  "pg_delete down i t = backend down t (Inr (), t(i := None))"

definition delete_expired :: "int \<Rightarrow> pg_table \<Rightarrow> pg_table" where
  "delete_expired now t =
     (\<lambda>i. case t i of Some row \<Rightarrow> if row_expiry row < now then None else Some row | None \<Rightarrow> None)"

section \<open>Redis\<close>

text \<open>
  A key holds a value and the second it expires at; \<open>live\<close> decides whether a key with that
  expiry is still there.
\<close>

record redis_value =
  rv_value :: bytes
  rv_exat :: int

type_synonym redis_keys = "string \<rightharpoonup> redis_value"

definition redis_key :: "string \<Rightarrow> string" where
  "redis_key i = ''tower-sessions:'' @ i"

lemma redis_key_inj [simp]: "redis_key i = redis_key j \<longleftrightarrow> i = j"
  by (simp add: redis_key_def)

definition unix_timestamp :: "int \<Rightarrow> int" where
  "unix_timestamp us = us div 1000000"

definition redis_save ::
  "'d codec \<Rightarrow> bytes \<Rightarrow> string option \<Rightarrow> 'd session_record \<Rightarrow> redis_keys
    \<Rightarrow> (store_error + unit) \<times> redis_keys" where
  "redis_save c key down r t =
     (case sealed_record c key r of
        Inl e \<Rightarrow> (Inl e, t)
      | Inr sealed \<Rightarrow>
          backend down t (Inr (), t(redis_key (sr_id r) \<mapsto>
            \<lparr>rv_value = sealed, rv_exat = unix_timestamp (sr_expiry r)\<rparr>)))"

definition redis_get :: "(int \<Rightarrow> int \<Rightarrow> bool) \<Rightarrow> int \<Rightarrow> string \<Rightarrow> redis_keys \<Rightarrow> bytes option" where
  "redis_get live now k t =
     (case t k of Some v \<Rightarrow> if live now (rv_exat v) then Some (rv_value v) else None | None \<Rightarrow> None)"

definition redis_load ::
  "'d codec \<Rightarrow> bytes \<Rightarrow> (int \<Rightarrow> int \<Rightarrow> bool) \<Rightarrow> string option \<Rightarrow> int \<Rightarrow> string \<Rightarrow> redis_keys
    \<Rightarrow> store_error + 'd session_record option" where
  "redis_load c key live down now i t =
     (case down of
        Some e \<Rightarrow> Inl (BackendError e)
      | None \<Rightarrow> unsealed_record c key (redis_get live now (redis_key i) t))"

definition redis_delete ::
  "string option \<Rightarrow> string \<Rightarrow> redis_keys \<Rightarrow> (store_error + unit) \<times> redis_keys" where
  "redis_delete down i t = backend down t (Inr (), t(redis_key i := None))"

section \<open>The contract of a session store\<close>

text \<open>
  What \<open>tower_sessions\<close> expects of a store, given the laws of the libraries it is built on: a
  saved record is loaded until it expires, and operations on one session do not touch another.
\<close>

locale session_store =
  fixes lawful :: bool
    and save :: "string option \<Rightarrow> 'd session_record \<Rightarrow> 't \<Rightarrow> (store_error + unit) \<times> 't"
    and load :: "int \<Rightarrow> string \<Rightarrow> 't \<Rightarrow> store_error + 'd session_record option"
    and delete :: "string option \<Rightarrow> string \<Rightarrow> 't \<Rightarrow> (store_error + unit) \<times> 't"
    and valid :: "int \<Rightarrow> int \<Rightarrow> bool"
  assumes load_saved: "lawful \<Longrightarrow> save down r t = (Inr (), t') \<Longrightarrow>
      load now (sr_id r) t' = Inr (if valid now (sr_expiry r) then Some r else None)"
    and load_other_saved: "save down r t = (res, t') \<Longrightarrow> i \<noteq> sr_id r \<Longrightarrow> load now i t' = load now i t"
    and save_failed: "save down r t = (Inl e, t') \<Longrightarrow> t' = t"
    and load_deleted: "delete down i t = (Inr (), t') \<Longrightarrow> load now i t' = Inr None"
    and load_other_deleted: "delete down j t = (res, t') \<Longrightarrow> i \<noteq> j \<Longrightarrow> load now i t' = load now i t"
begin

lemma saved_until_overwritten:
  assumes "lawful" "save None r t = (Inr (), t1)" "save down q t1 = (res, t2)" "sr_id q \<noteq> sr_id r"
  shows "load now (sr_id r) t2 = Inr (if valid now (sr_expiry r) then Some r else None)"
proof -
  have "load now (sr_id r) t2 = load now (sr_id r) t1"
    using load_other_saved [OF assms(3)] assms(4) by (metis (no_types))
  then show ?thesis using load_saved [OF assms(1,2)] by simp
qed

lemma deleted_stays_deleted:
  assumes "delete None i t = (Inr (), t1)" "save down q t1 = (res, t2)" "sr_id q \<noteq> i"
  shows "load now i t2 = Inr None"
  using load_other_saved [OF assms(2)] load_deleted [OF assms(1)] assms(3) by metis

end

lemma sealed_record_Inr:
  "sealed_record c key r = Inr b \<longleftrightarrow> (\<exists>d. cd_encode c r = Inr d \<and> b = seal (cd_mac c) key d)"
  by (auto simp: sealed_record_def result_simps)

lemma unseal_sealed:
  assumes "codec_laws c" "sealed_record c key r = Inr b"
  shows "unsealed_record c key (Some b) = Inr (Some r)"
proof -
  obtain d where "cd_encode c r = Inr d" "b = seal (cd_mac c) key d"
    using assms(2) by (auto simp: sealed_record_Inr)
  then show ?thesis using assms(1) by (simp add: unsealed_record_def codec_laws_def)
qed

lemma unsealed_None [simp]: "unsealed_record c key None = Inr None"
  by (simp add: unsealed_record_def)

lemma unsealed_Some:
  assumes "mac_tags (cd_mac c)"
  shows "unsealed_record c key row = Inr (Some r)
    \<longleftrightarrow> (\<exists>d. row = Some (seal (cd_mac c) key d) \<and> cd_decode c d = Inr r)"
proof (cases row)
  case (Some b)
  have "unsealed_record c key (Some b) = Inr (Some r)
    \<longleftrightarrow> (\<exists>d. open_sealed (cd_mac c) key b = Some d \<and> cd_decode c d = Inr r)"
    by (auto simp: unsealed_record_def result_simps split: option.split)
  then show ?thesis unfolding Some open_sealed_iff [OF assms] by blast
qed (simp add: unsealed_record_def)

lemma pg_save_cases:
  assumes "pg_save c key down r t = (res, t')"
  obtains b where "sealed_record c key r = Inr b" "res = Inr ()"
      "t' = t(sr_id r \<mapsto> \<lparr>row_data = b, row_expiry = sr_expiry r\<rparr>)"
  | e where "res = Inl e" "t' = t"
  using assms
  by (cases "sealed_record c key r"; cases down) (auto simp: pg_save_def backend_def)

lemma redis_save_cases:
  assumes "redis_save c key down r t = (res, t')"
  obtains b where "sealed_record c key r = Inr b" "res = Inr ()"
      "t' = t(redis_key (sr_id r) \<mapsto> \<lparr>rv_value = b, rv_exat = unix_timestamp (sr_expiry r)\<rparr>)"
  | e where "res = Inl e" "t' = t"
  using assms
  by (cases "sealed_record c key r"; cases down) (auto simp: redis_save_def backend_def)

interpretation pg: session_store "codec_laws c" "pg_save c key" "pg_load c key None" pg_delete
    "\<lambda>now expiry. expiry > now" for c key
proof (unfold_locales, goal_cases)
  case (1 down r t t' now)
  show ?case using 1(2)
    by (cases rule: pg_save_cases) (auto simp: pg_load_def pg_select_def unseal_sealed [OF 1(1)])
next
  case (2 down r t res t' i now)
  show ?case using 2(1) by (cases rule: pg_save_cases) (auto simp: pg_load_def pg_select_def 2(2))
next
  case (3 down r t e t')
  show ?case using 3 by (cases rule: pg_save_cases) auto
next
  case (4 down i t t' now)
  then show ?case
    by (cases down) (auto simp: pg_delete_def backend_def pg_load_def pg_select_def)
next
  case (5 down j t res t' i now)
  then show ?case
    by (cases down) (auto simp: pg_delete_def backend_def pg_load_def pg_select_def)
qed

interpretation redis: session_store "codec_laws c" "redis_save c key" "redis_load c key live None"
    redis_delete "\<lambda>now expiry. live now (unix_timestamp expiry)" for c key live
proof (unfold_locales, goal_cases)
  case (1 down r t t' now)
  show ?case using 1(2)
    by (cases rule: redis_save_cases) (auto simp: redis_load_def redis_get_def unseal_sealed [OF 1(1)])
next
  case (2 down r t res t' i now)
  show ?case using 2(1)
    by (cases rule: redis_save_cases) (auto simp: redis_load_def redis_get_def 2(2))
next
  case (3 down r t e t')
  show ?case using 3 by (cases rule: redis_save_cases) auto
next
  case (4 down i t t' now)
  then show ?case
    by (cases down) (auto simp: redis_delete_def backend_def redis_load_def redis_get_def)
next
  case (5 down j t res t' i now)
  then show ?case
    by (cases down) (auto simp: redis_delete_def backend_def redis_load_def redis_get_def)
qed

lemma delete_expired_invisible:
  "now \<le> later \<Longrightarrow> pg_load c key down later i (delete_expired now t) = pg_load c key down later i t"
  by (auto simp: pg_load_def pg_select_def delete_expired_def split: option.split)

text \<open>C16: (session store) A record saved in Postgres, and likewise in Redis, is what loading its identifier
gives, while other sessions are saved and expired rows are swept, until it expires; then,
and once it is deleted, nothing is loaded.  A failed save changes nothing.\<close>
theorem session_store_roundtrip:
  assumes laws: "codec_laws c"
  shows "(pg_save c key None r t = (Inr (), ta) \<and> pg_save c key down q ta = (res, tb) \<and> sr_id q \<noteq> sr_id r
      \<and> swept \<le> now
    \<longrightarrow> pg_load c key None now (sr_id r) (delete_expired swept tb)
        = Inr (if sr_expiry r > now then Some r else None))
   \<and> (redis_save c key None r u = (Inr (), ua) \<and> redis_save c key down q ua = (res, ub) \<and> sr_id q \<noteq> sr_id r
    \<longrightarrow> redis_load c key live None now (sr_id r) ub
        = Inr (if live now (unix_timestamp (sr_expiry r)) then Some r else None))
   \<and> pg_load c key None now i (snd (pg_delete None i t)) = Inr None
   \<and> redis_load c key live None now i (snd (redis_delete None i u)) = Inr None
   \<and> (fst (pg_save c key down r t) \<noteq> Inr () \<longrightarrow> snd (pg_save c key down r t) = t)
   \<and> (fst (redis_save c key down r u) \<noteq> Inr () \<longrightarrow> snd (redis_save c key down r u) = u)"
proof (intro conjI impI, goal_cases)
  case 1
  then have "pg_load c key None now (sr_id r) tb = Inr (if sr_expiry r > now then Some r else None)"
    using pg.saved_until_overwritten [OF laws] by blast
  then show ?case using 1 by (simp only: delete_expired_invisible)
next
  case 2
  then show ?case using redis.saved_until_overwritten [OF laws] by blast
next
  case 3
  have "pg_delete None i t = (Inr (), snd (pg_delete None i t))"
    by (simp add: pg_delete_def backend_def)
  then show ?case by (rule pg.load_deleted)
next
  case 4
  have "redis_delete None i u = (Inr (), snd (redis_delete None i u))"
    by (simp add: redis_delete_def backend_def)
  then show ?case by (rule redis.load_deleted)
next
  case 5
  then obtain e where "pg_save c key down r t = (Inl e, snd (pg_save c key down r t))"
    by (cases "pg_save c key down r t"; cases "fst (pg_save c key down r t)") auto
  then show ?case by (rule pg.save_failed)
next
  case 6
  then obtain e where "redis_save c key down r u = (Inl e, snd (redis_save c key down r u))"
    by (cases "redis_save c key down r u"; cases "fst (redis_save c key down r u)") auto
  then show ?case by (rule redis.save_failed)
qed

definition sample_codec :: "unit codec" where
  "sample_codec =
     \<lparr>cd_mac = (\<lambda>key data. replicate TAG_LEN (fold (+) (key @ data) 0)),
      cd_encode = (\<lambda>r. if sr_id r = ''a'' \<and> sr_expiry r = 9 then Inr [1] else
        if sr_id r = ''b'' \<and> sr_expiry r = 7 then Inr [2] else Inl ''unsupported''),
      cd_decode = (\<lambda>b. if b = [1] then Inr \<lparr>sr_id = ''a'', sr_data = (), sr_expiry = 9\<rparr> else
        if b = [2] then Inr \<lparr>sr_id = ''b'', sr_data = (), sr_expiry = 7\<rparr> else Inl ''unknown'')\<rparr>"

lemma sample_codec_laws: "codec_laws sample_codec"
  by (auto simp: codec_laws_def mac_tags_def sample_codec_def split: if_splits)

theorem session_store_roundtrip_witness:
  "pg_load sample_codec [3] None 8 ''a''
     (delete_expired 8 (snd (pg_save sample_codec [3] None \<lparr>sr_id = ''b'', sr_data = (), sr_expiry = 7\<rparr>
       (snd (pg_save sample_codec [3] None \<lparr>sr_id = ''a'', sr_data = (), sr_expiry = 9\<rparr> Map.empty)))))
   = Inr (Some \<lparr>sr_id = ''a'', sr_data = (), sr_expiry = 9\<rparr>)"
proof -
  let ?a = "\<lparr>sr_id = ''a'', sr_data = (), sr_expiry = 9\<rparr>"
  let ?b = "\<lparr>sr_id = ''b'', sr_data = (), sr_expiry = 7\<rparr>"
  let ?t = "snd (pg_save sample_codec [3] None ?a Map.empty)"
  have "pg_save sample_codec [3] None ?a Map.empty = (Inr (), ?t)"
    "pg_save sample_codec [3] None ?b ?t = (Inr (), snd (pg_save sample_codec [3] None ?b ?t))"
    by (simp_all add: pg_save_def sealed_record_def sample_codec_def backend_def)
  then show ?thesis
    using session_store_roundtrip [OF sample_codec_laws, where key = "[3]" and r = ?a
        and t = Map.empty and ta = ?t and q = ?b and swept = 8 and now = 8] by auto
qed

text \<open>C32: (tampering) A store never hands out, nor fails on, stored bytes that do not carry the tag of the
signing key: what it loads is the decoding of sealed bytes.  But the tag covers neither the
identifier the bytes are stored under nor the expiry of the row: a sealed record copied to
another identifier, with any later expiry, is loaded there.\<close>
theorem session_records_sealed:
  assumes laws: "codec_laws c"
  shows "(pg_load c key None now i t = Inr (Some r)
      \<longleftrightarrow> (\<exists>d e. t i = Some \<lparr>row_data = seal (cd_mac c) key d, row_expiry = e\<rparr> \<and> e > now
            \<and> cd_decode c d = Inr r))
   \<and> (t i = Some row \<and> (\<nexists>d. row_data row = seal (cd_mac c) key d)
      \<longrightarrow> pg_load c key None now i t = Inr None)
   \<and> (redis_load c key live None now i u = Inr (Some r)
      \<longleftrightarrow> (\<exists>d e. u (redis_key i) = Some \<lparr>rv_value = seal (cd_mac c) key d, rv_exat = e\<rparr> \<and> live now e
            \<and> cd_decode c d = Inr r))
   \<and> (u (redis_key i) = Some v \<and> (\<nexists>d. rv_value v = seal (cd_mac c) key d)
      \<longrightarrow> redis_load c key live None now i u = Inr None)
   \<and> (pg_load c key None now i t = Inr (Some r) \<and> t i = Some row \<and> later > now'
      \<longrightarrow> pg_load c key None now' j (t(j \<mapsto> row\<lparr>row_expiry := later\<rparr>)) = Inr (Some r))"
proof -
  have tags: "mac_tags (cd_mac c)" using laws by (simp add: codec_laws_def)
  have forged: "unsealed_record c key (Some b) = Inr None" if "\<nexists>d. b = seal (cd_mac c) key d" for b
    using that open_sealed_iff [OF tags, of key b]
    by (cases "open_sealed (cd_mac c) key b") (auto simp: unsealed_record_def)
  show ?thesis
  proof (intro conjI impI, goal_cases)
    case 1
    show ?case
      by (auto simp: pg_load_def unsealed_Some [OF tags] pg_select_def split: option.splits if_splits)
        (metis pg_row.surjective old.unit.exhaust)
  next
    case 2
    then show ?case using forged by (simp add: pg_load_def pg_select_def)
  next
    case 3
    show ?case
      by (auto simp: redis_load_def unsealed_Some [OF tags] redis_get_def split: option.splits if_splits)
        (metis redis_value.surjective old.unit.exhaust)
  next
    case 4
    then show ?case using forged by (simp add: redis_load_def redis_get_def)
  next
    case 5
    then show ?case by (auto simp: pg_load_def pg_select_def split: if_splits)
  qed
qed

theorem session_records_sealed_witness:
  "pg_load sample_codec [3] None 100 ''b''
     [''b'' \<mapsto> \<lparr>row_data = seal (cd_mac sample_codec) [3] [1], row_expiry = 200\<rparr>]
   = Inr (Some \<lparr>sr_id = ''a'', sr_data = (), sr_expiry = 9\<rparr>)"
proof -
  have "cd_decode sample_codec [1] = Inr \<lparr>sr_id = ''a'', sr_data = (), sr_expiry = 9\<rparr>"
    by (simp add: sample_codec_def)
  then have "\<exists>d e. [''b'' \<mapsto> \<lparr>row_data = seal (cd_mac sample_codec) [3] [1], row_expiry = 200\<rparr>] ''b''
      = Some \<lparr>row_data = seal (cd_mac sample_codec) [3] d, row_expiry = e\<rparr> \<and> e > 100
    \<and> cd_decode sample_codec d = Inr \<lparr>sr_id = ''a'', sr_data = (), sr_expiry = 9\<rparr>"
    by (intro exI [of _ "[1]"] exI [of _ 200]) simp
  then show ?thesis
    by (rule iffD2 [OF conjunct1 [OF session_records_sealed [OF sample_codec_laws]]])
qed

end
