(* ===== verification/Shutdown.thy ===== *)
theory Shutdown
  imports Prelude Errors "HOL-Library.Sublist"
begin

text \<open>
  \<open>src/fluent/shutdown.rs\<close> and the server loop of \<open>src/fluent/builder.rs\<close> (\<open>start\<close> and
  \<open>shutdown_signal_with_notifications\<close>): the phases of a graceful shutdown, who hears of them,
  and what ends the server.
\<close>

section \<open>The notifier\<close>

datatype shutdown_phase = Initiated | GracePeriodStarted nanos | GracePeriodEnded

text \<open>
  The broadcast channel by what it delivers: for every receiver, in the order of
  subscription, whether it still exists and the phases sent to it.  A receiver may lose old
  phases only when more than the capacity are waiting; a shutdown sends at most three.
\<close>

record notifier =
  nf_capacity :: nat
  nf_receivers :: "(bool \<times> shutdown_phase list) list"
  nf_cancelled :: bool

definition notifier_new :: "nat \<Rightarrow> notifier" where
  "notifier_new capacity = \<lparr>nf_capacity = capacity, nf_receivers = [], nf_cancelled = False\<rparr>"

definition notifier_default :: notifier where
  "notifier_default = notifier_new 16"

definition subscribe :: "notifier \<Rightarrow> nat \<times> notifier" where
  "subscribe n =
     (length (nf_receivers n), n\<lparr>nf_receivers := nf_receivers n @ [(True, [])]\<rparr>)"

text \<open>Dropping a receiver.\<close>

definition drop_receiver :: "nat \<Rightarrow> notifier \<Rightarrow> notifier" where
  "drop_receiver i n =
     (if i < length (nf_receivers n)
      then n\<lparr>nf_receivers := (nf_receivers n)[i := (False, snd (nf_receivers n ! i))]\<rparr> else n)"

definition is_shutdown_initiated :: "notifier \<Rightarrow> bool" where
  "is_shutdown_initiated n = nf_cancelled n"

definition deliver :: "shutdown_phase \<Rightarrow> bool \<times> shutdown_phase list \<Rightarrow> bool \<times> shutdown_phase list" where
  "deliver phase r = (if fst r then (True, snd r @ [phase]) else r)"

definition emit :: "shutdown_phase \<Rightarrow> notifier \<Rightarrow> nat \<times> notifier" where
  "emit phase n =
     (let n' = (if phase = Initiated then n\<lparr>nf_cancelled := True\<rparr> else n)
      in (length (filter fst (nf_receivers n)),
          n'\<lparr>nf_receivers := map (deliver phase) (nf_receivers n)\<rparr>))"

section \<open>The server\<close>

datatype stage = Serving | Draining | Exited "error + unit"

text \<open>
  \<open>sv_watch\<close> is the receiver \<open>start\<close> itself holds; \<open>sv_deadline\<close> is the timer armed once that
  receiver has seen the first phase.
\<close>

record server =
  sv_notifier :: notifier
  sv_watch :: nat
  sv_stage :: stage
  sv_deadline :: "nanos option"
  sv_clock :: nanos
  sv_spans_flushed :: bool

text \<open>\<open>start\<close>, up to the loop: \<open>bound\<close> is the result of binding the listener.\<close>

definition start_server :: "string + unit \<Rightarrow> notifier \<Rightarrow> nanos \<Rightarrow> error + server" where
  "start_server bound n now =
     and_then (map_err (\<lambda>e. error_from (IoError e)) bound)
       (\<lambda>_. let (i, n') = subscribe n
            in Inr \<lparr>sv_notifier = n', sv_watch = i, sv_stage = Serving, sv_deadline = None,
                    sv_clock = now, sv_spans_flushed = False\<rparr>)"

datatype os_signal = CtrlC | Terminate

text \<open>A signal is heard when its handler could be installed.\<close>

fun handled :: "bool \<times> bool \<Rightarrow> os_signal \<Rightarrow> bool" where
  "handled (ctrl_c, term) CtrlC = ctrl_c"
| "handled (ctrl_c, term) Terminate = term"

text \<open>\<open>shutdown_signal_with_notifications\<close> after the signal; the receiver of \<open>start\<close> arms the timer.\<close>

definition on_signal :: "nanos \<Rightarrow> server \<Rightarrow> server" where
  "on_signal timeout sv =
     sv\<lparr>sv_notifier :=
          snd (emit (GracePeriodStarted timeout) (snd (emit Initiated (sv_notifier sv)))),
        sv_stage := Draining, sv_deadline := Some (sv_clock sv + timeout)\<rparr>"

text \<open>What follows the \<open>select!\<close>: the spans are flushed unless the server failed.\<close>

definition on_served :: "bool \<Rightarrow> string + unit \<Rightarrow> server \<Rightarrow> server" where
  "on_served otel result sv =
     (case result of
        Inl e \<Rightarrow> sv\<lparr>sv_stage := Exited (Inl (error_from (IoError e)))\<rparr>
      | Inr _ \<Rightarrow> sv\<lparr>sv_stage := Exited (Inr ()), sv_spans_flushed := otel\<rparr>)"

definition on_timeout :: "bool \<Rightarrow> server \<Rightarrow> server" where
  "on_timeout otel sv =
     sv\<lparr>sv_notifier := snd (emit GracePeriodEnded (sv_notifier sv)),
        sv_stage := Exited (Inr ()), sv_spans_flushed := otel\<rparr>"

text \<open>
  One step of the server or of its surroundings.  Time passes, components subscribe and drop
  their receivers at any moment; the server future ends, in order once it was told to drain,
  or with an error; the timer ends the wait when it is due.
\<close>

inductive serve_step :: "bool \<Rightarrow> bool \<times> bool \<Rightarrow> nanos \<Rightarrow> server \<Rightarrow> server \<Rightarrow> bool"
  for otel handlers timeout where
  tick: "sv_clock sv \<le> t \<Longrightarrow> serve_step otel handlers timeout sv (sv\<lparr>sv_clock := t\<rparr>)"
| subscribes: "serve_step otel handlers timeout sv
    (sv\<lparr>sv_notifier := snd (subscribe (sv_notifier sv))\<rparr>)"
| drops: "i \<noteq> sv_watch sv \<Longrightarrow> serve_step otel handlers timeout sv
    (sv\<lparr>sv_notifier := drop_receiver i (sv_notifier sv)\<rparr>)"
| signal: "sv_stage sv = Serving \<Longrightarrow> handled handlers s \<Longrightarrow>
    serve_step otel handlers timeout sv (on_signal timeout sv)"
| drained: "sv_stage sv = Draining \<Longrightarrow>
    serve_step otel handlers timeout sv (on_served otel (Inr ()) sv)"
| failed: "sv_stage sv = Serving \<or> sv_stage sv = Draining \<Longrightarrow>
    serve_step otel handlers timeout sv (on_served otel (Inl e) sv)"
| expired: "sv_stage sv = Draining \<Longrightarrow> sv_deadline sv = Some d \<Longrightarrow> d \<le> sv_clock sv \<Longrightarrow>
    serve_step otel handlers timeout sv (on_timeout otel sv)"

inductive served :: "bool \<Rightarrow> bool \<times> bool \<Rightarrow> nanos \<Rightarrow> notifier \<Rightarrow> nanos \<Rightarrow> server \<Rightarrow> bool"
  for otel handlers timeout n now where
  started: "start_server (Inr ()) n now = Inr sv \<Longrightarrow> served otel handlers timeout n now sv"
| step: "served otel handlers timeout n now sv \<Longrightarrow> serve_step otel handlers timeout sv sv' \<Longrightarrow>
    served otel handlers timeout n now sv'"


section \<open>Phases in order\<close>

definition fresh_notifier :: "notifier \<Rightarrow> bool" where
  "fresh_notifier n \<longleftrightarrow> \<not> nf_cancelled n \<and> (\<forall>r \<in> set (nf_receivers n). snd r = [])"

definition heard_ok :: "shutdown_phase list \<Rightarrow> (bool \<times> shutdown_phase list) list \<Rightarrow> bool" where
  "heard_ok full rs \<longleftrightarrow>
     (\<forall>(alive, log) \<in> set rs. (alive \<longrightarrow> suffix log full) \<and> sublist log full)"

lemma heard_ok_deliver: "heard_ok full rs \<Longrightarrow> heard_ok (full @ [p]) (map (deliver p) rs)"
proof -
  have "suffix log full \<Longrightarrow> suffix (log @ [p]) (full @ [p])" for log by (auto simp: suffix_def)
  moreover have "sublist log full \<Longrightarrow> sublist log (full @ [p])" for log
    by (auto simp: sublist_def) (metis append.assoc)
  ultimately show "heard_ok full rs \<Longrightarrow> heard_ok (full @ [p]) (map (deliver p) rs)"
    by (fastforce simp: heard_ok_def deliver_def intro: suffix_imp_sublist)
qed

lemma heard_ok_subscribe: "heard_ok full rs \<Longrightarrow> heard_ok full (rs @ [(True, [])])"
  by (auto simp: heard_ok_def)

lemma heard_ok_drop:
  "heard_ok full rs \<Longrightarrow> i < length rs \<Longrightarrow> heard_ok full (rs[i := (False, snd (rs ! i))])"
  by (auto simp: heard_ok_def dest!: set_update_subset_insert [THEN subsetD] nth_mem)

text \<open>The phases \<open>full\<close> sent so far, at a stage of the server.\<close>

definition sent_phases :: "nanos \<Rightarrow> stage \<Rightarrow> shutdown_phase list \<Rightarrow> bool" where
  "sent_phases timeout st full =
     (case st of
        Serving \<Rightarrow> full = []
      | Draining \<Rightarrow> full = [Initiated, GracePeriodStarted timeout]
      | Exited (Inl e) \<Rightarrow> full \<in> {[], [Initiated, GracePeriodStarted timeout]}
      | Exited (Inr _) \<Rightarrow> full \<in> {[Initiated, GracePeriodStarted timeout],
                                 [Initiated, GracePeriodStarted timeout, GracePeriodEnded]})"

definition shutdown_inv :: "nanos \<Rightarrow> nanos \<Rightarrow> server \<Rightarrow> shutdown_phase list \<Rightarrow> bool" where
  "shutdown_inv timeout now sv full \<longleftrightarrow>
     sent_phases timeout (sv_stage sv) full
     \<and> sv_watch sv < length (nf_receivers (sv_notifier sv))
     \<and> nf_receivers (sv_notifier sv) ! sv_watch sv = (True, full)
     \<and> heard_ok full (nf_receivers (sv_notifier sv))
     \<and> nf_cancelled (sv_notifier sv) = (full \<noteq> [])
     \<and> now \<le> sv_clock sv
     \<and> (full \<noteq> [] \<longrightarrow> (\<exists>d. sv_deadline sv = Some d \<and> now + timeout \<le> d
          \<and> (GracePeriodEnded \<in> set full \<longrightarrow> d \<le> sv_clock sv)))"

lemma shutdown_inv_start:
  assumes "fresh_notifier n" "start_server (Inr ()) n now = Inr sv"
  shows "shutdown_inv timeout now sv []"
  using assms
  by (fastforce simp: start_server_def subscribe_def shutdown_inv_def sent_phases_def heard_ok_def
      fresh_notifier_def)

lemma shutdown_inv_step:
  assumes "shutdown_inv timeout now sv full" "serve_step otel handlers timeout sv sv'"
  shows "\<exists>full'. shutdown_inv timeout now sv' full'"
  using assms(2)
proof (cases rule: serve_step.cases)
  case (tick t)
  then show ?thesis using assms(1) by (fastforce simp: shutdown_inv_def)
next
  case subscribes
  then show ?thesis using assms(1)
    by (auto simp: shutdown_inv_def subscribe_def nth_append intro!: exI [of _ full] heard_ok_subscribe)
next
  case (drops i)
  then show ?thesis using assms(1)
    by (auto simp: shutdown_inv_def drop_receiver_def intro!: exI [of _ full] heard_ok_drop)
next
  case (signal s)
  then have "full = []" using assms(1) by (simp add: shutdown_inv_def sent_phases_def)
  then have "heard_ok ([Initiated] @ [GracePeriodStarted timeout])
      (map (deliver (GracePeriodStarted timeout))
        (map (deliver Initiated) (nf_receivers (sv_notifier sv))))"
    using assms(1) heard_ok_deliver [OF heard_ok_deliver, of "[]"] by (simp add: shutdown_inv_def)
  then show ?thesis using assms(1) signal \<open>full = []\<close>
    by (intro exI [of _ "[Initiated, GracePeriodStarted timeout]"])
      (simp add: shutdown_inv_def on_signal_def emit_def Let_def sent_phases_def deliver_def)
next
  case drained
  then show ?thesis using assms(1)
    by (auto simp: shutdown_inv_def on_served_def sent_phases_def intro!: exI [of _ full])
next
  case (failed e)
  then show ?thesis using assms(1)
    by (auto simp: shutdown_inv_def on_served_def sent_phases_def intro!: exI [of _ full])
next
  case (expired d)
  then have "full = [Initiated, GracePeriodStarted timeout]"
    using assms(1) by (simp add: shutdown_inv_def sent_phases_def)
  then have "heard_ok ([Initiated, GracePeriodStarted timeout] @ [GracePeriodEnded])
      (map (deliver GracePeriodEnded) (nf_receivers (sv_notifier sv)))"
    using assms(1) heard_ok_deliver by (simp only: shutdown_inv_def)
  then show ?thesis using assms(1) expired
      \<open>full = [Initiated, GracePeriodStarted timeout]\<close>
    by (intro exI [of _ "[Initiated, GracePeriodStarted timeout, GracePeriodEnded]"])
      (auto simp: shutdown_inv_def on_timeout_def emit_def Let_def sent_phases_def deliver_def)
qed

lemma served_inv:
  "served otel handlers timeout n now sv \<Longrightarrow> fresh_notifier n \<Longrightarrow> \<exists>full. shutdown_inv timeout now sv full"
  by (induction rule: served.induct) (blast intro: shutdown_inv_start shutdown_inv_step)+

lemma emit_subscribers: "fst (emit p n) = length (filter fst (nf_receivers n))"
  by (simp add: emit_def Let_def)


definition demo_server :: server where
  "demo_server = \<lparr>sv_notifier = snd (subscribe notifier_default), sv_watch = 0, sv_stage = Serving,
     sv_deadline = None, sv_clock = 100, sv_spans_flushed = False\<rparr>"


section \<open>The server ends\<close>

text \<open>
  An infinite run: every state follows from the one before (time that stands still is a step
  too), time goes on without bound, and the timer does not stay due for ever without firing.
\<close>

definition fair_run :: "bool \<Rightarrow> bool \<times> bool \<Rightarrow> nanos \<Rightarrow> (nat \<Rightarrow> server) \<Rightarrow> bool" where
  "fair_run otel handlers timeout run \<longleftrightarrow>
     (\<forall>i. serve_step otel handlers timeout (run i) (run (Suc i)))
   \<and> (\<forall>t. \<exists>i. t \<le> sv_clock (run i))
   \<and> (\<forall>i. (\<forall>j \<ge> i. sv_stage (run j) = Draining
          \<and> (\<exists>d. sv_deadline (run j) = Some d \<and> d \<le> sv_clock (run j)))
        \<longrightarrow> (\<exists>j \<ge> i. run (Suc j) = on_timeout otel (run j)))"

lemma serve_step_clock: "serve_step otel handlers timeout sv sv' \<Longrightarrow> sv_clock sv \<le> sv_clock sv'"
  by (induction rule: serve_step.induct) (auto simp: on_signal_def on_served_def on_timeout_def)

lemma serve_step_exited:
  "serve_step otel handlers timeout sv sv' \<Longrightarrow> sv_stage sv = Exited r \<Longrightarrow> sv_stage sv' = Exited r"
  by (induction rule: serve_step.induct) auto

lemma serve_step_draining:
  "serve_step otel handlers timeout sv sv' \<Longrightarrow> sv_stage sv = Draining \<Longrightarrow>
   (sv_stage sv' = Draining \<and> sv_deadline sv' = sv_deadline sv) \<or> (\<exists>r. sv_stage sv' = Exited r)"
  by (induction rule: serve_step.induct) (auto simp: on_served_def on_timeout_def)

lemma fair_run_clock:
  assumes "fair_run otel handlers timeout run" "i \<le> j"
  shows "sv_clock (run i) \<le> sv_clock (run j)"
  using assms(2) by (rule lift_Suc_mono_le [rotated])
    (use assms(1) in \<open>auto simp: fair_run_def intro: serve_step_clock\<close>)

text \<open>C18: (shutdown ends) Once a server that was told to shut down is draining, it ends, in every run in
which time passes and the timer that is due fires: it does not wait for connections for
ever, and once it has ended it stays so.\<close>
theorem shutdown_terminates:
  assumes run: "fair_run otel handlers timeout run" and start: "fresh_notifier n"
    and served: "served otel handlers timeout n now (run 0)"
    and draining: "sv_stage (run i) = Draining"
  shows "\<exists>j > i. \<exists>r. \<forall>k \<ge> j. sv_stage (run k) = Exited r"
proof -
  have steps: "serve_step otel handlers timeout (run k) (run (Suc k))" for k
    using run by (simp add: fair_run_def)
  have "served otel handlers timeout n now (run k)" for k
    by (induction k) (blast intro: served served.step steps)+
  then obtain full where "shutdown_inv timeout now (run i) full" using served_inv [OF _ start] by blast
  then obtain d where d: "sv_deadline (run i) = Some d"
    using draining by (auto simp: shutdown_inv_def sent_phases_def)
  have "\<exists>j > i. \<exists>r. sv_stage (run j) = Exited r"
  proof (rule ccontr)
    assume never: "\<not> ?thesis"
    have stays: "sv_stage (run j) = Draining \<and> sv_deadline (run j) = Some d" if "i \<le> j" for j
      using that
    proof (induction j rule: dec_induct)
      case (step j)
      then show ?case using serve_step_draining [OF steps [of j]] never by (metis le_imp_less_Suc)
    qed (use draining d in simp)
    obtain m where m: "d \<le> sv_clock (run m)" using run unfolding fair_run_def by blast
    have "\<forall>j \<ge> max i m. sv_stage (run j) = Draining
        \<and> (\<exists>d. sv_deadline (run j) = Some d \<and> d \<le> sv_clock (run j))"
      using stays fair_run_clock [OF run, of m] m by (auto intro: order_trans)
    then obtain j where "j \<ge> max i m" "run (Suc j) = on_timeout otel (run j)"
      using run unfolding fair_run_def by blast
    then have "sv_stage (run (Suc j)) = Exited (Inr ())" "Suc j > i" by (simp_all add: on_timeout_def)
    then show False using never by blast
  qed
  then obtain j r where j: "j > i" "sv_stage (run j) = Exited r" by blast
  have "sv_stage (run k) = Exited r" if "j \<le> k" for k
    using that by (induction k rule: dec_induct) (use j(2) in \<open>auto intro: serve_step_exited [OF steps]\<close>)
  then show ?thesis using j(1) by blast
qed

text \<open>A server that is told to stop, is not drained within five nanoseconds, and gives up.\<close>

definition demo_exit :: server where
  "demo_exit = on_timeout True ((on_signal 5 demo_server)\<lparr>sv_clock := 105\<rparr>)"

fun demo_run :: "nat \<Rightarrow> server" where
  "demo_run 0 = demo_server"
| "demo_run (Suc 0) = on_signal 5 demo_server"
| "demo_run (Suc (Suc 0)) = (on_signal 5 demo_server)\<lparr>sv_clock := 105\<rparr>"
| "demo_run (Suc (Suc (Suc k))) = demo_exit\<lparr>sv_clock := 105 + k\<rparr>"

lemma demo_run_fair: "fair_run True (True, True) 5 demo_run"
proof -
  have "serve_step True (True, True) 5 (demo_run i) (demo_run (Suc i))" for i
  proof (induction i rule: demo_run.induct)
    case 1
    then show ?case using serve_step.signal [of demo_server "(True, True)" CtrlC True 5]
      by (simp add: demo_server_def)
  next
    case 2
    then show ?case using serve_step.tick [of "on_signal 5 demo_server" 105 True "(True, True)" 5]
      by (simp add: on_signal_def demo_server_def)
  next
    case 3
    then show ?case
      using serve_step.expired [of "(on_signal 5 demo_server)\<lparr>sv_clock := 105\<rparr>" 105 True "(True, True)" 5]
      by (simp add: on_signal_def on_timeout_def demo_exit_def demo_server_def)
  next
    case (4 k)
    then show ?case
      using serve_step.tick [of "demo_exit\<lparr>sv_clock := 105 + k\<rparr>" "105 + Suc k" True "(True, True)" 5]
      by simp
  qed
  moreover have "t \<le> sv_clock (demo_run (Suc (Suc (Suc t))))" for t by simp
  moreover have "sv_stage (demo_run (Suc (Suc (Suc k)))) \<noteq> Draining" for k
    by (simp add: demo_exit_def on_timeout_def)
  then have "\<exists>j \<ge> i. sv_stage (demo_run j) \<noteq> Draining" for i
    by (metis le_add2 numeral_3_eq_3 plus_nat.simps(2) plus_nat.add_0)
  ultimately show ?thesis unfolding fair_run_def by blast
qed

theorem shutdown_terminates_witness:
  "\<exists>j > 1. \<exists>r. \<forall>k \<ge> j. sv_stage (demo_run k) = Exited r"
proof -
  have "served True (True, True) 5 notifier_default 100 (demo_run 0)"
    by (rule served.started) (simp add: start_server_def subscribe_def demo_server_def
        notifier_default_def notifier_new_def)
  moreover have "fresh_notifier notifier_default"
    by (simp add: fresh_notifier_def notifier_default_def notifier_new_def)
  moreover have "sv_stage (demo_run 1) = Draining" by (simp add: on_signal_def)
  ultimately show ?thesis using shutdown_terminates [OF demo_run_fair] by blast
qed

end
