(* ===== verification/Tracing.thy ===== *)
theory Tracing
  imports Config
begin

text \<open>
  Logging and tracing: \<open>setup_tracing\<close> and \<open>setup_tracing_with\<close> of \<open>src/config/mod.rs\<close> and the
  process-wide state they and \<open>setup_opentelemetry\<close> (\<open>Router_Start\<close>) act on.  What the libraries
  \<open>tracing_subscriber\<close> and \<open>opentelemetry\<close> document of that state: \<open>try_init\<close> installs the global
  subscriber unless there is one already; the tracer provider and the propagator of the process
  are the ones set last; spans reach a provider through a layer of the global subscriber that
  was made with a tracer of that provider.
\<close>

section \<open>Global state\<close>

record otel_provider =
  op_endpoint :: string
  op_service :: string

datatype tracing_layer = FmtLayer log_format | EnvFilterLayer | OtelLayer otel_provider | CustomLayer string

record process_globals =
  pg_subscriber :: "tracing_layer list option"
  pg_tracer_provider :: "otel_provider option"
  pg_propagator :: bool

definition no_globals :: process_globals where
  "no_globals = \<lparr>pg_subscriber = None, pg_tracer_provider = None, pg_propagator = False\<rparr>"

definition try_init :: "tracing_layer list \<Rightarrow> process_globals \<Rightarrow> bool \<times> process_globals" where
  "try_init layers g =
     (case pg_subscriber g of
        Some s \<Rightarrow> (False, g)
      | None \<Rightarrow> (True, g\<lparr>pg_subscriber := Some layers\<rparr>))"

text \<open>Whether the spans of the process reach the exporter of a provider.\<close>

definition exports_to :: "otel_provider \<Rightarrow> process_globals \<Rightarrow> bool" where
  "exports_to p g = (case pg_subscriber g of Some layers \<Rightarrow> OtelLayer p \<in> set layers | None \<Rightarrow> False)"

section \<open>Setting up\<close>

definition tracing_base :: "'a config \<Rightarrow> tracing_layer list" where
  "tracing_base c = [FmtLayer (lc_format (cf_logging c)), EnvFilterLayer]"

definition setup_tracing :: "'a config \<Rightarrow> process_globals \<Rightarrow> process_globals" where
  "setup_tracing c g =
     snd (try_init [FmtLayer (lc_format (cf_logging c)), EnvFilterLayer] g)"

definition setup_tracing_with ::
  "(tracing_layer list \<Rightarrow> tracing_layer list) \<Rightarrow> 'a config \<Rightarrow> process_globals \<Rightarrow> process_globals" where
  "setup_tracing_with customize c g = snd (try_init (customize (tracing_base c)) g)"

text \<open>\<open>build_exporter\<close> is the OTLP exporter's builder, given the endpoint.\<close>

definition otel_provider_of :: "otel_config \<Rightarrow> otel_provider" where
  "otel_provider_of oc =
     \<lparr>op_endpoint = ot_endpoint oc,
      op_service = (case ot_service_name oc of Some n \<Rightarrow> n | None \<Rightarrow> ''axum-conf'')\<rparr>"

definition install_opentelemetry ::
  "(string \<Rightarrow> string + unit) \<Rightarrow> 'a config \<Rightarrow> process_globals
    \<Rightarrow> error + otel_provider option \<times> process_globals" where
  "install_opentelemetry build_exporter c g =
     (case lc_opentelemetry (cf_logging c) of
        None \<Rightarrow> Inr (None, g)
      | Some oc \<Rightarrow>
          and_then (map_err (\<lambda>e. internal_error (''Failed to create OTLP exporter: '' @ e))
              (build_exporter (ot_endpoint oc)))
            (\<lambda>_. let p = otel_provider_of oc
                 in Inr (Some p, setup_tracing_with (\<lambda>layers. layers @ [OtelLayer p]) c
                      (g\<lparr>pg_tracer_provider := Some p, pg_propagator := True\<rparr>))))"

section \<open>The first subscriber stays\<close>

lemma try_init_first: "pg_subscriber (snd (try_init layers g)) \<noteq> None"
  by (simp add: try_init_def split: option.split)

lemma try_init_kept:
  "pg_subscriber g = Some s \<Longrightarrow> snd (try_init layers g) = g"
  by (simp add: try_init_def)

lemma setup_tracing_is_with: "setup_tracing c g = setup_tracing_with (\<lambda>layers. layers) c g"
  by (simp add: setup_tracing_def setup_tracing_with_def tracing_base_def)

text \<open>The calls a process makes, in any order and number.\<close>

datatype 'a tracing_call =
    CallSetupTracing "'a config"
  | CallSetupTracingWith "tracing_layer list \<Rightarrow> tracing_layer list" "'a config"
  | CallSetupOpentelemetry "string \<Rightarrow> string + unit" "'a config"

fun tracing_step :: "'a tracing_call \<Rightarrow> process_globals \<Rightarrow> process_globals" where
  "tracing_step (CallSetupTracing c) g = setup_tracing c g"
| "tracing_step (CallSetupTracingWith f c) g = setup_tracing_with f c g"
| "tracing_step (CallSetupOpentelemetry build c) g =
     (case install_opentelemetry build c g of Inr (p, g') \<Rightarrow> g' | Inl e \<Rightarrow> g)"

text \<open>The layers a call would install, when it installs any.\<close>

fun call_layers :: "'a tracing_call \<Rightarrow> tracing_layer list option" where
  "call_layers (CallSetupTracing c) = Some (tracing_base c)"
| "call_layers (CallSetupTracingWith f c) = Some (f (tracing_base c))"
| "call_layers (CallSetupOpentelemetry build c) =
     (case lc_opentelemetry (cf_logging c) of
        Some oc \<Rightarrow> (case build (ot_endpoint oc) of
           Inr _ \<Rightarrow> Some (tracing_base c @ [OtelLayer (otel_provider_of oc)]) | Inl e \<Rightarrow> None)
      | None \<Rightarrow> None)"

lemma tracing_step_subscriber:
  "pg_subscriber (tracing_step call g) =
     (case pg_subscriber g of Some s \<Rightarrow> Some s | None \<Rightarrow> call_layers call)"
  by (cases call)
    (auto simp: setup_tracing_is_with setup_tracing_with_def try_init_def install_opentelemetry_def Let_def
      result_simps split: option.split sum.split)

fun first_some :: "'b option list \<Rightarrow> 'b option" where
  "first_some [] = None"
| "first_some (x # xs) = (case x of Some y \<Rightarrow> Some y | None \<Rightarrow> first_some xs)"

lemma tracing_run_subscriber:
  "pg_subscriber (fold tracing_step calls g) =
     (case pg_subscriber g of Some s \<Rightarrow> Some s | None \<Rightarrow> first_some (map call_layers calls))"
  by (induction calls arbitrary: g) (auto simp: tracing_step_subscriber split: option.split)

text \<open>C37: (first subscriber wins) Whatever a process calls to set up tracing, and in whatever order, its subscriber
is that of the first call that could build one.  So spans reach a provider exactly when
that first call installed its layer: after \<open>setup_tracing\<close> a later \<open>setup_opentelemetry\<close> still
sets the provider and the propagator of the process, and exports nothing.\<close>
theorem first_subscriber_wins:
  "(exports_to p (fold tracing_step calls no_globals) \<longleftrightarrow>
     (\<exists>layers. first_some (map call_layers calls) = Some layers \<and> OtelLayer p \<in> set layers))
   \<and> (let g = fold tracing_step (CallSetupTracing c # calls @
          [CallSetupOpentelemetry (\<lambda>_. Inr ()) (with_opentelemetry_config oc c)]) no_globals
      in pg_tracer_provider g = Some (otel_provider_of oc) \<and> \<not> exports_to (otel_provider_of oc) g)"
proof -
  let ?call = "CallSetupOpentelemetry (\<lambda>_. Inr ()) (with_opentelemetry_config oc c)"
  have "exports_to p (fold tracing_step calls no_globals) \<longleftrightarrow>
     (\<exists>layers. first_some (map call_layers calls) = Some layers \<and> OtelLayer p \<in> set layers)"
    by (simp add: exports_to_def tracing_run_subscriber no_globals_def split: option.split)
  moreover have "pg_tracer_provider (tracing_step ?call g) = Some (otel_provider_of oc)" for g
    by (simp add: install_opentelemetry_def with_opentelemetry_config_def setup_tracing_with_def
        try_init_def Let_def result_simps split: option.split)
  moreover have "pg_subscriber (fold tracing_step (CallSetupTracing c # rest) no_globals)
      = Some (tracing_base c)" for rest
    using tracing_run_subscriber [of "CallSetupTracing c # rest" no_globals] by (simp add: no_globals_def)
  then have none: "\<not> exports_to q (fold tracing_step (CallSetupTracing c # rest) no_globals)" for q rest
    by (simp add: exports_to_def tracing_base_def del: fold_simps)
  ultimately show ?thesis using none [of _ "calls @ [?call]"]
    by (simp del: tracing_step.simps add: Let_def)
qed

end
