(* ===== verification/Router_Setup.thy ===== *)
theory Router_Setup
  imports Breaker_Calls Shutdown Tracing Oidc_Flow Session_Store Basic_Auth Proxy_Auth Dedup
begin

text \<open>
  How a router is put together: \<open>src/fluent/router.rs\<close>, \<open>builder.rs\<close>, \<open>auth.rs\<close>,
  \<open>request.rs\<close>, \<open>control.rs\<close>, \<open>features.rs\<close> and \<open>observability.rs\<close>.  The \<open>axum::Router\<close>
  in \<open>inner\<close> is the sequence of the calls made on it; what they mean for a request is in
  \<open>Router_Stack\<close>.  Log output is not modelled.
\<close>

section \<open>Layers, endpoints and routers\<close>

datatype cors_origin = OriginUnset | OriginAny | OriginExact string | OriginMirror

datatype cors_list = ListUnset | ListAny | ListExact "string list" | ListMirror

record cors_layer =
  kl_origin :: cors_origin
  kl_methods :: cors_list
  kl_headers :: cors_list
  kl_exposed :: cors_list
  kl_max_age :: "nanos option"
  kl_credentials :: bool

datatype helmet_header = NoSniff | XFrame x_frame_options

datatype session_backend = MemoryBackend | PostgresBackend string | RedisBackend string string | CustomBackend

datatype 'k layer_kind =
    BrowserRedirectLayer browser_redirect_config
  | BearerAuthLayer "'k jwks_provider" bearer_config
  | SessionToIdentityLayer string
  | OidcClientExtension "'k oidc_client"
  | BasicAuthLayer basic_auth_config bool
  | ProxyOidcLayer proxy_oidc_config bool
  | UserSpanLayer
  | SessionManagerLayer session_backend bool same_site nat
  | DedupLayer dedup_layer
  | ConcurrencyLimitLayer nat
  | DefaultBodyLimitDisable
  | RequestBodyLimitLayer nat
  | RequestDecompressionLayer
  | CompressionLayer
  | NormalizePathLayer
  | SensitiveHeadersLayer "string list"
  | ApiVersioningLayer u32
  | CorsLayer cors_layer
  | HelmetLayer "helmet_header list"
  | SetResponseHeaderLayer string string
  | TraceLayer
  | PrometheusLayer string
  | TimeoutLayer nat nanos
  | GovernorLayer nanos u32
  | PropagateRequestIdLayer string
  | SetRequestIdLayer string
  | CatchPanicLayer
  | AppLayer string

datatype endpoint =
    LoginEndpoint | CallbackEndpoint | LogoutEndpoint | LivenessEndpoint | ReadinessEndpoint
  | MetricsEndpoint | StaticFiles string "string option" | AppEndpoint string

datatype 'k router_op =
    AddRoute string endpoint
  | AddNest string endpoint
  | NestRouter string "'k router_op list"
  | MergeRouter "'k router_op list"
  | AddLayer "'k layer_kind"
  | AddRouteLayer "'k layer_kind"
  | SetFallback endpoint

datatype background_task = GovernorCleanup | DedupCleanup | SessionCleanup

record 'k fluent_router =
  fr_config :: "unit config"
  fr_inner :: "'k router_op list"
  fr_tasks :: "background_task list"
  fr_panic_channel :: bool
  fr_notifier :: notifier
  fr_readiness_check :: bool
  fr_registry :: registry
  fr_otel_provider :: "otel_provider option"

text \<open>The Cargo features that choose between an implementation and a no-op.\<close>

record features =
  ft_keycloak :: bool
  ft_basic_auth :: bool
  ft_session :: bool
  ft_deduplication :: bool
  ft_concurrency_limit :: bool
  ft_payload_limit :: bool
  ft_compression :: bool
  ft_path_normalization :: bool
  ft_sensitive_headers :: bool
  ft_api_versioning :: bool
  ft_cors :: bool
  ft_security_headers :: bool
  ft_metrics :: bool
  ft_rate_limiting :: bool

text \<open>
  What setting up depends on besides the configuration: the provider's answers, the session
  back ends, the header constructors of the \<open>http\<close> crate, the security header library, and the
  metrics path an earlier router of the process may have fixed.
\<close>

record 'k setup_env =
  se_jwks_uri :: "string \<Rightarrow> string \<Rightarrow> error + string"
  se_provider :: "string \<Rightarrow> string \<Rightarrow> string list \<Rightarrow> bool \<Rightarrow> error + 'k jwks_provider"
  se_client :: "oidc_config \<Rightarrow> error + 'k oidc_client"
  se_migrate :: "string + unit"
  se_redis_url :: "string \<Rightarrow> string + unit"
  se_redis_pool :: "string + unit"
  se_redis_connect :: "string + unit"
  se_header_value :: "string \<Rightarrow> string + unit"
  se_header_name :: "string \<Rightarrow> bool"
  se_helmet :: "helmet_header list \<Rightarrow> bool"
  se_metrics_path :: "string option"

definition is_middleware_enabled :: "'k fluent_router \<Rightarrow> http_middleware \<Rightarrow> bool" where
  "is_middleware_enabled r m =
     (case hc_middleware (cf_http (fr_config r)) of Some c \<Rightarrow> mw_is_enabled c m | None \<Rightarrow> True)"

abbreviation fr_http :: "'k fluent_router \<Rightarrow> http_config" where
  "fr_http r \<equiv> cf_http (fr_config r)"

definition call_inner :: "'k router_op list \<Rightarrow> 'k fluent_router \<Rightarrow> 'k fluent_router" where
  "call_inner ops r = r\<lparr>fr_inner := fr_inner r @ ops\<rparr>"

text \<open>A step that may panic.\<close>

datatype 'a started = Panicked | Started 'a

text \<open>\<open>pool\<close> is the result of creating the connection pool.\<close>

definition with_state :: "error + unit \<Rightarrow> 'a config \<Rightarrow> error + 'k fluent_router" where
  "with_state pool c =
     and_then (config_validate c) (\<lambda>_. and_then pool (\<lambda>_. Inr
       \<lparr>fr_config = \<lparr>cf_http = cf_http c, cf_database = cf_database c, cf_logging = cf_logging c,
          cf_circuit_breakers = cf_circuit_breakers c, cf_app = (), cf_is_production = cf_is_production c\<rparr>,
        fr_inner = [], fr_tasks = [], fr_panic_channel = False, fr_notifier = notifier_default,
        fr_readiness_check = False,
        fr_registry = registry_new \<lparr>targets = cf_circuit_breakers c\<rparr>, fr_otel_provider = None\<rparr>))"

definition without_state :: "(string \<Rightarrow> string + 'o) \<Rightarrow> 'a config \<Rightarrow> error + 'k fluent_router" where
  "without_state parse c =
     (let base = \<lparr>cf_http = cf_http c, cf_database = cf_database c, cf_logging = cf_logging c,
            cf_circuit_breakers = cf_circuit_breakers c, cf_app = (), cf_is_production = cf_is_production c\<rparr>
      in with_state (and_then (create_pgpool parse base) (\<lambda>_. Inr ())) base)"

definition with_readiness_check :: "'k fluent_router \<Rightarrow> 'k fluent_router" where
  "with_readiness_check r = r\<lparr>fr_readiness_check := True\<rparr>"

definition with_panic_notification_channel :: "'k fluent_router \<Rightarrow> 'k fluent_router" where
  "with_panic_notification_channel r = r\<lparr>fr_panic_channel := True\<rparr>"

definition router_layer :: "'k layer_kind \<Rightarrow> 'k fluent_router \<Rightarrow> 'k fluent_router" where
  "router_layer l r = call_inner [AddLayer l] r"

definition router_route :: "string \<Rightarrow> endpoint \<Rightarrow> 'k fluent_router \<Rightarrow> 'k fluent_router" where
  "router_route path e r = call_inner [AddRoute path e] r"

definition router_route_layer :: "'k layer_kind \<Rightarrow> 'k fluent_router \<Rightarrow> 'k fluent_router" where
  "router_route_layer l r = call_inner [AddRouteLayer l] r"

definition router_nest_service :: "string \<Rightarrow> endpoint \<Rightarrow> 'k fluent_router \<Rightarrow> 'k fluent_router" where
  "router_nest_service path e r = call_inner [AddNest path e] r"

definition router_route_service :: "string \<Rightarrow> endpoint \<Rightarrow> 'k fluent_router \<Rightarrow> 'k fluent_router" where
  "router_route_service path e r = call_inner [AddRoute path e] r"

definition router_nest :: "string \<Rightarrow> 'k router_op list \<Rightarrow> 'k fluent_router \<Rightarrow> 'k fluent_router" where
  "router_nest path other r = call_inner [NestRouter path other] r"

definition router_merge :: "'k router_op list \<Rightarrow> 'k fluent_router \<Rightarrow> 'k fluent_router" where
  "router_merge other r = call_inner [MergeRouter other] r"

definition router_into_inner :: "'k fluent_router \<Rightarrow> 'k router_op list" where
  "router_into_inner r = fr_inner r"

section \<open>Static files\<close>

definition static_files :: "'k setup_env \<Rightarrow> static_dir_config \<Rightarrow> error + endpoint" where
  "static_files env d =
     (case sd_cache_max_age d of
        None \<Rightarrow> Inr (StaticFiles (sd_directory d) None)
      | Some age \<Rightarrow>
          (let v = ''public, max-age='' @ show_nat (unat age)
           in and_then (map_err (\<lambda>e. error_from (InvalidHeaderValue e)) (se_header_value env v))
                (\<lambda>_. Inr (StaticFiles (sd_directory d) (Some v)))))"

fun nest_directories ::
  "'k setup_env \<Rightarrow> bool \<Rightarrow> static_dir_config list \<Rightarrow> 'k fluent_router \<Rightarrow> error + 'k fluent_router" where
  "nest_directories env protected [] r = Inr r"
| "nest_directories env protected (d # ds) r =
     (case sd_route d of
        Route route \<Rightarrow>
          if sd_protected d = protected
          then and_then (static_files env d)
                 (\<lambda>e. nest_directories env protected ds (router_nest_service route e r))
          else nest_directories env protected ds r
      | Fallback b \<Rightarrow> nest_directories env protected ds r)"

definition setup_directories :: "'k setup_env \<Rightarrow> bool \<Rightarrow> 'k fluent_router \<Rightarrow> error + 'k fluent_router" where
  "setup_directories env protected r =
     nest_directories env protected (hc_directories (fr_http r)) r"

definition setup_public_files :: "'k setup_env \<Rightarrow> 'k fluent_router \<Rightarrow> error + 'k fluent_router" where
  "setup_public_files env r = setup_directories env False r"

definition setup_protected_files :: "'k setup_env \<Rightarrow> 'k fluent_router \<Rightarrow> error + 'k fluent_router" where
  "setup_protected_files env r = setup_directories env True r"

definition setup_fallback_files :: "'k setup_env \<Rightarrow> 'k fluent_router \<Rightarrow> error + 'k fluent_router" where
  "setup_fallback_files env r =
     (case find is_fallback (hc_directories (fr_http r)) of
        None \<Rightarrow> Inr r
      | Some d \<Rightarrow> and_then (static_files env d) (\<lambda>e. Inr (call_inner [SetFallback e] r)))"

section \<open>Authentication\<close>

definition setup_oidc :: "'k setup_env \<Rightarrow> 'k fluent_router \<Rightarrow> error + 'k fluent_router" where
  "setup_oidc env r =
     (case hc_oidc (fr_http r) of
        None \<Rightarrow> Inr r
      | Some oidc \<Rightarrow>
          if \<not> is_middleware_enabled r Oidc then Inr r
          else
            and_then (case oc_jwks_url oidc of
                        Some url \<Rightarrow> Inr url
                      | None \<Rightarrow> se_jwks_uri env (oidc_issuer oidc) (oc_realm oidc)) (\<lambda>jwks_url.
            and_then (se_provider env jwks_url (oidc_issuer oidc) (oc_audiences oidc)
                (cf_is_production (fr_config r))) (\<lambda>jwks.
            (let flow = auth_code_flow_enabled oidc;
                 c = \<lparr>bc_passthrough = flow, bc_roles_claim = oc_roles_claim oidc\<rparr>;
                 r1 = call_inner [AddRouteLayer (BearerAuthLayer jwks c)] r
             in Inr (if flow
                     then call_inner [AddLayer (SessionToIdentityLayer (oc_roles_claim oidc))] r1
                     else r1)))))"

definition setup_oidc_routes :: "'k setup_env \<Rightarrow> 'k fluent_router \<Rightarrow> error + 'k fluent_router" where
  "setup_oidc_routes env r =
     (case hc_oidc (fr_http r) of
        None \<Rightarrow> Inr r
      | Some oidc \<Rightarrow>
          if \<not> auth_code_flow_enabled oidc \<or> \<not> is_middleware_enabled r Oidc then Inr r
          else and_then (se_client env oidc) (\<lambda>client. Inr (call_inner
                 [AddRoute (oc_login_route oidc) LoginEndpoint,
                  AddRoute (oc_callback_route oidc) CallbackEndpoint,
                  AddRoute (oc_logout_route oidc) LogoutEndpoint,
                  AddLayer (OidcClientExtension client)] r)))"

definition basic_passthrough :: "'k fluent_router \<Rightarrow> bool" where
  "basic_passthrough r =
     (case hc_oidc (fr_http r) of Some o' \<Rightarrow> auth_code_flow_enabled o' | None \<Rightarrow> False)"

definition setup_basic_auth :: "'k fluent_router \<Rightarrow> 'k fluent_router" where
  "setup_basic_auth r =
     (case hc_basic_auth (fr_http r) of
        Some c \<Rightarrow> if is_middleware_enabled r BasicAuth
                  then call_inner [AddRouteLayer (BasicAuthLayer c (basic_passthrough r))] r else r
      | None \<Rightarrow> r)"

definition setup_proxy_oidc :: "'k fluent_router \<Rightarrow> 'k fluent_router" where
  "setup_proxy_oidc r =
     (case hc_proxy_oidc (fr_http r) of
        Some c \<Rightarrow> if is_middleware_enabled r ProxyOidc
                  then call_inner [AddRouteLayer (ProxyOidcLayer c (cf_is_production (fr_config r)))] r
                  else r
      | None \<Rightarrow> r)"

definition route_path :: "static_dir_config \<Rightarrow> string option" where
  "route_path d = (case sd_route d of Route p \<Rightarrow> Some p | Fallback b \<Rightarrow> None)"

definition login_redirect_config :: "http_config \<Rightarrow> oidc_config \<Rightarrow> browser_redirect_config" where
  "login_redirect_config h oidc =
     \<lparr>br_login_route = oc_login_route oidc,
      br_skip_paths = [oc_login_route oidc, oc_callback_route oidc, oc_logout_route oidc,
        hc_liveness_route h, hc_readiness_route h, hc_metrics_route h]
        @ List.map_filter route_path (hc_directories h)\<rparr>"

definition setup_browser_login_redirect :: "'k fluent_router \<Rightarrow> 'k fluent_router" where
  "setup_browser_login_redirect r =
     (case hc_oidc (fr_http r) of
        None \<Rightarrow> r
      | Some oidc \<Rightarrow>
          if auth_code_flow_enabled oidc \<and> oc_auto_redirect_to_login oidc \<and> is_middleware_enabled r Oidc
          then call_inner [AddRouteLayer (BrowserRedirectLayer (login_redirect_config (fr_http r) oidc))] r
          else r)"

definition setup_user_span :: "'k fluent_router \<Rightarrow> 'k fluent_router" where
  "setup_user_span r = call_inner [AddLayer UserSpanLayer] r"

section \<open>Sessions\<close>

abbreviation SESSION_INACTIVITY_SECS :: nat where
  "SESSION_INACTIVITY_SECS \<equiv> 3600"

definition apply_session_layer ::
  "session_backend \<Rightarrow> bool \<Rightarrow> same_site \<Rightarrow> 'k fluent_router \<Rightarrow> 'k fluent_router" where
  "apply_session_layer store secure site r =
     call_inner [AddLayer (SessionManagerLayer store secure site SESSION_INACTIVITY_SECS)] r"

definition with_session_store :: "'k fluent_router \<Rightarrow> 'k fluent_router" where
  "with_session_store r =
     apply_session_layer CustomBackend (hc_session_secure_cookie (fr_http r))
       (hc_session_same_site (fr_http r)) r"

definition session_signing_key_bytes :: "'k fluent_router \<Rightarrow> error + string" where
  "session_signing_key_bytes r =
     ok_or (config_error ''session_signing_key is required for an external session store'')
       (map_option expose_secret (hc_session_signing_key (fr_http r)))"

definition setup_session_handling :: "'k setup_env \<Rightarrow> 'k fluent_router \<Rightarrow> error + 'k fluent_router" where
  "setup_session_handling env r =
     (let apply = (\<lambda>store. apply_session_layer store (hc_session_secure_cookie (fr_http r))
                             (hc_session_same_site (fr_http r)))
      in case hc_session_store (fr_http r) of
           Memory \<Rightarrow> Inr (apply MemoryBackend r)
         | Postgres \<Rightarrow>
             and_then (session_signing_key_bytes r) (\<lambda>key.
             and_then (map_err (\<lambda>e. database_error (''session store migration failed: '' @ e))
                 (se_migrate env)) (\<lambda>_.
             Inr (apply (PostgresBackend key) (r\<lparr>fr_tasks := List.insert SessionCleanup (fr_tasks r)\<rparr>))))
         | Redis url \<Rightarrow>
             and_then (map_err (\<lambda>e. config_error (''invalid redis url: '' @ e)) (se_redis_url env url)) (\<lambda>_.
             and_then (map_err (\<lambda>e. config_error (''redis pool init failed: '' @ e)) (se_redis_pool env)) (\<lambda>_.
             and_then (map_err (\<lambda>e. config_error (''redis connect failed: '' @ e)) (se_redis_connect env)) (\<lambda>_.
             and_then (session_signing_key_bytes r) (\<lambda>key.
             Inr (apply (RedisBackend url key) r))))))"

section \<open>Requests\<close>

definition setup_max_payload_size :: "'k fluent_router \<Rightarrow> 'k fluent_router" where
  "setup_max_payload_size r =
     (if is_middleware_enabled r MaxPayloadSize
      then call_inner [AddLayer DefaultBodyLimitDisable,
             AddLayer (RequestBodyLimitLayer (unat (hc_max_payload_size_bytes (fr_http r))))] r
      else r)"

definition setup_concurrency_limit :: "'k fluent_router \<Rightarrow> 'k fluent_router" where
  "setup_concurrency_limit r =
     (if is_middleware_enabled r ConcurrencyLimit
      then call_inner [AddLayer (ConcurrencyLimitLayer (unat (hc_max_concurrent_requests (fr_http r))))] r
      else r)"

definition setup_request_id :: "'k fluent_router \<Rightarrow> 'k fluent_router" where
  "setup_request_id r =
     (if is_middleware_enabled r RequestId
      then call_inner [AddLayer (PropagateRequestIdLayer ''x-request-id''),
             AddLayer (SetRequestIdLayer ''x-request-id'')] r
      else r)"

definition setup_deduplication :: "'k fluent_router \<Rightarrow> 'k fluent_router" where
  "setup_deduplication r =
     (if \<not> is_middleware_enabled r RequestDeduplication then r
      else if \<not> is_middleware_enabled r RequestId then r
      else case hc_deduplication (fr_http r) of
             None \<Rightarrow> r
           | Some c \<Rightarrow>
               call_inner [AddLayer (DedupLayer
                   (dedup_layer_new (dd_cfg_ttl c) (dd_cfg_max_entries c) ''x-request-id''))]
                 (r\<lparr>fr_tasks := List.insert DedupCleanup (fr_tasks r)\<rparr>))"

definition setup_sensitive_headers :: "features \<Rightarrow> 'k setup_env \<Rightarrow> 'k fluent_router \<Rightarrow> 'k fluent_router" where
  "setup_sensitive_headers ft env r =
     (if is_middleware_enabled r SensitiveHeaders
      then call_inner [AddLayer (SensitiveHeadersLayer
             ([''authorization'', ''cookie'', ''set-cookie'']
              @ (case hc_basic_auth (fr_http r) of
                   Some c \<Rightarrow> if ft_basic_auth ft \<and> se_header_name env (ba_api_key_header c)
                             then [map to_ascii_lower (ba_api_key_header c)] else []
                 | None \<Rightarrow> [])))] r
      else r)"

section \<open>Control\<close>

text \<open>
  The period between two permits, in nanoseconds; the governor cannot be built with a period
  of zero, and the code then panics.
\<close>

definition governor_period :: "u32 \<Rightarrow> nat" where
  "governor_period rate = 1000000000 div unat rate"

definition setup_rate_limiting :: "'k fluent_router \<Rightarrow> 'k fluent_router started" where
  "setup_rate_limiting r =
     (let rate = hc_max_requests_per_sec (fr_http r)
      in if rate > 0 \<and> is_middleware_enabled r RateLimiting
         then (if governor_period rate = 0 then Panicked
               else Started (call_inner [AddLayer (GovernorLayer (governor_period rate) rate)]
                      (r\<lparr>fr_tasks := List.insert GovernorCleanup (fr_tasks r)\<rparr>)))
         else Started r)"

definition setup_catch_panic :: "'k fluent_router \<Rightarrow> 'k fluent_router" where
  "setup_catch_panic r =
     (if is_middleware_enabled r CatchPanic then call_inner [AddLayer CatchPanicLayer] r else r)"

datatype panic_payload = PanicString string | PanicStr string | OtherPayload

definition panic_message :: "panic_payload \<Rightarrow> string" where
  "panic_message p =
     (case p of PanicString s \<Rightarrow> ''Service panicked: '' @ s
      | PanicStr s \<Rightarrow> ''Service panicked: '' @ s
      | OtherPayload \<Rightarrow> ''`CatchPanic` was unable to downcast the panic info'')"

text \<open>The response to a panic, and the message for the notification channel, if there is one.\<close>

definition panic_response :: "bool \<Rightarrow> panic_payload \<Rightarrow> response \<times> string option" where
  "panic_response has_channel p =
     (\<lparr>rs_status = 500, rs_headers = [(''content-type'', ''text/plain; charset=utf-8'')],
       rs_body = TextBody ''Internal Server Error''\<rparr>,
      if has_channel then Some (panic_message p) else None)"

section \<open>Features\<close>

definition setup_path_normalization :: "'k fluent_router \<Rightarrow> 'k fluent_router" where
  "setup_path_normalization r =
     (if is_middleware_enabled r PathNormalization then call_inner [AddLayer NormalizePathLayer] r else r)"

definition setup_timeout :: "'k fluent_router \<Rightarrow> 'k fluent_router" where
  "setup_timeout r =
     (if \<not> is_middleware_enabled r Timeout then r
      else case hc_request_timeout (fr_http r) of
             Some t \<Rightarrow> call_inner [AddLayer (TimeoutLayer 408 t)] r
           | None \<Rightarrow> r)"

definition setup_api_versioning :: "u32 \<Rightarrow> 'k fluent_router \<Rightarrow> 'k fluent_router" where
  "setup_api_versioning default_version r =
     (if is_middleware_enabled r ApiVersioning
      then call_inner [AddLayer (ApiVersioningLayer default_version)] r else r)"

definition setup_compression :: "'k fluent_router \<Rightarrow> 'k fluent_router" where
  "setup_compression r =
     (if hc_support_compression (fr_http r) \<and> is_middleware_enabled r Compression
      then call_inner [AddLayer RequestDecompressionLayer, AddLayer CompressionLayer] r else r)"

text \<open>\<open>format!("ALLOW-FROM {url}")\<close> must be a header value, or the option falls back to \<open>Deny\<close>.\<close>

definition helmet_x_frame :: "'k setup_env \<Rightarrow> x_frame_options \<Rightarrow> x_frame_options" where
  "helmet_x_frame env x =
     (case x of
        AllowFrom url \<Rightarrow> if is_ok (se_header_value env (''ALLOW-FROM '' @ url)) then AllowFrom url else Deny
      | _ \<Rightarrow> x)"

definition helmet_headers :: "'k setup_env \<Rightarrow> http_config \<Rightarrow> helmet_header list" where
  "helmet_headers env h =
     (if hc_x_content_type_nosniff h then [NoSniff] else [])
     @ [XFrame (helmet_x_frame env (hc_x_frame_options h))]"

definition hsts_value :: "http_config \<Rightarrow> u64 \<Rightarrow> string" where
  "hsts_value h max_age =
     ''max-age='' @ show_nat (unat max_age)
     @ (if hc_hsts_include_subdomains h then ''; includeSubDomains'' else [])"

definition header_layer :: "'k setup_env \<Rightarrow> string \<Rightarrow> string \<Rightarrow> 'k router_op list" where
  "header_layer env name v =
     (if is_ok (se_header_value env v) then [AddLayer (SetResponseHeaderLayer name v)] else [])"

definition setup_helmet :: "'k setup_env \<Rightarrow> 'k fluent_router \<Rightarrow> 'k fluent_router" where
  "setup_helmet env r =
     (if \<not> is_middleware_enabled r SecurityHeaders then r
      else let h = fr_http r; hs = helmet_headers env h
           in call_inner
                ((if se_helmet env hs then [AddLayer (HelmetLayer hs)] else [])
                 @ (case hc_hsts_max_age h of
                      Some a \<Rightarrow> header_layer env ''strict-transport-security'' (hsts_value h a)
                    | None \<Rightarrow> [])
                 @ (case hc_content_security_policy h of
                      Some csp \<Rightarrow> header_layer env ''content-security-policy'' csp
                    | None \<Rightarrow> [])) r)"

subsection \<open>CORS\<close>

text \<open>
  The builder of \<open>tower_http::cors::CorsLayer\<close>: a setter overrides what an earlier call set.
\<close>

definition cors_new :: cors_layer where
  "cors_new = \<lparr>kl_origin = OriginUnset, kl_methods = ListUnset, kl_headers = ListUnset,
     kl_exposed = ListUnset, kl_max_age = None, kl_credentials = False\<rparr>"

definition cors_very_permissive :: cors_layer where
  "cors_very_permissive = \<lparr>kl_origin = OriginMirror, kl_methods = ListMirror, kl_headers = ListMirror,
     kl_exposed = ListUnset, kl_max_age = None, kl_credentials = True\<rparr>"

definition allow_origins :: "'k setup_env \<Rightarrow> string list \<Rightarrow> cors_layer \<Rightarrow> cors_layer" where
  "allow_origins env origins =
     fold (\<lambda>o' c. if is_ok (se_header_value env o') then c\<lparr>kl_origin := OriginExact o'\<rparr> else c) origins"

definition cors_from_config :: "'k setup_env \<Rightarrow> cors_config \<Rightarrow> cors_layer" where
  "cors_from_config env c =
     (let creds = (co_allow_credentials c = Some True);
          k1 = (case co_allowed_origins c of
                  Some os \<Rightarrow> allow_origins env os cors_new
                | None \<Rightarrow> if creds then cors_new else cors_new\<lparr>kl_origin := OriginAny\<rparr>);
          k2 = (case co_allowed_methods c of
                  Some ms \<Rightarrow> k1\<lparr>kl_methods := ListExact ms\<rparr>
                | None \<Rightarrow> if creds then k1 else k1\<lparr>kl_methods := ListAny\<rparr>);
          k3 = (case co_allowed_headers c of
                  Some hs \<Rightarrow> k2\<lparr>kl_headers := ListExact hs\<rparr>
                | None \<Rightarrow> if creds then k2 else k2\<lparr>kl_headers := ListAny\<rparr>);
          k4 = (case co_exposed_headers c of Some hs \<Rightarrow> k3\<lparr>kl_exposed := ListExact hs\<rparr> | None \<Rightarrow> k3);
          k5 = (case co_max_age c of Some a \<Rightarrow> k4\<lparr>kl_max_age := Some a\<rparr> | None \<Rightarrow> k4)
      in if creds then k5\<lparr>kl_credentials := True\<rparr> else k5)"

text \<open>
  As \<open>tower_http\<close> documents it, adding a layer that combines credentials with a single \<open>*\<close> panics,
  whether the \<open>*\<close> was set as \<open>Any\<close> or given as a value.
\<close>

definition cors_wildcard :: "cors_list \<Rightarrow> bool" where
  "cors_wildcard l \<longleftrightarrow> l \<in> {ListAny, ListExact [''*'']}"

definition cors_usable :: "cors_layer \<Rightarrow> bool" where
  "cors_usable k \<longleftrightarrow>
     (kl_credentials k \<longrightarrow> kl_origin k \<notin> {OriginAny, OriginExact ''*''}
        \<and> \<not> cors_wildcard (kl_methods k) \<and> \<not> cors_wildcard (kl_headers k) \<and> \<not> cors_wildcard (kl_exposed k))"

definition cors_of :: "'k setup_env \<Rightarrow> 'k fluent_router \<Rightarrow> cors_layer" where
  "cors_of env r =
     (case hc_cors (fr_http r) of
        Some c \<Rightarrow> cors_from_config env c
      | None \<Rightarrow> if cf_is_production (fr_config r) then cors_new else cors_very_permissive)"

definition setup_cors :: "'k setup_env \<Rightarrow> 'k fluent_router \<Rightarrow> 'k fluent_router started" where
  "setup_cors env r =
     (if \<not> is_middleware_enabled r Cors then Started r
      else if cors_usable (cors_of env r)
           then Started (call_inner [AddLayer (CorsLayer (cors_of env r))] r) else Panicked)"

definition usable_origins :: "'k setup_env \<Rightarrow> string list \<Rightarrow> string list" where
  "usable_origins env os = filter (\<lambda>o'. is_ok (se_header_value env o')) os"

lemma allow_origins_last:
  "allow_origins env os c =
     (if usable_origins env os = [] then c
      else c\<lparr>kl_origin := OriginExact (last (usable_origins env os))\<rparr>)"
  by (induction os arbitrary: c) (simp_all add: allow_origins_def usable_origins_def)

lemma cors_fields:
  "kl_credentials (cors_from_config env c) = (co_allow_credentials c = Some True)"
  "kl_origin (cors_from_config env c) =
     (case co_allowed_origins c of
        Some os \<Rightarrow> if usable_origins env os = [] then OriginUnset
                   else OriginExact (last (usable_origins env os))
      | None \<Rightarrow> if co_allow_credentials c = Some True then OriginUnset else OriginAny)"
  "kl_methods (cors_from_config env c) =
     (case co_allowed_methods c of Some ms \<Rightarrow> ListExact ms
      | None \<Rightarrow> if co_allow_credentials c = Some True then ListUnset else ListAny)"
  "kl_headers (cors_from_config env c) =
     (case co_allowed_headers c of Some hs \<Rightarrow> ListExact hs
      | None \<Rightarrow> if co_allow_credentials c = Some True then ListUnset else ListAny)"
  "kl_exposed (cors_from_config env c) =
     (case co_exposed_headers c of Some hs \<Rightarrow> ListExact hs | None \<Rightarrow> ListUnset)"
  by (simp_all add: cors_from_config_def Let_def allow_origins_last cors_new_def split: option.split)

section \<open>Health and observability\<close>

definition setup_liveness :: "'k fluent_router \<Rightarrow> 'k fluent_router" where
  "setup_liveness r =
     (if is_middleware_enabled r Liveness
      then call_inner [AddRoute (hc_liveness_route (fr_http r)) LivenessEndpoint] r else r)"

definition setup_readiness :: "'k fluent_router \<Rightarrow> 'k fluent_router" where
  "setup_readiness r =
     (if is_middleware_enabled r Readiness
      then call_inner [AddRoute (hc_readiness_route (fr_http r)) ReadinessEndpoint] r else r)"

definition setup_logging :: "'k fluent_router \<Rightarrow> 'k fluent_router" where
  "setup_logging r = (if is_middleware_enabled r Logging then call_inner [AddLayer TraceLayer] r else r)"

text \<open>The path of the metrics is fixed by the first router of the process that serves them.\<close>

definition metrics_path :: "'k setup_env \<Rightarrow> 'k fluent_router \<Rightarrow> string" where
  "metrics_path env r =
     (case se_metrics_path env of Some p \<Rightarrow> p | None \<Rightarrow> hc_metrics_route (fr_http r))"

definition any_custom_metrics :: "http_config \<Rightarrow> bool" where
  "any_custom_metrics h =
     (hc_metrics_buckets h \<noteq> [] \<or> hc_metrics_global_labels h \<noteq> []
      \<or> hc_metrics_idle_timeout h \<noteq> None \<or> hc_metrics_upkeep_timeout h \<noteq> None)"

text \<open>Custom buckets and labels are moved out of the configuration.\<close>

definition setup_metrics :: "'k setup_env \<Rightarrow> 'k fluent_router \<Rightarrow> 'k fluent_router" where
  "setup_metrics env r =
     (if hc_with_metrics (fr_http r) \<and> is_middleware_enabled r Metrics
      then (let r1 = (if any_custom_metrics (fr_http r)
                      then r\<lparr>fr_config := (fr_config r)\<lparr>cf_http := (fr_http r)
                             \<lparr>hc_metrics_buckets := [], hc_metrics_global_labels := []\<rparr>\<rparr>\<rparr>
                      else r)
            in call_inner [AddRoute (metrics_path env r) MetricsEndpoint,
                 AddLayer (PrometheusLayer (metrics_path env r))] r1)
      else r)"

datatype matcher = FullName string | PrefixName string | SuffixName string

definition to_matcher :: "metric_buckets_config \<Rightarrow> matcher" where
  "to_matcher c =
     (case mb_match c of FullMatch \<Rightarrow> FullName (mb_metric c) | PrefixMatch \<Rightarrow> PrefixName (mb_metric c)
      | SuffixMatch \<Rightarrow> SuffixName (mb_metric c))"

record recorder =
  rc_buckets :: "(matcher \<times> f64 list) list"
  rc_labels :: "(string \<times> string) list"
  rc_idle_timeout :: "nanos option"

definition plain_recorder :: recorder where
  "plain_recorder = \<lparr>rc_buckets = [], rc_labels = [], rc_idle_timeout = None\<rparr>"

text \<open>
  \<open>set_buckets\<close> is \<open>set_buckets_for_metric\<close>, of which the code uses that it fails on an empty
  list; \<open>duration_name\<close> and \<open>duration_buckets\<close> are the built-in histogram.
\<close>

definition configure_metrics_recorder ::
  "(matcher \<Rightarrow> f64 list \<Rightarrow> recorder \<Rightarrow> 'e + recorder) \<Rightarrow> string \<Rightarrow> f64 list
    \<Rightarrow> metric_buckets_config list \<Rightarrow> (string \<times> string) list \<Rightarrow> nanos option \<Rightarrow> 'e + recorder" where
  "configure_metrics_recorder set_buckets duration_name duration_buckets buckets labels idle =
     and_then (foldl (\<lambda>acc c. if mb_buckets c = [] then acc
                               else and_then acc (set_buckets (to_matcher c) (mb_buckets c)))
          (set_buckets (FullName duration_name) duration_buckets
             plain_recorder) buckets)
       (\<lambda>rc. Inr (let rc1 = rc\<lparr>rc_labels := labels\<rparr>
                  in case idle of Some t \<Rightarrow> rc1\<lparr>rc_idle_timeout := Some t\<rparr> | None \<Rightarrow> rc1))"

text \<open>
  The recorder behind the handle, and the interval of its upkeep task if one is started;
  \<open>install\<close> says whether it can become the global recorder.
\<close>

definition build_custom_metrics_recorder ::
  "(matcher \<Rightarrow> f64 list \<Rightarrow> recorder \<Rightarrow> 'e + recorder) \<Rightarrow> string \<Rightarrow> f64 list \<Rightarrow> (recorder \<Rightarrow> bool)
    \<Rightarrow> metric_buckets_config list \<Rightarrow> (string \<times> string) list \<Rightarrow> nanos option \<Rightarrow> nanos option
    \<Rightarrow> recorder \<times> nanos option" where
  "build_custom_metrics_recorder set_buckets duration_name duration_buckets install buckets labels idle upkeep =
     (let rc = (case configure_metrics_recorder set_buckets duration_name duration_buckets buckets labels idle of
                  Inr rc \<Rightarrow> rc | Inl e \<Rightarrow> plain_recorder)
      in if install rc then (rc, Some (case upkeep of Some t \<Rightarrow> t | None \<Rightarrow> secs 5))
         else (plain_recorder, None))"

section \<open>The whole stack\<close>

text \<open>A step, or the no-op that a disabled feature leaves in its place.\<close>

definition featured :: "bool \<Rightarrow> ('r \<Rightarrow> 'r) \<Rightarrow> 'r \<Rightarrow> 'r" where
  "featured b f r = (if b then f r else r)"

definition featured_try :: "bool \<Rightarrow> ('r \<Rightarrow> 'e + 'r) \<Rightarrow> 'r \<Rightarrow> 'e + 'r" where
  "featured_try b f r = (if b then f r else Inr r)"

text \<open>Positions 1 to 9 of \<open>setup_middleware\<close>: every step that can fail before the last one.\<close>

definition setup_auth_stack :: "features \<Rightarrow> 'k setup_env \<Rightarrow> 'k fluent_router \<Rightarrow> error + 'k fluent_router" where
  "setup_auth_stack ft env r =
     and_then (setup_protected_files env r) (\<lambda>r.
     and_then (featured_try (ft_keycloak ft) (setup_oidc env)
         (featured (ft_keycloak ft) setup_browser_login_redirect r)) (\<lambda>r.
     and_then (setup_public_files env (setup_proxy_oidc (featured (ft_basic_auth ft) setup_basic_auth r))) (\<lambda>r.
     and_then (featured_try (ft_keycloak ft) (setup_oidc_routes env) r) (\<lambda>r.
     featured_try (ft_session ft) (setup_session_handling env) (setup_user_span r)))))"

definition featured_start :: "bool \<Rightarrow> ('r \<Rightarrow> 'r started) \<Rightarrow> 'r \<Rightarrow> 'r started" where
  "featured_start b f r = (if b then f r else Started r)"

fun and_started :: "'a started \<Rightarrow> ('a \<Rightarrow> 'b started) \<Rightarrow> 'b started" where
  "and_started Panicked f = Panicked"
| "and_started (Started x) f = f x"

text \<open>Positions 10 to 22; the layer of position 17 may panic.\<close>

definition setup_before_cors :: "features \<Rightarrow> 'k setup_env \<Rightarrow> u32 \<Rightarrow> 'k fluent_router \<Rightarrow> 'k fluent_router" where
  "setup_before_cors ft env version r =
     (let r = featured (ft_deduplication ft) setup_deduplication r;
          r = featured (ft_concurrency_limit ft) setup_concurrency_limit r;
          r = featured (ft_payload_limit ft) setup_max_payload_size r;
          r = featured (ft_compression ft) setup_compression r;
          r = featured (ft_path_normalization ft) setup_path_normalization r;
          r = featured (ft_sensitive_headers ft) (setup_sensitive_headers ft env) r
      in featured (ft_api_versioning ft) (setup_api_versioning version) r)"

definition setup_after_cors :: "features \<Rightarrow> 'k setup_env \<Rightarrow> 'k fluent_router \<Rightarrow> 'k fluent_router" where
  "setup_after_cors ft env r =
     (let r = featured (ft_security_headers ft) (setup_helmet env) r;
          r = setup_logging r;
          r = featured (ft_metrics ft) (setup_metrics env) r;
          r = setup_readiness r
      in setup_timeout r)"

definition setup_request_stack ::
  "features \<Rightarrow> 'k setup_env \<Rightarrow> u32 \<Rightarrow> 'k fluent_router \<Rightarrow> 'k fluent_router started" where
  "setup_request_stack ft env version r =
     and_started (featured_start (ft_cors ft) (setup_cors env) (setup_before_cors ft env version r))
       (\<lambda>r. Started (setup_after_cors ft env r))"

text \<open>Positions 23 to 27, and all of them: the outer level is a panic.\<close>

definition setup_outer_stack :: "'k setup_env \<Rightarrow> 'k fluent_router \<Rightarrow> error + 'k fluent_router" where
  "setup_outer_stack env r =
     setup_fallback_files env (setup_catch_panic (setup_liveness (setup_request_id r)))"

definition setup_middleware ::
  "features \<Rightarrow> 'k setup_env \<Rightarrow> 'k fluent_router \<Rightarrow> (error + 'k fluent_router) started" where
  "setup_middleware ft env r =
     (case setup_auth_stack ft env r of
        Inl e \<Rightarrow> Started (Inl e)
      | Inr r1 \<Rightarrow>
          and_started (setup_request_stack ft env (hc_default_api_version (fr_http r)) r1) (\<lambda>r2.
          and_started (featured_start (ft_rate_limiting ft) setup_rate_limiting r2) (\<lambda>r3.
          Started (setup_outer_stack env r3))))"

end
