(* ===== verification/Router_Stack.thy ===== *)
theory Router_Stack
  imports Router_Setup
begin

text \<open>
  What the calls on the router mean for a request, and what \<open>setup_middleware\<close> makes of
  them.  As \<open>axum\<close> documents it, a layer wraps the routes (and, unless it is a route layer, the
  fallback) that exist when it is added, and a layer added later runs earlier; so the layers
  around a route are those of the calls after it, the last one outermost.
\<close>

section \<open>Layers around a route\<close>

fun layer_of :: "'k router_op \<Rightarrow> 'k layer_kind option" where
  "layer_of (AddLayer l) = Some l"
| "layer_of (AddRouteLayer l) = Some l"
| "layer_of op = None"

definition layers_of :: "'k router_op list \<Rightarrow> 'k layer_kind list" where
  "layers_of ops = List.map_filter layer_of ops"

lemma layers_of_simps [simp]:
  "layers_of [] = []"
  "layers_of (op # ops) = (case layer_of op of Some l \<Rightarrow> l # layers_of ops | None \<Rightarrow> layers_of ops)"
  by (simp_all add: layers_of_def split: option.split)

lemma layers_of_append [simp]: "layers_of (a @ b) = layers_of a @ layers_of b"
  by (induction a) (simp_all split: option.split)

text \<open>
  The routes of a router in the order of the calls: the path, the endpoint, and the layers around
  it from the outermost inwards.  A nested or merged router brings its routes with the layers it
  has already, a nested one under its prefix.
\<close>

definition nested_path :: "string \<Rightarrow> string \<Rightarrow> string" where
  "nested_path base p = (if p = ''/'' then base else base @ p)"

definition wrap_route :: "'l list \<Rightarrow> string \<times> 'e \<times> 'l list \<Rightarrow> string \<times> 'e \<times> 'l list" where
  "wrap_route outer = (\<lambda>(p, e, ls). (p, e, outer @ ls))"

fun routes :: "'k router_op list \<Rightarrow> (string \<times> endpoint \<times> 'k layer_kind list) list" where
  "routes [] = []"
| "routes (AddRoute p e # ops) = (p, e, rev (layers_of ops)) # routes ops"
| "routes (AddNest p e # ops) = (p, e, rev (layers_of ops)) # routes ops"
| "routes (NestRouter base sub # ops) =
     map (wrap_route (rev (layers_of ops)) \<circ> apfst (nested_path base)) (routes sub) @ routes ops"
| "routes (MergeRouter sub # ops) = map (wrap_route (rev (layers_of ops))) (routes sub) @ routes ops"
| "routes (op # ops) = routes ops"

definition route_stack :: "string \<Rightarrow> 'k router_op list \<Rightarrow> (endpoint \<times> 'k layer_kind list) option" where
  "route_stack p ops = map_of (routes ops) p"

lemma wrap_route_simps [simp]:
  "wrap_route ls (p, e, ks) = (p, e, ls @ ks)" "wrap_route [] = id"
  "wrap_route ls \<circ> wrap_route ks = wrap_route (ls @ ks)"
  "wrap_route ls \<circ> (wrap_route ks \<circ> f) = wrap_route (ls @ ks) \<circ> f"
  "fst (wrap_route ls x) = fst x"
  by (auto simp: wrap_route_def split: prod.splits)

lemma routes_append: "routes (a @ b) = map (wrap_route (rev (layers_of b))) (routes a) @ routes b"
  by (induction a rule: routes.induct) (simp_all add: comp_assoc)

lemma map_of_wrap_route:
  "map_of (map (wrap_route outer) rs) p = map_option (apsnd (\<lambda>ls. outer @ ls)) (map_of rs p)"
  by (induction rs) auto

lemma route_stack_simps [simp]:
  "route_stack p [] = None"
  "route_stack p (AddRoute q e # ops) =
     (if p = q then Some (e, rev (layers_of ops)) else route_stack p ops)"
  "route_stack p (AddNest q e # ops) =
     (if p = q then Some (e, rev (layers_of ops)) else route_stack p ops)"
  "route_stack p (AddLayer l # ops) = route_stack p ops"
  "route_stack p (AddRouteLayer l # ops) = route_stack p ops"
  "route_stack p (SetFallback e # ops) = route_stack p ops"
  by (simp_all add: route_stack_def)

text \<open>The fallback (\<open>None\<close> is axum's own 404) and its layers; a merged router brings its own.\<close>

fun fallback_step ::
  "'k router_op \<Rightarrow> endpoint option \<times> 'k layer_kind list \<Rightarrow> endpoint option \<times> 'k layer_kind list" where
  "fallback_step (AddLayer l) (e, ls) = (e, l # ls)"
| "fallback_step (SetFallback e') (e, ls) = (Some e', [])"
| "fallback_step (MergeRouter sub) (e, ls) =
     (case fold fallback_step sub (None, []) of
        (Some e', ls') \<Rightarrow> (Some e', ls') | (None, ls') \<Rightarrow> (e, ls))"
| "fallback_step op (e, ls) = (e, ls)"

definition fallback_stack :: "'k router_op list \<Rightarrow> endpoint option \<times> 'k layer_kind list" where
  "fallback_stack ops = fold fallback_step ops (None, [])"

lemma route_stack_append:
  "route_stack p (a @ b) =
     (case route_stack p a of
        Some (e, ls) \<Rightarrow> Some (e, rev (layers_of b) @ ls) | None \<Rightarrow> route_stack p b)"
  by (auto simp: route_stack_def routes_append map_add_def map_of_wrap_route split: option.split)

text \<open>What set-up itself calls: no routers within routers.\<close>

fun flat_op :: "'k router_op \<Rightarrow> bool" where
  "flat_op (NestRouter base sub) = False"
| "flat_op (MergeRouter sub) = False"
| "flat_op op = True"

section \<open>Positions\<close>

text \<open>The position of a layer in the documented order, from the innermost outwards.\<close>

fun layer_position :: "'k layer_kind \<Rightarrow> nat" where
  "layer_position (BrowserRedirectLayer c) = 2"
| "layer_position (BearerAuthLayer p c) = 3"
| "layer_position (SessionToIdentityLayer roles) = 3"
| "layer_position (BasicAuthLayer c pass) = 4"
| "layer_position (ProxyOidcLayer c live) = 5"
| "layer_position (OidcClientExtension oc) = 7"
| "layer_position UserSpanLayer = 8"
| "layer_position (SessionManagerLayer store secure site age) = 9"
| "layer_position (DedupLayer l) = 10"
| "layer_position (ConcurrencyLimitLayer n) = 11"
| "layer_position DefaultBodyLimitDisable = 12"
| "layer_position (RequestBodyLimitLayer n) = 12"
| "layer_position RequestDecompressionLayer = 13"
| "layer_position CompressionLayer = 13"
| "layer_position NormalizePathLayer = 14"
| "layer_position (SensitiveHeadersLayer hs) = 15"
| "layer_position (ApiVersioningLayer v) = 16"
| "layer_position (CorsLayer c) = 17"
| "layer_position (HelmetLayer hs) = 18"
| "layer_position (SetResponseHeaderLayer k v) = 18"
| "layer_position TraceLayer = 19"
| "layer_position (PrometheusLayer path) = 20"
| "layer_position (TimeoutLayer status t) = 22"
| "layer_position (GovernorLayer period burst) = 23"
| "layer_position (PropagateRequestIdLayer h) = 24"
| "layer_position (SetRequestIdLayer h) = 24"
| "layer_position CatchPanicLayer = 26"
| "layer_position (AppLayer name) = 0"

definition is_auth_layer :: "'k layer_kind \<Rightarrow> bool" where
  "is_auth_layer l \<longleftrightarrow> 2 \<le> layer_position l \<and> layer_position l \<le> 5"

text \<open>
  The configuration without the two fields that \<open>setup_metrics\<close> takes, and what every step
  does: it keeps these settings and appends calls, whose layers are in order and have
  positions from \<open>lo\<close> to \<open>hi\<close>.
\<close>

definition settings :: "'k fluent_router \<Rightarrow> unit config" where
  "settings r = (fr_config r)\<lparr>cf_http := (fr_http r)\<lparr>hc_metrics_buckets := [], hc_metrics_global_labels := []\<rparr>\<rparr>"

definition in_order :: "nat \<Rightarrow> nat \<Rightarrow> 'k router_op list \<Rightarrow> bool" where
  "in_order lo hi ops \<longleftrightarrow>
     sorted (map layer_position (layers_of ops))
     \<and> (\<forall>l \<in> set (layers_of ops). lo \<le> layer_position l \<and> layer_position l \<le> hi)
     \<and> (\<forall>op \<in> set ops. flat_op op)"

definition grows :: "nat \<Rightarrow> nat \<Rightarrow> 'k fluent_router \<Rightarrow> 'k fluent_router \<Rightarrow> bool" where
  "grows lo hi r r' \<longleftrightarrow>
     settings r' = settings r \<and> (\<exists>ops. fr_inner r' = fr_inner r @ ops \<and> in_order lo hi ops)"

lemma in_order_append:
  "in_order lo mid a \<Longrightarrow> in_order mid' hi b \<Longrightarrow> mid \<le> mid' \<Longrightarrow> lo \<le> mid' \<Longrightarrow> mid \<le> hi \<Longrightarrow> in_order lo hi (a @ b)"
  by (fastforce simp: in_order_def sorted_append)

lemma grows_refl [simp]: "grows lo hi r r"
  by (simp add: grows_def in_order_def)

lemma grows_trans:
  assumes "grows lo mid r r1" "grows mid' hi r1 r2" "mid \<le> mid'" "lo \<le> mid'" "mid \<le> hi"
  shows "grows lo hi r r2"
proof -
  obtain a b where "fr_inner r1 = fr_inner r @ a" "in_order lo mid a"
    "fr_inner r2 = fr_inner r1 @ b" "in_order mid' hi b" "settings r2 = settings r"
    using assms(1,2) by (auto simp: grows_def)
  then show ?thesis using in_order_append [OF _ _ assms(3-5)]
    by (auto simp: grows_def intro!: exI [of _ "a @ b"])
qed

lemma grows_call: "in_order lo hi ops \<Longrightarrow> grows lo hi r (call_inner ops r)"
  by (auto simp: grows_def call_inner_def settings_def)

lemma grows_call_tasks: "in_order lo hi ops \<Longrightarrow> grows lo hi r (call_inner ops (r\<lparr>fr_tasks := ts\<rparr>))"
  by (auto simp: grows_def call_inner_def settings_def)

lemma grows_featured: "(\<And>r. grows lo hi r (f r)) \<Longrightarrow> grows lo hi r (featured b f r)"
  by (simp add: featured_def)

section \<open>Every step in its position\<close>

lemma in_order_same:
  "(\<And>l. l \<in> set (layers_of ops) \<Longrightarrow> layer_position l = n) \<Longrightarrow> (\<And>op. op \<in> set ops \<Longrightarrow> flat_op op)
   \<Longrightarrow> in_order n n ops"
proof -
  assume all: "\<And>l. l \<in> set (layers_of ops) \<Longrightarrow> layer_position l = n"
    and flat: "\<And>op. op \<in> set ops \<Longrightarrow> flat_op op"
  then have "map layer_position (layers_of ops) = map (\<lambda>_. n) (layers_of ops)" by simp
  then have "sorted (map layer_position (layers_of ops))"
    by (simp only: map_replicate_const sorted_replicate)
  then show ?thesis using all flat by (simp add: in_order_def)
qed

lemma in_order_nests [simp]: "in_order n n [AddNest p e]" "in_order n n [AddRoute p e]" "in_order n n [SetFallback e]"
  by (auto intro: in_order_same)

lemma grows_router_nest [simp]: "grows n n r (router_nest_service p e r)"
  by (simp add: router_nest_service_def grows_call)

lemma grows_nest_directories:
  "nest_directories env protected ds r = Inr r' \<Longrightarrow> grows n n r r'"
proof (induction ds arbitrary: r)
  case (Cons d ds)
  then show ?case
    by (auto simp: result_simps split: static_dir_route.splits if_splits
        intro: grows_trans [OF grows_router_nest])
qed simp

lemma grows_files:
  "setup_protected_files env r = Inr r' \<Longrightarrow> grows n n r r'"
  "setup_public_files env r = Inr r' \<Longrightarrow> grows n n r r'"
  "setup_fallback_files env r = Inr r' \<Longrightarrow> grows n n r r'"
  by (auto simp: setup_protected_files_def setup_public_files_def setup_directories_def
      setup_fallback_files_def result_simps split: option.splits
      intro: grows_nest_directories grows_call)

lemma call_inner_twice: "call_inner b (call_inner a r) = call_inner (a @ b) r"
  by (simp add: call_inner_def)

lemma grows_setup_oidc: "setup_oidc env r = Inr r' \<Longrightarrow> grows 3 3 r r'"
  by (auto simp: setup_oidc_def result_simps Let_def call_inner_twice intro!: grows_call in_order_same
      split: option.splits if_splits)

lemma grows_steps:
  "grows 2 2 r (setup_browser_login_redirect r)"
  "grows 4 4 r (setup_basic_auth r)"
  "grows 5 5 r (setup_proxy_oidc r)"
  "grows 8 8 r (setup_user_span r)"
  "grows 10 10 r (setup_deduplication r)"
  "grows 11 11 r (setup_concurrency_limit r)"
  "grows 12 12 r (setup_max_payload_size r)"
  "grows 13 13 r (setup_compression r)"
  "grows 14 14 r (setup_path_normalization r)"
  "grows 15 15 r (setup_sensitive_headers ft env r)"
  "grows 16 16 r (setup_api_versioning v r)"
  "grows 19 19 r (setup_logging r)"
  "grows 21 21 r (setup_readiness r)"
  "grows 22 22 r (setup_timeout r)"
  "grows 24 24 r (setup_request_id r)"
  "grows 25 25 r (setup_liveness r)"
  "grows 26 26 r (setup_catch_panic r)"
  by (auto simp: setup_browser_login_redirect_def setup_basic_auth_def setup_proxy_oidc_def
      setup_user_span_def setup_deduplication_def setup_concurrency_limit_def
      setup_max_payload_size_def setup_compression_def setup_path_normalization_def
      setup_sensitive_headers_def setup_api_versioning_def setup_logging_def
      setup_readiness_def setup_timeout_def setup_request_id_def setup_liveness_def
      setup_catch_panic_def intro!: grows_call grows_call_tasks in_order_same split: option.splits)

lemma grows_helmet: "grows 18 18 r (setup_helmet env r)"
  by (auto simp: setup_helmet_def Let_def header_layer_def intro!: grows_call in_order_same
      split: option.splits if_splits)

lemma grows_metrics: "grows 20 20 r (setup_metrics env r)"
  by (auto simp: setup_metrics_def Let_def grows_def call_inner_def settings_def intro!: in_order_same)

lemma grows_rate_limiting: "setup_rate_limiting r = Started r' \<Longrightarrow> grows 23 23 r r'"
  by (auto simp: setup_rate_limiting_def Let_def intro!: grows_call_tasks in_order_same split: if_splits)

lemma grows_oidc_routes: "setup_oidc_routes env r = Inr r' \<Longrightarrow> grows 7 7 r r'"
  by (auto simp: setup_oidc_routes_def result_simps intro!: grows_call in_order_same
      split: option.splits if_splits)

lemma grows_session: "setup_session_handling env r = Inr r' \<Longrightarrow> grows 9 9 r r'"
  by (auto simp: setup_session_handling_def apply_session_layer_def result_simps Let_def
      intro!: grows_call grows_call_tasks in_order_same split: session_store_config.splits)

section \<open>The whole stack\<close>

lemma grows_then:
  "grows lo n r r1 \<Longrightarrow> grows m m r1 r2 \<Longrightarrow> n \<le> m \<Longrightarrow> lo \<le> m \<Longrightarrow> grows lo m r r2"
  by (rule grows_trans) auto

lemma featured_try_Inr:
  "featured_try b f r = Inr r' \<longleftrightarrow> (if b then f r = Inr r' else r' = r)"
  by (auto simp: featured_try_def)

text \<open>The routers between the steps that can fail.\<close>

lemma auth_stages:
  assumes "setup_auth_stack ft env r = Inr r'"
  obtains r1 r2 r3 r4 where "setup_protected_files env r = Inr r1"
    "featured_try (ft_keycloak ft) (setup_oidc env)
       (featured (ft_keycloak ft) setup_browser_login_redirect r1) = Inr r2"
    "setup_public_files env (setup_proxy_oidc (featured (ft_basic_auth ft) setup_basic_auth r2)) = Inr r3"
    "featured_try (ft_keycloak ft) (setup_oidc_routes env) r3 = Inr r4"
    "featured_try (ft_session ft) (setup_session_handling env) (setup_user_span r4) = Inr r'"
  using assms by (auto simp: setup_auth_stack_def result_simps)

lemma grows_tries:
  "featured_try b (setup_oidc env) r = Inr r' \<Longrightarrow> grows 3 3 r r'"
  "featured_try b (setup_oidc_routes env) r = Inr r' \<Longrightarrow> grows 7 7 r r'"
  "featured_try b (setup_session_handling env) r = Inr r' \<Longrightarrow> grows 9 9 r r'"
  by (auto simp: featured_try_Inr intro: grows_setup_oidc grows_oidc_routes grows_session split: if_splits)

lemma grows_auth_stack:
  assumes "setup_auth_stack ft env r = Inr r'"
  shows "grows 1 9 r r'"
  using assms
proof (rule auth_stages, goal_cases)
  case (1 r1 r2 r3 r4)
  have "grows 1 2 r (featured (ft_keycloak ft) setup_browser_login_redirect r1)"
    using grows_then [OF grows_files(1) [OF 1(1), of 1] grows_featured [OF grows_steps(1)]] by simp
  then have "grows 1 3 r r2" by (rule grows_then [OF _ grows_tries(1) [OF 1(2)]]) auto
  then have "grows 1 4 r (featured (ft_basic_auth ft) setup_basic_auth r2)"
    by (rule grows_then [OF _ grows_featured [OF grows_steps(2)]]) auto
  then have "grows 1 5 r (setup_proxy_oidc (featured (ft_basic_auth ft) setup_basic_auth r2))"
    by (rule grows_then [OF _ grows_steps(3)]) auto
  then have "grows 1 6 r r3" by (rule grows_then [OF _ grows_files(2) [OF 1(3)]]) auto
  then have "grows 1 7 r r4" by (rule grows_then [OF _ grows_tries(2) [OF 1(4)]]) auto
  then have "grows 1 8 r (setup_user_span r4)" by (rule grows_then [OF _ grows_steps(4)]) auto
  then show ?case by (rule grows_then [OF _ grows_tries(3) [OF 1(5)]]) auto
qed

lemma featured_start_off [simp]: "featured_start False f r = Started r"
  by (simp add: featured_start_def)

lemma and_started_Started:
  "and_started x f = Started y \<longleftrightarrow> (\<exists>z. x = Started z \<and> f z = Started y)"
  by (cases x) auto

lemma grows_start_stage:
  "featured_start b (setup_cors env) r = Started r' \<Longrightarrow> grows 17 17 r r'"
  "featured_start b setup_rate_limiting r = Started r' \<Longrightarrow> grows 23 23 r r'"
  by (auto simp: featured_start_def setup_cors_def intro!: grows_call in_order_same grows_rate_limiting
      split: if_splits)

lemma grows_before_cors: "grows 10 16 r (setup_before_cors ft env v r)"
  unfolding setup_before_cors_def Let_def
  by (rule grows_then [OF _ grows_featured [OF grows_steps(11)]],
      rule grows_then [OF _ grows_featured [OF grows_steps(10)]],
      rule grows_then [OF _ grows_featured [OF grows_steps(9)]],
      rule grows_then [OF _ grows_featured [OF grows_steps(8)]],
      rule grows_then [OF _ grows_featured [OF grows_steps(7)]],
      rule grows_then [OF _ grows_featured [OF grows_steps(6)]],
      rule grows_featured [OF grows_steps(5)]) simp_all

lemma grows_after_cors: "grows 18 22 r (setup_after_cors ft env r)"
  unfolding setup_after_cors_def Let_def
  by (rule grows_then [OF _ grows_steps(14)], rule grows_then [OF _ grows_steps(13)],
      rule grows_then [OF _ grows_featured [OF grows_metrics]], rule grows_then [OF _ grows_steps(12)],
      rule grows_featured [OF grows_helmet]) simp_all

lemma request_stack_stages:
  assumes "setup_request_stack ft env v r = Started r'"
  obtains q where "featured_start (ft_cors ft) (setup_cors env) (setup_before_cors ft env v r) = Started q"
    "r' = setup_after_cors ft env q"
  using assms by (auto simp: setup_request_stack_def and_started_Started)

lemma grows_from_cors:
  assumes "featured_start b (setup_cors env) r = Started q"
  shows "grows 17 22 r (setup_after_cors ft env q)"
  by (rule grows_trans [OF grows_start_stage(1) [OF assms] grows_after_cors]) auto

lemma grows_request_stack:
  assumes "setup_request_stack ft env v r = Started r'"
  shows "grows 10 22 r r'"
  using assms
  by (rule request_stack_stages) (use grows_trans [OF grows_before_cors grows_from_cors] in simp)

lemma grows_before_fallback: "grows 24 26 r (setup_catch_panic (setup_liveness (setup_request_id r)))"
  by (rule grows_then [OF _ grows_steps(17)], rule grows_then [OF grows_steps(15) grows_steps(16)]) simp_all

lemma grows_outer_stack: "setup_outer_stack env r = Inr r' \<Longrightarrow> grows 24 27 r r'"
  unfolding setup_outer_stack_def
  by (rule grows_then [OF grows_before_fallback grows_files(3)]) simp_all

text \<open>The routers between the three parts of the stack, and before the fallback.\<close>

lemma middleware_stages:
  assumes "setup_middleware ft env r = Started (Inr r')"
  obtains r1 r2 r3 where "setup_auth_stack ft env r = Inr r1"
    "setup_request_stack ft env (hc_default_api_version (fr_http r)) r1 = Started r2"
    "featured_start (ft_rate_limiting ft) setup_rate_limiting r2 = Started r3"
    "setup_outer_stack env r3 = Inr r'"
  using assms by (auto simp: setup_middleware_def and_started_Started split: sum.splits)

lemma grows_middleware:
  assumes "setup_middleware ft env r = Started (Inr r')"
  shows "grows 1 27 r r'"
  using assms
proof (rule middleware_stages, goal_cases)
  case (1 r1 r2 r3)
  have "grows 10 22 r1 r2" by (rule grows_request_stack [OF 1(2)])
  then have "grows 1 22 r r2" using grows_trans [OF grows_auth_stack [OF 1(1)]] by simp
  then have "grows 1 23 r r3" by (rule grows_then [OF _ grows_start_stage(2) [OF 1(3)]]) auto
  then show ?case using grows_trans [OF _ grows_outer_stack [OF 1(4)]] by simp
qed

section \<open>Which layers a step added\<close>

definition new_layers ::
  "('k layer_kind \<Rightarrow> bool) \<Rightarrow> 'k fluent_router \<Rightarrow> 'k fluent_router \<Rightarrow> 'k layer_kind list" where
  "new_layers P r r' = filter P (layers_of (drop (length (fr_inner r)) (fr_inner r')))"

lemma new_layers_refl [simp]: "new_layers P r r = []"
  by (simp add: new_layers_def)

lemma new_layers_call [simp]:
  "new_layers P r (call_inner ops r) = filter P (layers_of ops)"
  "new_layers P r (call_inner ops (r\<lparr>fr_tasks := ts\<rparr>)) = filter P (layers_of ops)"
  by (simp_all add: new_layers_def call_inner_def)

lemma new_layers_trans:
  "grows lo hi r r1 \<Longrightarrow> grows lo' hi' r1 r2 \<Longrightarrow>
   new_layers P r r2 = new_layers P r r1 @ new_layers P r1 r2"
  by (auto simp: grows_def new_layers_def)

lemma new_layers_none:
  "grows lo hi r r' \<Longrightarrow> (\<And>l. lo \<le> layer_position l \<Longrightarrow> layer_position l \<le> hi \<Longrightarrow> \<not> P l) \<Longrightarrow>
   new_layers P r r' = []"
  by (auto simp: grows_def new_layers_def in_order_def filter_empty_conv)

lemma new_layers_position:
  "grows lo hi r r' \<Longrightarrow> l \<in> set (new_layers P r r') \<Longrightarrow> lo \<le> layer_position l \<and> layer_position l \<le> hi"
  by (auto simp: grows_def new_layers_def in_order_def)

lemma same_settings:
  assumes "settings r' = settings r"
  shows "is_middleware_enabled r' m = is_middleware_enabled r m"
    "hc_oidc (fr_http r') = hc_oidc (fr_http r)"
    "hc_basic_auth (fr_http r') = hc_basic_auth (fr_http r)"
    "hc_proxy_oidc (fr_http r') = hc_proxy_oidc (fr_http r)"
    "hc_directories (fr_http r') = hc_directories (fr_http r)"
    "hc_session_store (fr_http r') = hc_session_store (fr_http r)"
    "hc_session_signing_key (fr_http r') = hc_session_signing_key (fr_http r)"
    "hc_max_requests_per_sec (fr_http r') = hc_max_requests_per_sec (fr_http r)"
    "hc_liveness_route (fr_http r') = hc_liveness_route (fr_http r)"
    "basic_passthrough r' = basic_passthrough r"
    "config_validate (settings r') = config_validate (settings r)"
proof -
  have h: "cf_http (settings r') = cf_http (settings r)" using assms by simp
  show "hc_oidc (fr_http r') = hc_oidc (fr_http r)" using arg_cong [OF h, of hc_oidc] by (simp add: settings_def)
  then show "basic_passthrough r' = basic_passthrough r" by (simp add: basic_passthrough_def)
  show "is_middleware_enabled r' m = is_middleware_enabled r m"
    using arg_cong [OF h, of hc_middleware] by (simp add: settings_def is_middleware_enabled_def)
  show "hc_basic_auth (fr_http r') = hc_basic_auth (fr_http r)"
    using arg_cong [OF h, of hc_basic_auth] by (simp add: settings_def)
  show "hc_proxy_oidc (fr_http r') = hc_proxy_oidc (fr_http r)"
    using arg_cong [OF h, of hc_proxy_oidc] by (simp add: settings_def)
  show "hc_directories (fr_http r') = hc_directories (fr_http r)"
    using arg_cong [OF h, of hc_directories] by (simp add: settings_def)
  show "hc_session_store (fr_http r') = hc_session_store (fr_http r)"
    using arg_cong [OF h, of hc_session_store] by (simp add: settings_def)
  show "hc_session_signing_key (fr_http r') = hc_session_signing_key (fr_http r)"
    using arg_cong [OF h, of hc_session_signing_key] by (simp add: settings_def)
  show "hc_max_requests_per_sec (fr_http r') = hc_max_requests_per_sec (fr_http r)"
    using arg_cong [OF h, of hc_max_requests_per_sec] by (simp add: settings_def)
  show "hc_liveness_route (fr_http r') = hc_liveness_route (fr_http r)"
    using arg_cong [OF h, of hc_liveness_route] by (simp add: settings_def)
  show "config_validate (settings r') = config_validate (settings r)" using assms by simp
qed

lemma grows_settings: "grows lo hi r r' \<Longrightarrow> settings r' = settings r"
  by (simp add: grows_def)

lemma grows_enabled: "grows lo hi r r' \<Longrightarrow> is_middleware_enabled r' m = is_middleware_enabled r m"
  by (rule same_settings(1) [OF grows_settings])

text \<open>A route keeps its endpoint, and the layers added since are around it.\<close>

lemma grows_route:
  assumes "grows lo hi r r'" "route_stack p (fr_inner r) = Some (e, ls)"
  shows "route_stack p (fr_inner r') = Some (e, rev (new_layers (\<lambda>_. True) r r') @ ls)"
  using assms by (auto simp: grows_def new_layers_def route_stack_append)

lemma grows_sorted:
  "grows lo hi r r' \<Longrightarrow> sorted (map layer_position (new_layers (\<lambda>_. True) r r'))"
  by (auto simp: grows_def new_layers_def in_order_def)

lemma new_layers_filter: "filter P (new_layers (\<lambda>_. True) r r') = new_layers P r r'"
  by (simp add: new_layers_def)

lemma new_layers_catch_panic:
  assumes "setup_middleware ft env r = Started (Inr r')"
  shows "new_layers (\<lambda>l. l = CatchPanicLayer) r r'
    = (if is_middleware_enabled r CatchPanic then [CatchPanicLayer] else [])"
  using assms
proof (rule middleware_stages, goal_cases)
  case (1 r1 r2 r3)
  let ?P = "\<lambda>l. l = CatchPanicLayer"
  have g2: "grows 10 22 r1 r2" by (rule grows_request_stack [OF 1(2)])
  have a: "grows 1 22 r r2" by (rule grows_trans [OF grows_auth_stack [OF 1(1)] g2]) simp_all
  have b: "grows 1 23 r r3" by (rule grows_then [OF a grows_start_stage(2) [OF 1(3)]]) auto
  let ?r4 = "setup_liveness (setup_request_id r3)"
  have c: "grows 1 25 r ?r4"
    by (rule grows_then [OF grows_then [OF b grows_steps(15)] grows_steps(16)]) auto
  have d: "grows 1 26 r (setup_catch_panic ?r4)" by (rule grows_then [OF c grows_steps(17)]) auto
  have e: "grows 27 27 (setup_catch_panic ?r4) r'"
    using 1(4) by (intro grows_files(3)) (simp add: setup_outer_stack_def)
  have early: "new_layers ?P r ?r4 = []" by (rule new_layers_none [OF c]) auto
  have late: "new_layers ?P (setup_catch_panic ?r4) r' = []" by (rule new_layers_none [OF e]) auto
  have "new_layers ?P r r' = new_layers ?P ?r4 (setup_catch_panic ?r4)"
    by (simp add: new_layers_trans [OF d e] new_layers_trans [OF c grows_steps(17)] early late)
  then show ?case using grows_enabled [OF c]
    by (simp add: setup_catch_panic_def)
qed

lemma layer_position_max: "layer_position l \<le> 26" "layer_position l = 26 \<longleftrightarrow> l = CatchPanicLayer"
  by (cases l; simp)+

lemma last_catch_panic:
  assumes "sorted (map layer_position ls)" "CatchPanicLayer \<in> set ls"
  shows "last ls = CatchPanicLayer"
  using assms
proof (induction ls)
  case (Cons l ls)
  show ?case
  proof (cases "ls = []")
    case False
    then obtain m where m: "m \<in> set ls" by (cases ls) auto
    have "CatchPanicLayer \<in> set ls"
    proof (rule ccontr)
      assume "\<not> ?thesis"
      then have "l = CatchPanicLayer" "m \<noteq> CatchPanicLayer" using Cons.prems m by auto
      then show False
        using Cons.prems(1) m layer_position_max [of m] by fastforce
    qed
    then show ?thesis using Cons False by simp
  qed (use Cons.prems in simp)
qed simp

text \<open>C3: (order of the middleware) When \<open>setup_middleware\<close> succeeds, every route that was there keeps its
endpoint and the layers it had, and the layers set up around it come in the documented
order from the outside in; panics are caught outermost, exactly once, unless that is
switched off.\<close>
theorem middleware_in_order:
  assumes "setup_middleware ft env r = Started (Inr r')" "route_stack p (fr_inner r) = Some (e, ls)"
  shows "\<exists>outer. route_stack p (fr_inner r') = Some (e, outer @ ls)
    \<and> sorted_wrt (\<ge>) (map layer_position outer)
    \<and> (\<forall>l \<in> set outer. 1 \<le> layer_position l \<and> layer_position l \<le> 26)
    \<and> filter (\<lambda>l. l = CatchPanicLayer) outer
        = (if is_middleware_enabled r CatchPanic then [CatchPanicLayer] else [])
    \<and> (is_middleware_enabled r CatchPanic \<longrightarrow> hd outer = CatchPanicLayer)"
proof -
  let ?new = "new_layers (\<lambda>_. True) r r'"
  note g = grows_middleware [OF assms(1)]
  have sorted: "sorted (map layer_position ?new)" by (rule grows_sorted [OF g])
  have filter: "filter (\<lambda>l. l = CatchPanicLayer) ?new
      = (if is_middleware_enabled r CatchPanic then [CatchPanicLayer] else [])"
    unfolding new_layers_filter by (rule new_layers_catch_panic [OF assms(1)])
  have range: "\<forall>l \<in> set ?new. 1 \<le> layer_position l"
    using g by (auto simp: grows_def new_layers_def in_order_def)
  have "hd (rev ?new) = CatchPanicLayer" if "is_middleware_enabled r CatchPanic"
  proof -
    have "set (filter (\<lambda>l. l = CatchPanicLayer) ?new) = {CatchPanicLayer}" using filter that by simp
    then have "CatchPanicLayer \<in> set ?new" by auto
    then show ?thesis using last_catch_panic [OF sorted] by (cases "?new = []") (auto simp: hd_rev)
  qed
  moreover have "filter (\<lambda>l. l = CatchPanicLayer) (rev ?new)
      = (if is_middleware_enabled r CatchPanic then [CatchPanicLayer] else [])"
    using filter by (simp add: rev_filter [symmetric])
  moreover have "sorted_wrt (\<ge>) (map layer_position (rev ?new))"
    using sorted by (simp add: rev_map [symmetric] sorted_wrt_rev)
  ultimately show ?thesis
    using grows_route [OF g assms(2)] range layer_position_max(1)
    by (intro exI [of _ "rev ?new"]) auto
qed

section \<open>An example router\<close>

definition bare_features :: features where
  "bare_features = \<lparr>ft_keycloak = False, ft_basic_auth = False, ft_session = False,
     ft_deduplication = False, ft_concurrency_limit = False, ft_payload_limit = False,
     ft_compression = False, ft_path_normalization = False, ft_sensitive_headers = False,
     ft_api_versioning = False, ft_cors = False, ft_security_headers = False, ft_metrics = False,
     ft_rate_limiting = False\<rparr>"

lemma bare_features_off:
  "\<not> ft_keycloak bare_features"
  "\<not> ft_basic_auth bare_features"
  "\<not> ft_session bare_features"
  "\<not> ft_deduplication bare_features"
  "\<not> ft_concurrency_limit bare_features"
  "\<not> ft_payload_limit bare_features"
  "\<not> ft_compression bare_features"
  "\<not> ft_path_normalization bare_features"
  "\<not> ft_sensitive_headers bare_features"
  "\<not> ft_api_versioning bare_features"
  "\<not> ft_cors bare_features"
  "\<not> ft_security_headers bare_features"
  "\<not> ft_metrics bare_features"
  "\<not> ft_rate_limiting bare_features"
  by (simp_all add: bare_features_def)

definition demo_env :: "unit setup_env" where
  "demo_env = \<lparr>se_jwks_uri = (\<lambda>i m. Inr ''https://idp/jwks''),
     se_provider = (\<lambda>u i as live. Inr demo_provider), se_client = (\<lambda>c. Inr demo_client),
     se_migrate = Inr (), se_redis_url = (\<lambda>u. Inr ()), se_redis_pool = Inr (),
     se_redis_connect = Inr (), se_header_value = (\<lambda>v. Inr ()), se_header_name = (\<lambda>n. True),
     se_helmet = (\<lambda>hs. True), se_metrics_path = None\<rparr>"

definition app_router :: "http_config \<Rightarrow> unit fluent_router" where
  "app_router h = \<lparr>fr_config = sample_config\<lparr>cf_http := h\<rparr>,
     fr_inner = [AddRoute ''/api'' (AppEndpoint ''api'')], fr_tasks = [], fr_panic_channel = False,
     fr_notifier = notifier_default, fr_readiness_check = False,
     fr_registry = \<lparr>reg_breakers = [], reg_store = [], reg_default = cb_target_default\<rparr>,
     fr_otel_provider = None\<rparr>"

definition only :: "http_middleware list \<Rightarrow> http_config" where
  "only ms = http_default\<lparr>hc_middleware := Some (Include ms)\<rparr>"

lemma app_router_simps [simp]:
  "fr_http (app_router h) = h"
  "fr_inner (app_router h) = [AddRoute ''/api'' (AppEndpoint ''api'')]"
  "is_middleware_enabled (app_router (h\<lparr>hc_middleware := Some (Include ms)\<rparr>)) m = (m \<in> set ms)"
  by (simp_all add: app_router_def is_middleware_enabled_def)

lemma call_inner_settings [simp]:
  "fr_config (call_inner ops r) = fr_config r"
  "is_middleware_enabled (call_inner ops r) m = is_middleware_enabled r m"
  by (simp_all add: call_inner_def is_middleware_enabled_def)

lemma demo_setup:
  "\<exists>r'. setup_middleware bare_features demo_env (app_router (only [CatchPanic])) = Started (Inr r')"
proof -
  let ?r = "app_router (only [CatchPanic])"
  have "setup_auth_stack bare_features demo_env ?r = Inr (setup_user_span (setup_proxy_oidc ?r))"
    by (simp add: setup_auth_stack_def featured_try_def featured_def bare_features_def
        setup_protected_files_def setup_public_files_def setup_directories_def only_def http_default_def
        setup_proxy_oidc_def)
  moreover have "\<exists>r'. setup_outer_stack demo_env q = Inr r'" for q
    by (auto simp: setup_outer_stack_def setup_fallback_files_def static_files_def demo_env_def Let_def
        split: option.split)
  ultimately show ?thesis
    by (simp add: setup_middleware_def bare_features_off setup_request_stack_def)
qed

theorem middleware_in_order_witness:
  "\<exists>r' ls. setup_middleware bare_features demo_env (app_router (only [CatchPanic])) = Started (Inr r')
    \<and> route_stack ''/api'' (fr_inner r') = Some (AppEndpoint ''api'', ls) \<and> hd ls = CatchPanicLayer"
proof -
  obtain r' where r': "setup_middleware bare_features demo_env (app_router (only [CatchPanic]))
      = Started (Inr r')"
    using demo_setup by blast
  have route: "route_stack ''/api'' (fr_inner (app_router (only [CatchPanic])))
      = Some (AppEndpoint ''api'', [])" by simp
  have "is_middleware_enabled (app_router (only [CatchPanic])) CatchPanic" by (simp add: only_def)
  then show ?thesis using middleware_in_order [OF r' route] r' by auto
qed

end
