(* ===== verification/Router_Total.thy ===== *)
theory Router_Total
  imports Router_Stack
begin

text \<open>
  When setting up a router can fail: for a validated configuration only because of its
  surroundings, and in one case by a panic.
\<close>

section \<open>Failures come from outside\<close>

text \<open>Surroundings in which nothing fails: providers and session back ends answer, cache headers are legal.\<close>

definition env_ok :: "'k setup_env \<Rightarrow> bool" where
  "env_ok env \<longleftrightarrow>
     (\<forall>i realm. is_ok (se_jwks_uri env i realm)) \<and> (\<forall>u i as live. is_ok (se_provider env u i as live))
     \<and> (\<forall>c. is_ok (se_client env c)) \<and> is_ok (se_migrate env) \<and> (\<forall>u. is_ok (se_redis_url env u))
     \<and> is_ok (se_redis_pool env) \<and> is_ok (se_redis_connect env)
     \<and> (\<forall>age. is_ok (se_header_value env (''public, max-age='' @ show_nat age)))"

lemma ok_static_files: "env_ok env \<Longrightarrow> \<exists>e. static_files env d = Inr e"
  by (auto simp: static_files_def env_ok_def result_simps Let_def split: option.splits)

lemma ok_nest_directories: "env_ok env \<Longrightarrow> \<exists>r'. nest_directories env protected ds r = Inr r'"
proof (induction ds arbitrary: r)
  case (Cons d ds)
  then show ?case using ok_static_files [of env d]
    by (auto simp: result_simps split: static_dir_route.split)
qed simp

lemma ok_files:
  assumes "env_ok env"
  shows "\<exists>r'. setup_protected_files env r = Inr r'" "\<exists>r'. setup_public_files env r = Inr r'"
    "\<exists>r'. setup_fallback_files env r = Inr r'"
  using ok_nest_directories [OF assms] ok_static_files [OF assms]
  by (auto simp: setup_protected_files_def setup_public_files_def setup_directories_def
      setup_fallback_files_def result_simps split: option.split)

lemma ok_setup_oidc:
  assumes "env_ok env"
  shows "\<exists>r'. setup_oidc env r = Inr r'"
proof (cases "hc_oidc (fr_http r)")
  case (Some oidc)
  have "is_ok (case oc_jwks_url oidc of Some url \<Rightarrow> Inr url
      | None \<Rightarrow> se_jwks_uri env (oidc_issuer oidc) (oc_realm oidc))"
    using assms by (simp add: env_ok_def split: option.split)
  then obtain url where url: "(case oc_jwks_url oidc of Some url \<Rightarrow> Inr url
      | None \<Rightarrow> se_jwks_uri env (oidc_issuer oidc) (oc_realm oidc)) = Inr url"
    by (auto simp: is_ok_iff)
  have "is_ok (se_provider env url (oidc_issuer oidc) (oc_audiences oidc) (cf_is_production (fr_config r)))"
    using assms by (simp add: env_ok_def)
  then obtain jwks where "se_provider env url (oidc_issuer oidc) (oc_audiences oidc)
      (cf_is_production (fr_config r)) = Inr jwks"
    by (auto simp: is_ok_iff)
  then show ?thesis using Some url by (simp add: setup_oidc_def Let_def)
qed (simp add: setup_oidc_def)

lemma ok_setup_oidc_routes:
  assumes "env_ok env"
  shows "\<exists>r'. setup_oidc_routes env r = Inr r'"
proof (cases "hc_oidc (fr_http r)")
  case (Some oidc)
  have "is_ok (se_client env oidc)" using assms by (simp add: env_ok_def)
  then obtain client where "se_client env oidc = Inr client" by (auto simp: is_ok_iff)
  then show ?thesis using Some by (simp add: setup_oidc_routes_def)
qed (simp add: setup_oidc_routes_def)

lemma ok_tries:
  assumes "env_ok env"
  shows "\<exists>r'. featured_try b (setup_oidc env) r = Inr r'"
    "\<exists>r'. featured_try b (setup_oidc_routes env) r = Inr r'"
  using ok_setup_oidc [OF assms] ok_setup_oidc_routes [OF assms] by (simp_all add: featured_try_def)

lemma ok_session:
  assumes "env_ok env" "store_is_external (hc_session_store (fr_http r)) \<Longrightarrow>
    hc_session_signing_key (fr_http r) \<noteq> None"
  shows "\<exists>r'. featured_try b (setup_session_handling env) r = Inr r'"
  using assms
  by (cases b; cases "hc_session_store (fr_http r)")
    (auto simp: featured_try_Inr setup_session_handling_def session_signing_key_bytes_def env_ok_def
      result_simps Let_def)

lemma ok_auth_stack:
  assumes env: "env_ok env" and key: "store_is_external (hc_session_store (fr_http r)) \<Longrightarrow>
    hc_session_signing_key (fr_http r) \<noteq> None"
  shows "\<exists>r'. setup_auth_stack ft env r = Inr r'"
proof -
  obtain r1 where 1: "setup_protected_files env r = Inr r1" using ok_files [OF env] by blast
  obtain r2 where 2: "featured_try (ft_keycloak ft) (setup_oidc env)
      (featured (ft_keycloak ft) setup_browser_login_redirect r1) = Inr r2"
    using ok_tries [OF env] by blast
  let ?r5 = "setup_proxy_oidc (featured (ft_basic_auth ft) setup_basic_auth r2)"
  obtain r3 where 3: "setup_public_files env ?r5 = Inr r3" using ok_files [OF env] by blast
  obtain r4 where 4: "featured_try (ft_keycloak ft) (setup_oidc_routes env) r3 = Inr r4"
    using ok_tries [OF env] by blast
  let ?q = "featured (ft_keycloak ft) setup_browser_login_redirect r1"
  let ?b = "featured (ft_basic_auth ft) setup_basic_auth r2"
  have "settings (setup_user_span r4) = settings r"
    using grows_settings [OF grows_files(1) [OF 1, of 1]] grows_settings [OF grows_tries(1) [OF 2]]
      grows_settings [OF grows_featured [OF grows_steps(1)], of "ft_keycloak ft" r1]
      grows_settings [OF grows_featured [OF grows_steps(2)], of "ft_basic_auth ft" r2]
      grows_settings [OF grows_steps(3) [of ?b]]
      grows_settings [OF grows_files(2) [OF 3, of 6]] grows_settings [OF grows_tries(2) [OF 4]]
      grows_settings [OF grows_steps(4) [of r4]] by simp
  then obtain r' where "featured_try (ft_session ft) (setup_session_handling env) (setup_user_span r4) = Inr r'"
    using ok_session [OF env, of "setup_user_span r4"] key same_settings by metis
  then show ?thesis using 1 2 3 4 by (auto simp: setup_auth_stack_def)
qed

lemma governor_panics: "0 < rate \<Longrightarrow> governor_period rate = 0 \<longleftrightarrow> unat rate > 1000000000"
  by (auto simp: governor_period_def div_eq_0_iff word_less_nat_alt)

text \<open>When the layer for the configured CORS rules panics.\<close>

definition cors_conflict :: "'k setup_env \<Rightarrow> http_config \<Rightarrow> bool" where
  "cors_conflict env h =
     (case hc_cors h of
        None \<Rightarrow> False
      | Some c \<Rightarrow> co_allow_credentials c = Some True
          \<and> ((case co_allowed_origins c of
                Some os \<Rightarrow> usable_origins env os \<noteq> [] \<and> last (usable_origins env os) = ''*'' | None \<Rightarrow> False)
             \<or> co_allowed_methods c = Some [''*''] \<or> co_allowed_headers c = Some [''*'']
             \<or> co_exposed_headers c = Some [''*'']))"

lemma cors_usable_iff: "cors_usable (cors_of env r) \<longleftrightarrow> \<not> cors_conflict env (fr_http r)"
proof (cases "hc_cors (fr_http r)")
  case None
  then show ?thesis
    by (simp add: cors_of_def cors_conflict_def cors_usable_def cors_new_def cors_very_permissive_def
        cors_wildcard_def)
next
  case (Some c)
  then show ?thesis
    by (auto simp: cors_of_def cors_conflict_def cors_usable_def cors_wildcard_def cors_fields
        split: option.splits if_splits)
qed

lemma cors_conflict_settings:
  "settings q = settings r \<Longrightarrow> cors_conflict env (fr_http q) = cors_conflict env (fr_http r)"
proof -
  assume "settings q = settings r"
  then have "hc_cors (cf_http (settings q)) = hc_cors (cf_http (settings r))" by simp
  then show ?thesis by (simp add: settings_def cors_conflict_def)
qed

text \<open>The two stages that can panic.\<close>

lemma request_stack_panics:
  assumes "setup_auth_stack ft env r = Inr r1"
  shows "setup_request_stack ft env v r1 = Panicked
    \<longleftrightarrow> ft_cors ft \<and> is_middleware_enabled r Cors \<and> cors_conflict env (fr_http r)"
proof -
  let ?q = "setup_before_cors ft env v r1"
  have "grows 1 16 r ?q" by (rule grows_trans [OF grows_auth_stack [OF assms] grows_before_cors]) auto
  then have s: "settings ?q = settings r" by (rule grows_settings)
  have "setup_request_stack ft env v r1 = Panicked \<longleftrightarrow> featured_start (ft_cors ft) (setup_cors env) ?q = Panicked"
    by (cases "featured_start (ft_cors ft) (setup_cors env) ?q") (simp_all add: setup_request_stack_def)
  then show ?thesis
    using same_settings(1) [OF s] cors_conflict_settings [OF s, of env]
    by (simp add: featured_start_def setup_cors_def cors_usable_iff)
qed

lemma rate_limiting_panics:
  assumes "settings r2 = settings r"
  shows "featured_start (ft_rate_limiting ft) setup_rate_limiting r2 = Panicked
    \<longleftrightarrow> ft_rate_limiting ft \<and> is_middleware_enabled r RateLimiting
        \<and> unat (hc_max_requests_per_sec (fr_http r)) > 1000000000"
  using governor_panics [of "hc_max_requests_per_sec (fr_http r)"] same_settings [OF assms]
  by (cases "hc_max_requests_per_sec (fr_http r) = 0")
    (auto simp: featured_start_def setup_rate_limiting_def Let_def word_neq_0_conv)

lemma setup_succeeds:
  assumes "env_ok env" "\<not> ft_rate_limiting ft" "\<not> ft_cors ft"
    "store_is_external (hc_session_store (fr_http r)) \<Longrightarrow> hc_session_signing_key (fr_http r) \<noteq> None"
  shows "\<exists>r'. setup_middleware ft env r = Started (Inr r')"
proof -
  obtain r1 where r1: "setup_auth_stack ft env r = Inr r1" using ok_auth_stack [OF assms(1,4)] by blast
  have "\<exists>r'. setup_outer_stack env q = Inr r'" for q
    using ok_files(3) [OF assms(1)] by (simp add: setup_outer_stack_def)
  then show ?thesis using assms(2,3) by (simp add: setup_middleware_def r1 setup_request_stack_def)
qed


lemma demo_env_ok: "env_ok demo_env"
  by (simp add: env_ok_def demo_env_def is_ok_iff)


end
