(* ===== verification/Router_Auth.thy ===== *)
theory Router_Auth
  imports Router_Total
begin

text \<open>
  Authentication of the assembled router: which authentication layers end up around which
  routes, and what they do together to a request.
\<close>

section \<open>Paths\<close>

definition paths :: "'k router_op list \<Rightarrow> string list" where
  "paths ops = map fst (routes ops)"

lemma paths_append [simp]: "paths (a @ b) = paths a @ paths b"
  by (simp add: paths_def routes_append)

lemma paths_simps [simp]:
  "paths [] = []"
  "paths (AddRoute p e # ops) = p # paths ops"
  "paths (AddNest p e # ops) = p # paths ops"
  "paths (AddLayer l # ops) = paths ops"
  "paths (AddRouteLayer l # ops) = paths ops"
  "paths (SetFallback e # ops) = paths ops"
  by (simp_all add: paths_def)

lemma route_stack_None: "route_stack p ops = None \<longleftrightarrow> p \<notin> set (paths ops)"
  by (simp add: route_stack_def paths_def map_of_eq_None_iff)

lemma route_stack_layers:
  "route_stack p ops = Some (e, ls) \<Longrightarrow> \<forall>op \<in> set ops. flat_op op \<Longrightarrow> set ls \<subseteq> set (layers_of ops)"
  by (induction ops rule: routes.induct) (auto split: if_splits)

section \<open>The authentication layers\<close>

text \<open>
  The layers \<open>setup_browser_login_redirect\<close>, \<open>setup_oidc\<close>, \<open>setup_basic_auth\<close> and
  \<open>setup_proxy_oidc\<close> add, in this order, to the router with the protected directories.
\<close>

definition auth_stage ::
  "features \<Rightarrow> 'k setup_env \<Rightarrow> 'k fluent_router \<Rightarrow> error + 'k fluent_router" where
  "auth_stage ft env r =
     and_then (featured_try (ft_keycloak ft) (setup_oidc env)
         (featured (ft_keycloak ft) setup_browser_login_redirect r))
       (\<lambda>r2. Inr (setup_proxy_oidc (featured (ft_basic_auth ft) setup_basic_auth r2)))"

lemma auth_stage_Inr:
  "auth_stage ft env r = Inr r' \<longleftrightarrow>
   (\<exists>r2. featured_try (ft_keycloak ft) (setup_oidc env)
       (featured (ft_keycloak ft) setup_browser_login_redirect r) = Inr r2
     \<and> r' = setup_proxy_oidc (featured (ft_basic_auth ft) setup_basic_auth r2))"
  by (auto simp: auth_stage_def result_simps)

lemma grows_auth_stage: "auth_stage ft env r = Inr r' \<Longrightarrow> grows 2 5 r r'"
  unfolding auth_stage_Inr
proof (elim exE conjE, goal_cases)
  case (1 r2)
  have "grows 2 3 r r2" by (rule grows_then [OF grows_featured [OF grows_steps(1)] grows_tries(1) [OF 1(1)]]) auto
  then have "grows 2 4 r (featured (ft_basic_auth ft) setup_basic_auth r2)"
    by (rule grows_then [OF _ grows_featured [OF grows_steps(2)]]) auto
  then show ?case unfolding 1(2) by (rule grows_then [OF _ grows_steps(3)]) auto
qed

text \<open>The middleware around the authentication stage.\<close>

lemma middleware_auth_stage:
  assumes "setup_middleware ft env r = Started (Inr r')" "setup_protected_files env r = Inr r1"
  obtains r5 where "auth_stage ft env r1 = Inr r5" "grows 1 1 r r1" "grows 2 5 r1 r5" "grows 6 27 r5 r'"
proof -
  obtain a b c where m: "setup_auth_stack ft env r = Inr a"
    "setup_request_stack ft env (hc_default_api_version (fr_http r)) a = Started b"
    "featured_start (ft_rate_limiting ft) setup_rate_limiting b = Started c"
    "setup_outer_stack env c = Inr r'"
    using assms(1) by (rule middleware_stages)
  obtain q1 q2 q3 q4 where q: "setup_protected_files env r = Inr q1"
    "featured_try (ft_keycloak ft) (setup_oidc env)
       (featured (ft_keycloak ft) setup_browser_login_redirect q1) = Inr q2"
    "setup_public_files env (setup_proxy_oidc (featured (ft_basic_auth ft) setup_basic_auth q2)) = Inr q3"
    "featured_try (ft_keycloak ft) (setup_oidc_routes env) q3 = Inr q4"
    "featured_try (ft_session ft) (setup_session_handling env) (setup_user_span q4) = Inr a"
    using m(1) by (rule auth_stages)
  let ?r5 = "setup_proxy_oidc (featured (ft_basic_auth ft) setup_basic_auth q2)"
  have st: "auth_stage ft env r1 = Inr ?r5" using q(1,2) assms(2) by (auto simp: auth_stage_Inr)
  have "grows 6 7 ?r5 q4"
    by (rule grows_then [OF grows_files(2) [OF q(3)] grows_tries(2) [OF q(4)]]) auto
  then have "grows 6 8 ?r5 (setup_user_span q4)" by (rule grows_then [OF _ grows_steps(4)]) auto
  then have "grows 6 9 ?r5 a" by (rule grows_then [OF _ grows_tries(3) [OF q(5)]]) auto
  then have "grows 6 22 ?r5 b" by (rule grows_trans [OF _ grows_request_stack [OF m(2)]]) auto
  then have "grows 6 23 ?r5 c" by (rule grows_then [OF _ grows_start_stage(2) [OF m(3)]]) auto
  then have "grows 6 27 ?r5 r'" by (rule grows_trans [OF _ grows_outer_stack [OF m(4)]]) auto
  then show ?thesis
    using that st grows_auth_stage [OF st] grows_files(1) [OF assms(2)] by blast
qed

section \<open>Endpoints without authentication\<close>

lemma call_inner_paths [simp]: "paths (fr_inner (call_inner ops r)) = paths (fr_inner r) @ paths ops"
  by (simp add: call_inner_def)

lemma step_paths [simp]:
  "paths (fr_inner (setup_browser_login_redirect r)) = paths (fr_inner r)"
  "paths (fr_inner (setup_basic_auth r)) = paths (fr_inner r)"
  "paths (fr_inner (setup_proxy_oidc r)) = paths (fr_inner r)"
  by (simp_all add: setup_browser_login_redirect_def setup_basic_auth_def setup_proxy_oidc_def
      split: option.split)

lemma setup_oidc_paths: "setup_oidc env r = Inr r' \<Longrightarrow> paths (fr_inner r') = paths (fr_inner r)"
  by (auto simp: setup_oidc_def result_simps Let_def split: option.splits if_splits)

lemma auth_stage_paths: "auth_stage ft env r = Inr r' \<Longrightarrow> paths (fr_inner r') = paths (fr_inner r)"
  by (auto simp: auth_stage_Inr featured_try_Inr featured_def dest!: setup_oidc_paths split: if_splits)

lemma not_auth_position: "6 \<le> layer_position l \<Longrightarrow> \<not> is_auth_layer l"
  by (simp add: is_auth_layer_def)

lemma fallback_last: "fallback_stack (ops @ [SetFallback e]) = (Some e, [])"
  by (cases "fallback_stack ops") (simp add: fallback_stack_def)

lemma static_files_Inr: "static_files env d = Inr e \<Longrightarrow> \<exists>cc. e = StaticFiles (sd_directory d) cc"
  by (auto simp: static_files_def result_simps Let_def split: option.splits)

text \<open>The stages from the liveness route on.\<close>

lemma middleware_last_stages:
  assumes "setup_middleware ft env r = Started (Inr r')"
  obtains r4 where "grows 1 24 r r4" "setup_fallback_files env (setup_catch_panic (setup_liveness r4)) = Inr r'"
proof -
  obtain a b c where m: "setup_auth_stack ft env r = Inr a"
    "setup_request_stack ft env (hc_default_api_version (fr_http r)) a = Started b"
    "featured_start (ft_rate_limiting ft) setup_rate_limiting b = Started c"
    "setup_outer_stack env c = Inr r'"
    using assms(1) by (rule middleware_stages)
  have "grows 1 22 r b"
    by (rule grows_trans [OF grows_auth_stack [OF m(1)] grows_request_stack [OF m(2)]]) auto
  then have "grows 1 23 r c" by (rule grows_then [OF _ grows_start_stage(2) [OF m(3)]]) auto
  then have "grows 1 24 r (setup_request_id c)" by (rule grows_then [OF _ grows_steps(15)]) auto
  then show ?thesis using that m(4) by (simp add: setup_outer_stack_def)
qed

text \<open>C33: (what is not protected) A path that was bound neither by the application nor as a protected directory
has no authentication layer around it: public files, the login routes, the metrics and the
probes.  The liveness probe is behind nothing but the catcher of panics.  The fallback
files are behind no layer at all, not even that one: they are added last.\<close>
theorem public_endpoints_unauthenticated:
  assumes "setup_middleware ft env r = Started (Inr r')" "setup_protected_files env r = Inr r1"
    "distinct (paths (fr_inner r'))"
  shows "(\<forall>p e ls. p \<notin> set (paths (fr_inner r1)) \<and> route_stack p (fr_inner r') = Some (e, ls)
      \<longrightarrow> (\<forall>l \<in> set ls. \<not> is_auth_layer l))
    \<and> (is_middleware_enabled r Liveness \<longrightarrow> route_stack (hc_liveness_route (fr_http r)) (fr_inner r')
        = Some (LivenessEndpoint, if is_middleware_enabled r CatchPanic then [CatchPanicLayer] else []))
    \<and> (\<forall>d. find is_fallback (hc_directories (fr_http r)) = Some d
      \<longrightarrow> (\<exists>cc. fallback_stack (fr_inner r') = (Some (StaticFiles (sd_directory d) cc), [])))"
proof (intro conjI allI impI, goal_cases)
  case (1 p e ls)
  obtain r5 where st: "auth_stage ft env r1 = Inr r5" and g: "grows 6 27 r5 r'"
    by (rule middleware_auth_stage [OF assms(1,2)])
  obtain ops where ops: "fr_inner r' = fr_inner r5 @ ops" "in_order 6 27 ops"
    using g by (auto simp: grows_def)
  have "p \<notin> set (paths (fr_inner r5))" using 1 auth_stage_paths [OF st] by simp
  then have "route_stack p (fr_inner r5) = None" by (simp add: route_stack_None)
  then have "set ls \<subseteq> set (layers_of ops)"
    using 1 route_stack_layers [of p ops e ls] ops(2)
    by (simp add: ops(1) route_stack_append in_order_def)
  then show ?case using ops(2) not_auth_position by (fastforce simp: in_order_def)
next
  case 2
  obtain r4 where g: "grows 1 24 r r4"
    and r': "setup_fallback_files env (setup_catch_panic (setup_liveness r4)) = Inr r'"
    by (rule middleware_last_stages [OF assms(1)])
  let ?p = "hc_liveness_route (fr_http r)"
  note same = same_settings [OF grows_settings [OF g]]
  have inner: "fr_inner (setup_catch_panic (setup_liveness r4)) = fr_inner r4 @ AddRoute ?p LivenessEndpoint
      # (if is_middleware_enabled r CatchPanic then [AddLayer CatchPanicLayer] else [])"
    using 2 same(1) by (simp add: setup_liveness_def setup_catch_panic_def call_inner_def same
        is_middleware_enabled_def)
  obtain tail where tail: "fr_inner r' = fr_inner (setup_catch_panic (setup_liveness r4)) @ tail"
    "layers_of tail = []" "paths tail = []"
    using r' by (auto simp: setup_fallback_files_def call_inner_def result_simps split: option.splits)
  have "?p \<notin> set (paths (fr_inner r4))" using assms(3) by (auto simp: tail inner)
  then have "route_stack ?p (fr_inner r4) = None" by (simp add: route_stack_None)
  then show ?case by (simp add: tail inner route_stack_append)
next
  case (3 d)
  obtain r4 where g: "grows 1 24 r r4"
    and r': "setup_fallback_files env (setup_catch_panic (setup_liveness r4)) = Inr r'"
    by (rule middleware_last_stages [OF assms(1)])
  have g6: "grows 1 26 r (setup_catch_panic (setup_liveness r4))"
    by (rule grows_then [OF grows_then [OF g grows_steps(16)] grows_steps(17)]) auto
  then obtain e where "static_files env d = Inr e"
    "fr_inner r' = fr_inner (setup_catch_panic (setup_liveness r4)) @ [SetFallback e]"
    using r' 3 same_settings(5) [OF grows_settings [OF g6]]
    by (auto simp: setup_fallback_files_def call_inner_def result_simps)
  then show ?case using static_files_Inr fallback_last by metis
qed

section \<open>What the layers around a route do\<close>

text \<open>
  The libraries and the state the authentication layers run with; \<open>al_other\<close> is the behaviour
  of every other layer.
\<close>

record ('k, 'm, 's) auth_libs =
  al_decode_base64 :: "string \<Rightarrow> string option"
  al_ct_eq :: "string \<Rightarrow> string \<Rightarrow> bool"
  al_in_net :: "string \<Rightarrow> ip_addr \<Rightarrow> bool"
  al_decode_header :: "string \<Rightarrow> string option option"
  al_from_jwk :: "'m jwk \<Rightarrow> 'k option"
  al_decode :: "'k decoder"
  al_fetched :: "error + 'm jwk list"
  al_session_api :: "'s session_api"
  al_session :: 's
  al_client :: "'k oidc_client option"
  al_parse_id_token :: "string \<Rightarrow> string \<Rightarrow> string option \<Rightarrow> identity option"
  al_now :: u64
  al_refresh_now :: u64
  al_redirect :: "string \<Rightarrow> response"
  al_other :: "'k layer_kind \<Rightarrow> layer"

fun behaviour :: "('k, 'm, 's) auth_libs \<Rightarrow> 'k layer_kind \<Rightarrow> layer" where
  "behaviour a (BrowserRedirectLayer c) rq = browser_redirect_layer (al_redirect a) c rq"
| "behaviour a (BearerAuthLayer p c) rq =
     fst (bearer_auth_middleware (al_decode_header a) (al_from_jwk a) (al_decode a) (al_fetched a) c rq p)"
| "behaviour a (SessionToIdentityLayer roles) rq =
     fst (session_to_identity (al_session_api a)
       (verify_id_token_signature (al_decode_header a) (al_from_jwk a) (al_decode a) (al_fetched a))
       (\<lambda>jwt access. al_parse_id_token a roles jwt access) (al_now a) (al_refresh_now a) rq (al_client a)
       (al_session a))"
| "behaviour a (BasicAuthLayer c pass) rq =
     basic_auth_middleware (al_decode_base64 a) (al_ct_eq a) c pass rq"
| "behaviour a (ProxyOidcLayer c live) rq = proxy_oidc_middleware (al_ct_eq a) (al_in_net a) c live rq"
| "behaviour a l rq = al_other a l rq"

text \<open>A layer that takes no identity away.\<close>

definition keeps_identity :: "layer \<Rightarrow> bool" where
  "keeps_identity mw \<longleftrightarrow> (\<forall>rq rq'. mw rq = Next rq' \<longrightarrow> present_in rq \<longrightarrow> present_in rq')"

context auth_layer
begin

lemma never_drops: "keeps_identity mw"
  using keeps by (auto simp: keeps_identity_def)

end

lemma behaviour_keeps:
  assumes "\<And>l. keeps_identity (al_other a l)"
  shows "keeps_identity (behaviour a l)"
proof -
  have other: "al_other a l rq = Next rq' \<Longrightarrow> present_in rq \<Longrightarrow> present_in rq'" for l rq rq'
    using assms by (auto simp: keeps_identity_def)
  show ?thesis
    unfolding keeps_identity_def
    by (cases l)
      (auto intro: other redirect_layer.keeps basic_layer.keeps proxy_layer.keeps bearer_layer.keeps
        session_layer.keeps)
qed

lemma run_layers_keeps:
  assumes "\<forall>l \<in> set ls. keeps_identity l" "run_layers ls rq = Next rq'" "present_in rq"
  shows "present_in rq'"
  using assms
proof (induction ls arbitrary: rq)
  case (Cons l ls)
  then obtain rq1 where "l rq = Next rq1" "run_layers ls rq1 = Next rq'"
    by (auto split: decision.splits)
  then show ?case using Cons by (auto simp: keeps_identity_def)
qed simp

lemma run_layers_authenticated:
  assumes "\<forall>l \<in> set ls. keeps_identity l" "mw \<in> set ls"
    "\<And>rq rq'. mw rq = Next rq' \<Longrightarrow> present_in rq'" "run_layers ls rq = Next rq'"
  shows "present_in rq'"
  using assms(1,2,4)
proof (induction ls arbitrary: rq)
  case (Cons l ls)
  then obtain rq1 where rq1: "l rq = Next rq1" "run_layers ls rq1 = Next rq'"
    by (auto split: decision.splits)
  show ?case
  proof (cases "l = mw")
    case True
    then have "present_in rq1" using assms(3) rq1(1) by blast
    then show ?thesis using run_layers_keeps [OF _ rq1(2)] Cons.prems(1) by simp
  next
    case False
    then show ?thesis using Cons rq1(2) by auto
  qed
qed simp

lemma basic_layer_present:
  assumes "auth_stage ft env r1 = Inr r5" "ft_basic_auth ft" "hc_basic_auth (fr_http r1) = Some c"
    "is_middleware_enabled r1 BasicAuth"
  shows "BasicAuthLayer c (basic_passthrough r1) \<in> set (new_layers (\<lambda>_. True) r1 r5)"
proof -
  obtain r2 where r2: "featured_try (ft_keycloak ft) (setup_oidc env)
      (featured (ft_keycloak ft) setup_browser_login_redirect r1) = Inr r2"
    "r5 = setup_proxy_oidc (featured (ft_basic_auth ft) setup_basic_auth r2)"
    using assms(1) by (auto simp: auth_stage_Inr)
  have g: "grows 2 3 r1 r2"
    by (rule grows_then [OF grows_featured [OF grows_steps(1)] grows_tries(1) [OF r2(1)]]) auto
  have "hc_basic_auth (fr_http r2) = Some c" "is_middleware_enabled r2 BasicAuth"
    "basic_passthrough r2 = basic_passthrough r1"
    using same_settings [OF grows_settings [OF g]] assms(3,4) by auto
  then have b: "featured (ft_basic_auth ft) setup_basic_auth r2
      = call_inner [AddRouteLayer (BasicAuthLayer c (basic_passthrough r1))] r2"
    using assms(2) by (simp add: featured_def setup_basic_auth_def)
  have g4: "grows 2 4 r1 (featured (ft_basic_auth ft) setup_basic_auth r2)"
    by (rule grows_then [OF g grows_featured [OF grows_steps(2)]]) auto
  show ?thesis
    using new_layers_trans [OF g4 grows_steps(3), of "\<lambda>_. True"]
      new_layers_trans [OF g grows_featured [OF grows_steps(2)], of "\<lambda>_. True" "ft_basic_auth ft"]
    by (simp add: r2(2) b)
qed

text \<open>C6: (no anonymous requests) With basic authentication switched on, and not in the mode that leaves
anonymous requests to the authorization code flow, every route the application added before
\<open>setup_middleware\<close>, and every protected directory, is behind it: whatever the other layers
do short of removing an identity, a request that gets through the middleware to such a
route has an identity.\<close>
theorem basic_auth_guards_routes:
  assumes ok: "setup_middleware ft env r = Started (Inr r')" "setup_protected_files env r = Inr r1"
    and basic: "ft_basic_auth ft" "hc_basic_auth (fr_http r) = Some c"
      "is_middleware_enabled r BasicAuth" "\<not> basic_passthrough r"
    and route: "route_stack p (fr_inner r1) = Some (e, ls)"
    and others: "\<And>l. keeps_identity (al_other a l)"
  shows "\<exists>outer. route_stack p (fr_inner r') = Some (e, outer @ ls)
    \<and> (\<forall>rq rq'. run_layers (map (behaviour a) outer) rq = Next rq' \<longrightarrow> present_in rq')"
proof -
  obtain r5 where st: "auth_stage ft env r1 = Inr r5" and g: "grows 1 1 r r1" "grows 2 5 r1 r5" "grows 6 27 r5 r'"
    by (rule middleware_auth_stage [OF ok])
  have g': "grows 2 27 r1 r'" by (rule grows_trans [OF g(2,3)]) auto
  let ?outer = "rev (new_layers (\<lambda>_. True) r1 r')"
  have "BasicAuthLayer c False \<in> set (new_layers (\<lambda>_. True) r1 r5)"
    using basic_layer_present [OF st basic(1)] same_settings [OF grows_settings [OF g(1)]] basic by simp
  then have b: "BasicAuthLayer c False \<in> set ?outer"
    by (simp add: new_layers_trans [OF g(2,3)])
  have "present_in rq'" if run: "run_layers (map (behaviour a) ?outer) rq = Next rq'" for rq rq'
  proof (rule run_layers_authenticated [OF _ _ _ run])
    show "\<forall>l \<in> set (map (behaviour a) ?outer). keeps_identity l"
      using behaviour_keeps [OF others] by auto
    show "behaviour a (BasicAuthLayer c False) \<in> set (map (behaviour a) ?outer)"
      using b by (metis image_eqI list.set_map)
  qed (auto intro: basic_strict.authenticates)
  then show ?thesis using grows_route [OF g' route] by blast
qed

section \<open>Protected directories\<close>

text \<open>The authentication layers a configuration can lead to.\<close>

definition configured_auth :: "'k fluent_router \<Rightarrow> 'k layer_kind \<Rightarrow> bool" where
  "configured_auth r l =
     (case l of
        BrowserRedirectLayer c \<Rightarrow>
          (\<exists>oidc. hc_oidc (fr_http r) = Some oidc \<and> c = login_redirect_config (fr_http r) oidc)
      | BearerAuthLayer p c \<Rightarrow>
          (\<exists>oidc. hc_oidc (fr_http r) = Some oidc \<and> bc_passthrough c = auth_code_flow_enabled oidc)
      | SessionToIdentityLayer roles \<Rightarrow>
          (\<exists>oidc. hc_oidc (fr_http r) = Some oidc \<and> auth_code_flow_enabled oidc)
      | BasicAuthLayer c pass \<Rightarrow> hc_basic_auth (fr_http r) = Some c \<and> pass = basic_passthrough r
      | ProxyOidcLayer c live \<Rightarrow> hc_proxy_oidc (fr_http r) = Some c
      | _ \<Rightarrow> False)"

lemma configured_redirect:
  "l \<in> set (new_layers P r (featured b setup_browser_login_redirect r)) \<Longrightarrow> configured_auth r l"
  by (auto simp: featured_def setup_browser_login_redirect_def configured_auth_def
      split: option.splits if_splits)

lemma configured_oidc:
  "featured_try b (setup_oidc env) r = Inr r' \<Longrightarrow> l \<in> set (new_layers P r r') \<Longrightarrow> configured_auth r l"
  by (auto simp: featured_try_Inr setup_oidc_def result_simps Let_def call_inner_twice configured_auth_def
      split: option.splits if_splits)

lemma configured_basic:
  "l \<in> set (new_layers P r (featured b setup_basic_auth r)) \<Longrightarrow> configured_auth r l"
  by (auto simp: featured_def setup_basic_auth_def configured_auth_def split: option.splits if_splits)

lemma configured_proxy: "l \<in> set (new_layers P r (setup_proxy_oidc r)) \<Longrightarrow> configured_auth r l"
  by (auto simp: setup_proxy_oidc_def configured_auth_def split: option.splits if_splits)

lemma configured_auth_transfer:
  assumes "settings r' = settings r" "configured_auth r' l" "layer_position l \<noteq> 2"
  shows "configured_auth r l"
  using assms(2,3) same_settings [OF assms(1)] by (cases l) (auto simp: configured_auth_def)

lemma auth_stage_configured:
  assumes "auth_stage ft env r1 = Inr r5" "l \<in> set (new_layers P r1 r5)"
  shows "configured_auth r1 l"
proof -
  let ?q = "featured (ft_keycloak ft) setup_browser_login_redirect r1"
  obtain r2 where r2: "featured_try (ft_keycloak ft) (setup_oidc env) ?q = Inr r2"
    "r5 = setup_proxy_oidc (featured (ft_basic_auth ft) setup_basic_auth r2)"
    using assms(1) by (auto simp: auth_stage_Inr)
  let ?b = "featured (ft_basic_auth ft) setup_basic_auth r2"
  have g2: "grows 2 2 r1 ?q" by (rule grows_featured [OF grows_steps(1)])
  have g3: "grows 2 3 r1 r2" by (rule grows_then [OF g2 grows_tries(1) [OF r2(1)]]) auto
  have g4: "grows 2 4 r1 ?b" by (rule grows_then [OF g3 grows_featured [OF grows_steps(2)]]) auto
  have "new_layers P r1 r5
      = new_layers P r1 ?q @ new_layers P ?q r2 @ new_layers P r2 ?b @ new_layers P ?b r5"
    by (simp add: new_layers_trans [OF g2 grows_tries(1) [OF r2(1)]]
        new_layers_trans [OF g3 grows_featured [OF grows_steps(2)]]
        new_layers_trans [OF g4 grows_steps(3)] r2(2))
  then consider "l \<in> set (new_layers P r1 ?q)" | "l \<in> set (new_layers P ?q r2)"
    | "l \<in> set (new_layers P r2 ?b)" | "l \<in> set (new_layers P ?b r5)"
    using assms(2) by auto
  then show ?thesis
  proof cases
    case 1
    then show ?thesis by (rule configured_redirect)
  next
    case 2
    moreover have "layer_position l \<noteq> 2"
      using new_layers_position [OF grows_tries(1) [OF r2(1)] 2] by simp
    ultimately show ?thesis
      using configured_auth_transfer [OF grows_settings [OF g2]] configured_oidc [OF r2(1)] by blast
  next
    case 3
    moreover have "layer_position l \<noteq> 2"
      using new_layers_position [OF grows_featured [OF grows_steps(2)] 3] by simp
    ultimately show ?thesis
      using configured_auth_transfer [OF grows_settings [OF g3]] configured_basic by blast
  next
    case 4
    moreover have "layer_position l \<noteq> 2"
      using new_layers_position [OF grows_steps(3)] 4 by (fastforce simp: r2(2))
    ultimately show ?thesis
      using configured_auth_transfer [OF grows_settings [OF g4]] configured_proxy r2(2) by blast
  qed
qed

lemma run_layers_transparent: "\<forall>l \<in> set ls. l rq = Next rq \<Longrightarrow> run_layers ls rq = Next rq"
  by (induction ls) auto

lemma basic_passes_anonymous:
  "rq_header rq ''authorization'' = Absent \<Longrightarrow> rq_header rq (ba_api_key_header c) = Absent \<Longrightarrow>
   basic_auth_middleware dec ct_eq c True rq = Next rq"
  by (simp add: basic_auth_middleware_def try_authenticate_def try_basic_auth_def try_api_key_auth_def
      has_basic_header_def Let_def)

text \<open>C34: (protected directories in the flow mode) With the authorization code flow a request without any
credentials for a path of a protected directory passes every authentication layer around
the directory unchanged: bearer and basic authentication pass it through, it has no session,
and the redirection to the login skips the directories.  So what is configured as
protected is served to anybody.\<close>
theorem protected_files_open_in_flow_mode:
  assumes ok: "setup_middleware ft env r = Started (Inr r')" "setup_protected_files env r = Inr r1"
    and flow: "basic_passthrough r" "hc_proxy_oidc (fr_http r) = None"
    and dir: "d \<in> set (hc_directories (fr_http r))" "sd_route d = Route p"
      "route_stack p (fr_inner r1) = Some (e, ls)"
    and anonymous: "rq_header rq ''authorization'' = Absent" "\<not> rq_has_session rq"
      "\<And>c. hc_basic_auth (fr_http r) = Some c \<Longrightarrow> rq_header rq (ba_api_key_header c) = Absent"
      "starts_with (rq_path rq) p"
  shows "\<exists>outer. route_stack p (fr_inner r') = Some (e, outer @ ls)
    \<and> run_layers (map (behaviour a) (filter is_auth_layer outer)) rq = Next rq"
proof -
  obtain r5 where st: "auth_stage ft env r1 = Inr r5" and g: "grows 1 1 r r1" "grows 2 5 r1 r5" "grows 6 27 r5 r'"
    by (rule middleware_auth_stage [OF ok])
  have g': "grows 2 27 r1 r'" by (rule grows_trans [OF g(2,3)]) auto
  note same = same_settings [OF grows_settings [OF g(1)]]
  let ?outer = "rev (new_layers (\<lambda>_. True) r1 r')"
  have none: "new_layers is_auth_layer r5 r' = []"
    by (rule new_layers_none [OF g(3)]) (simp add: not_auth_position)
  have auth: "filter is_auth_layer ?outer = rev (new_layers is_auth_layer r1 r5)"
    by (simp add: rev_filter [symmetric] new_layers_filter new_layers_trans [OF g(2,3)] none)
  obtain oidc where oidc: "hc_oidc (fr_http r) = Some oidc" "auth_code_flow_enabled oidc"
    using flow(1) by (auto simp: basic_passthrough_def split: option.splits)
  have skip: "p \<in> set (br_skip_paths (login_redirect_config (fr_http r1) oidc))"
    using dir(1,2) same(5)
    by (auto simp: login_redirect_config_def route_path_def set_map_filter intro!: bexI [of _ d])
  have "behaviour a l rq = Next rq" if "configured_auth r1 l" for l
    using that flow anonymous skip oidc same
    by (cases l)
      (auto simp: configured_auth_def browser_redirect_layer_def browser_redirect_middleware_def
        list_ex_iff bearer_auth_middleware_def bearer_token_def session_to_identity_def
        basic_passes_anonymous)
  then have "\<forall>l \<in> set (map (behaviour a) (filter is_auth_layer ?outer)). l rq = Next rq"
    using auth_stage_configured [OF st] unfolding auth by auto
  then show ?thesis using grows_route [OF g' dir(3)] run_layers_transparent by blast
qed

section \<open>Example requests\<close>

definition demo_libs :: "(unit, unit, (string \<rightharpoonup> string) \<times> (string \<rightharpoonup> u64)) auth_libs" where
  "demo_libs = \<lparr>al_decode_base64 = demo_decode, al_ct_eq = (=), al_in_net = (\<lambda>n ip. False),
     al_decode_header = (\<lambda>t. None), al_from_jwk = (\<lambda>k. None), al_decode = (\<lambda>k v t. None),
     al_fetched = Inr [], al_session_api = map_session, al_session = (Map.empty, Map.empty),
     al_client = None, al_parse_id_token = (\<lambda>roles jwt access. None), al_now = 0, al_refresh_now = 0,
     al_redirect = (\<lambda>l. status_response 307), al_other = (\<lambda>l rq. Next rq)\<rparr>"

lemma demo_others: "keeps_identity (al_other demo_libs l)"
  by (simp add: demo_libs_def keeps_identity_def)

lemma demo_protected_files:
  "hc_directories h = [] \<Longrightarrow> setup_protected_files env (app_router h) = Inr (app_router h)"
  by (simp add: setup_protected_files_def setup_directories_def)

theorem basic_auth_guards_routes_witness:
  "\<exists>r' ls. setup_middleware (bare_features\<lparr>ft_basic_auth := True\<rparr>) demo_env
       (app_router ((only [BasicAuth])\<lparr>hc_basic_auth := Some demo_auth\<rparr>)) = Started (Inr r')
    \<and> route_stack ''/api'' (fr_inner r') = Some (AppEndpoint ''api'', ls)
    \<and> (\<forall>rq rq'. run_layers (map (behaviour demo_libs) ls) rq = Next rq' \<longrightarrow> present_in rq')"
proof -
  let ?ft = "bare_features\<lparr>ft_basic_auth := True\<rparr>"
  let ?r = "app_router ((only [BasicAuth])\<lparr>hc_basic_auth := Some demo_auth\<rparr>)"
  obtain r' where r': "setup_middleware ?ft demo_env ?r = Started (Inr r')"
    using setup_succeeds [OF demo_env_ok, of ?ft ?r] by (auto simp: bare_features_def only_def http_default_def)
  have files: "setup_protected_files demo_env ?r = Inr ?r"
    by (rule demo_protected_files) (simp add: only_def http_default_def)
  have on: "ft_basic_auth ?ft" "hc_basic_auth (fr_http ?r) = Some demo_auth"
    "is_middleware_enabled ?r BasicAuth" "\<not> basic_passthrough ?r"
    by (simp_all add: bare_features_def only_def http_default_def basic_passthrough_def
        is_middleware_enabled_def)
  have route: "route_stack ''/api'' (fr_inner ?r) = Some (AppEndpoint ''api'', [])" by simp
  show ?thesis
    using basic_auth_guards_routes [OF r' files on route demo_others] r' by auto
qed

definition flow_config :: http_config where
  "flow_config = (only [Oidc, Session])\<lparr>
     hc_oidc := Some ((oidc_defaults ''app'' (Sensitive ''s''))\<lparr>oc_redirect_uri := Some ''https://app/cb''\<rparr>),
     hc_directories := [\<lparr>sd_directory = ''./private'', sd_route = Route ''/private'', sd_protected = True,
       sd_cache_max_age = None\<rparr>]\<rparr>"

definition private_request :: request where
  "private_request = sample_request\<lparr>rq_path := ''/private/salaries.txt''\<rparr>"

theorem protected_files_open_in_flow_mode_witness:
  "\<exists>r' ls. setup_middleware (bare_features\<lparr>ft_keycloak := True\<rparr>) demo_env (app_router flow_config)
      = Started (Inr r')
    \<and> route_stack ''/private'' (fr_inner r') = Some (StaticFiles ''./private'' None, ls)
    \<and> run_layers (map (behaviour demo_libs) (filter is_auth_layer ls)) private_request = Next private_request"
proof -
  let ?ft = "bare_features\<lparr>ft_keycloak := True\<rparr>" and ?r = "app_router flow_config"
  obtain r' where r': "setup_middleware ?ft demo_env ?r = Started (Inr r')"
    using setup_succeeds [OF demo_env_ok, of ?ft ?r]
    by (auto simp: bare_features_def only_def http_default_def flow_config_def)
  obtain r1 where r1: "setup_protected_files demo_env ?r = Inr r1"
    "route_stack ''/private'' (fr_inner r1) = Some (StaticFiles ''./private'' None, [])"
    by (simp add: setup_protected_files_def setup_directories_def flow_config_def only_def static_files_def
        router_nest_service_def call_inner_def)
  have on: "basic_passthrough ?r" "hc_proxy_oidc (fr_http ?r) = None"
    by (simp_all add: basic_passthrough_def flow_config_def only_def http_default_def
        auth_code_flow_enabled_def oidc_defaults_def)
  let ?d = "\<lparr>sd_directory = ''./private'', sd_route = Route ''/private'', sd_protected = True,
       sd_cache_max_age = None\<rparr>"
  have d: "?d \<in> set (hc_directories (fr_http ?r))" "sd_route ?d = Route ''/private''"
    by (simp_all add: flow_config_def)
  have rq: "rq_header private_request ''authorization'' = Absent" "\<not> rq_has_session private_request"
    "starts_with (rq_path private_request) ''/private''"
    by (simp_all add: private_request_def sample_request_def starts_with_def)
  have "hc_basic_auth (fr_http ?r) = None" by (simp add: flow_config_def only_def http_default_def)
  then show ?thesis
    using protected_files_open_in_flow_mode [OF r' r1(1) on d r1(2) rq(1,2) _ rq(3), of demo_libs] r'
    by auto
qed

lemma demo_liveness:
  "setup_middleware bare_features demo_env (app_router (only [Liveness])) = Started (Inr
     (call_inner [AddLayer UserSpanLayer, AddRoute ''/live'' LivenessEndpoint]
       (app_router (only [Liveness]))))"
proof -
  let ?r = "app_router (only [Liveness])"
  have files: "hc_directories (fr_http ?r) = []" by (simp add: only_def http_default_def)
  have off: "\<not> is_middleware_enabled ?r m" if "m \<noteq> Liveness" for m using that by (simp add: only_def)
  have auth: "setup_auth_stack bare_features demo_env ?r = Inr (setup_user_span ?r)"
    by (simp add: setup_auth_stack_def featured_try_def featured_def bare_features_def
        setup_protected_files_def setup_public_files_def setup_directories_def only_def http_default_def
        setup_proxy_oidc_def)
  have on: "is_middleware_enabled ?r Liveness" by (simp add: only_def)
  have path: "hc_liveness_route (fr_http ?r) = ''/live''" by (simp add: only_def http_default_def)
  have req: "setup_request_stack bare_features demo_env v (setup_user_span ?r)
      = Started (setup_user_span ?r)" for v
    by (simp add: setup_request_stack_def setup_before_cors_def setup_after_cors_def featured_def
        bare_features_off setup_user_span_def
        setup_logging_def setup_readiness_def setup_timeout_def off del: app_router_simps)
  have outer: "setup_outer_stack demo_env (setup_user_span ?r)
      = Inr (call_inner [AddLayer UserSpanLayer, AddRoute ''/live'' LivenessEndpoint] ?r)"
    by (simp add: setup_outer_stack_def setup_request_id_def setup_liveness_def setup_catch_panic_def
        setup_user_span_def off on path files setup_fallback_files_def call_inner_twice
        del: app_router_simps)
  show ?thesis by (simp add: setup_middleware_def auth req outer bare_features_off)
qed

theorem public_endpoints_unauthenticated_witness:
  "route_stack ''/live'' (fr_inner (call_inner [AddLayer UserSpanLayer, AddRoute ''/live'' LivenessEndpoint]
     (app_router (only [Liveness])))) = Some (LivenessEndpoint, [])"
proof -
  let ?r = "app_router (only [Liveness])"
  let ?r' = "call_inner [AddLayer UserSpanLayer, AddRoute ''/live'' LivenessEndpoint] ?r"
  have files: "setup_protected_files demo_env ?r = Inr ?r"
    by (rule demo_protected_files) (simp add: only_def http_default_def)
  have "distinct (paths (fr_inner ?r'))" by simp
  from public_endpoints_unauthenticated [OF demo_liveness files this]
  have "is_middleware_enabled ?r Liveness \<longrightarrow> route_stack (hc_liveness_route (fr_http ?r)) (fr_inner ?r')
      = Some (LivenessEndpoint, if is_middleware_enabled ?r CatchPanic then [CatchPanicLayer] else [])"
    by blast
  moreover have "is_middleware_enabled ?r Liveness" "\<not> is_middleware_enabled ?r CatchPanic"
    by (simp_all add: only_def)
  moreover have "hc_liveness_route (fr_http ?r) = ''/live''" by (simp add: only_def http_default_def)
  ultimately show ?thesis by (simp del: app_router_simps)
qed

end
