(* ===== verification/Router_Bearer.thy ===== *)
theory Router_Bearer
  imports Router_Auth
begin

text \<open>
  The router in the mode in which bearer tokens are the only way in: the middleware of
  \<open>oidc_bearer.rs\<close> as \<open>setup_oidc\<close> of \<open>auth.rs\<close> places it around the routes of the application.
\<close>

section \<open>What a request needs to get through\<close>

definition keeps_header :: "string \<Rightarrow> layer \<Rightarrow> bool" where
  "keeps_header h mw \<longleftrightarrow> (\<forall>rq rq'. mw rq = Next rq' \<longrightarrow> rq_header rq' h = rq_header rq h)"

lemma same_but_identity_header: "same_but_identity rq rq' \<Longrightarrow> rq_header rq' h = rq_header rq h"
  by (cases rq, cases rq') (simp add: same_but_identity_def)

context auth_layer
begin

lemma never_rewrites: "keeps_header h mw"
  using frame by (auto simp: keeps_header_def dest: same_but_identity_header)

end

lemma behaviour_keeps_header:
  assumes "\<And>l. keeps_header h (al_other a l)"
  shows "keeps_header h (behaviour a l)"
proof -
  have other: "al_other a l rq = Next rq' \<Longrightarrow> rq_header rq' h = rq_header rq h" for l rq rq'
    using assms by (auto simp: keeps_header_def)
  show ?thesis
    unfolding keeps_header_def
    by (cases l)
      (auto intro: other same_but_identity_header redirect_layer.frame basic_layer.frame
        proxy_layer.frame bearer_layer.frame session_layer.frame)
qed

text \<open>
  A layer of the stack demands some evidence \<open>x\<close> in a header, and then either attaches an
  identity or has found the evidence lacking one.
\<close>

lemma run_layers_evidence:
  assumes "\<forall>l \<in> set ls. keeps_identity l \<and> keeps_header h l" "mw \<in> set ls"
    "\<And>rq rq'. mw rq = Next rq' \<Longrightarrow> \<exists>x. P (rq_header rq h) x \<and> (present_in rq' \<or> Q x)"
    "run_layers ls rq = Next rq'"
  shows "\<exists>x. P (rq_header rq h) x \<and> (present_in rq' \<or> Q x)"
  using assms(1,2,4)
proof (induction ls arbitrary: rq)
  case (Cons l ls)
  then obtain rq1 where rq1: "l rq = Next rq1" "run_layers ls rq1 = Next rq'"
    by (auto split: decision.splits)
  show ?case
  proof (cases "l = mw")
    case True
    then obtain x where "P (rq_header rq h) x" "present_in rq1 \<or> Q x"
      using assms(3) rq1(1) by blast
    then show ?thesis using run_layers_keeps [OF _ rq1(2)] Cons.prems(1) by fastforce
  next
    case False
    then have "\<exists>x. P (rq_header rq1 h) x \<and> (present_in rq' \<or> Q x)" using Cons rq1(2) by simp
    moreover have "rq_header rq1 h = rq_header rq h"
      using Cons.prems(1) rq1(1) by (simp add: keeps_header_def)
    ultimately show ?thesis by simp
  qed
qed simp

section \<open>Bearer tokens in block mode\<close>

text \<open>A bearer token in a header, with the claims the JWT library accepted for it.\<close>

definition accepted_token ::
  "'k decoder \<Rightarrow> string \<Rightarrow> string list \<Rightarrow> bool \<Rightarrow> header_value \<Rightarrow> json \<Rightarrow> bool" where
  "accepted_token decode issuer audiences live v claims \<longleftrightarrow>
     (\<exists>token key valid. v = HeaderText (''Bearer '' @ token) \<and> decode key valid token = Some claims
       \<and> strict_validation issuer audiences valid \<and> \<not> (audiences = [] \<and> live))"

definition names_nobody :: "json \<Rightarrow> bool" where
  "names_nobody claims = (Option.bind (json_get ''sub'' claims) json_as_str = None)"

lemma block_mode_evidence:
  assumes "jp_reach from_jwk issuer audiences live p" "\<not> bc_passthrough c"
    "fst (bearer_auth_middleware decode_header from_jwk decode fetched c rq p) = Next rq'"
  shows "\<exists>claims. accepted_token decode issuer audiences live (rq_header rq ''authorization'') claims
    \<and> (present_in rq' \<or> names_nobody claims)"
proof -
  obtain token claims where t: "bearer_token rq = Some token"
    and v: "fst (validate_token decode_header from_jwk decode fetched token p) = Inr claims"
    and rq': "case claims_to_identity claims (bc_roles_claim c) (Some token) of
        Some i \<Rightarrow> rq' = with_identity i rq | None \<Rightarrow> rq' = rq"
    using assms(2,3)
    by (auto simp: bearer_auth_middleware_def split: option.splits prod.splits sum.splits if_splits)
  have "rq_header rq ''authorization'' = HeaderText (''Bearer '' @ token)"
    using t by (auto simp: bearer_token_def bind_eq_Some_conv str_simps elim!: to_str_ok.elims)
  then have "accepted_token decode issuer audiences live (rq_header rq ''authorization'') claims"
    using validate_token_accepts [OF jp_reach_ok [OF assms(1)] v] by (auto simp: accepted_token_def)
  moreover have "present_in rq' \<or> names_nobody claims"
    using rq' by (cases "Option.bind (json_get ''sub'' claims) json_as_str")
      (auto simp: names_nobody_def claims_to_identity_def)
  ultimately show ?thesis by blast
qed

lemma same_production:
  "settings r' = settings r \<Longrightarrow> cf_is_production (fr_config r') = cf_is_production (fr_config r)"
  by (drule arg_cong [where f = cf_is_production]) (simp add: settings_def)

lemma bearer_layer_present:
  assumes "auth_stage ft env r1 = Inr r5" "ft_keycloak ft" "hc_oidc (fr_http r1) = Some oidc"
    "is_middleware_enabled r1 Oidc"
  obtains url p where
    "se_provider env url (oidc_issuer oidc) (oc_audiences oidc) (cf_is_production (fr_config r1)) = Inr p"
    "BearerAuthLayer p \<lparr>bc_passthrough = auth_code_flow_enabled oidc, bc_roles_claim = oc_roles_claim oidc\<rparr>
      \<in> set (new_layers (\<lambda>_. True) r1 r5)"
proof -
  let ?q = "setup_browser_login_redirect r1"
  obtain r2 where r2: "setup_oidc env ?q = Inr r2"
    "r5 = setup_proxy_oidc (featured (ft_basic_auth ft) setup_basic_auth r2)"
    using assms(1,2) by (auto simp: auth_stage_Inr featured_try_def featured_def)
  have g2: "grows 2 2 r1 ?q" by (rule grows_steps(1))
  have g3: "grows 3 3 ?q r2" by (rule grows_setup_oidc [OF r2(1)])
  have g5: "grows 4 5 r2 r5"
    unfolding r2(2) by (rule grows_then [OF grows_featured [OF grows_steps(2)] grows_steps(3)]) auto
  have q: "hc_oidc (fr_http ?q) = Some oidc" "is_middleware_enabled ?q Oidc"
    "cf_is_production (fr_config ?q) = cf_is_production (fr_config r1)"
    using same_settings(1,2) [OF grows_settings [OF g2]] same_production [OF grows_settings [OF g2]] assms(3,4)
    by simp_all
  obtain url p where p: "se_provider env url (oidc_issuer oidc) (oc_audiences oidc)
      (cf_is_production (fr_config r1)) = Inr p"
    "BearerAuthLayer p \<lparr>bc_passthrough = auth_code_flow_enabled oidc, bc_roles_claim = oc_roles_claim oidc\<rparr>
      \<in> set (new_layers (\<lambda>_. True) ?q r2)"
    using r2(1) q
    by (auto simp: setup_oidc_def result_simps Let_def call_inner_twice split: option.splits if_splits)
  have "new_layers (\<lambda>_. True) r1 r5 = new_layers (\<lambda>_. True) r1 ?q @ new_layers (\<lambda>_. True) ?q r2
      @ new_layers (\<lambda>_. True) r2 r5"
    using new_layers_trans [OF g2 grows_trans [OF g3 g5]] new_layers_trans [OF g3 g5] by auto
  then show ?thesis using that p by auto
qed


definition token_config :: http_config where
  "token_config = (only [Oidc, Session])\<lparr>
     hc_oidc := Some ((oidc_defaults ''app'' (Sensitive ''s''))\<lparr>oc_issuer_url := ''iss'', oc_realm := [],
       oc_audiences := [''app'']\<rparr>)\<rparr>"

definition token_libs :: "(unit, unit, (string \<rightharpoonup> string) \<times> (string \<rightharpoonup> u64)) auth_libs" where
  "token_libs = demo_libs\<lparr>al_from_jwk := (\<lambda>k. Some (jwk_material k))\<rparr>"


end
