(* ===== verification/Health.thy ===== *)
theory Health
  imports Router_Setup Breaker_Calls
begin

text \<open>
  The handlers and request middlewares that \<open>src/fluent/features.rs\<close> and
  \<open>observability.rs\<close> install: the readiness probe (with \<open>readiness.rs\<close>), the API version of a
  request, the fields of its span, and the CORS policy.
\<close>

section \<open>Readiness\<close>

datatype readiness = Ready | NotReady string

definition ready :: readiness where
  "ready = Ready"

definition not_ready :: "string \<Rightarrow> readiness" where
  "not_ready msg = NotReady msg"

definition is_ready :: "readiness \<Rightarrow> bool" where
  "is_ready r = (r = Ready)"

text \<open>
  \<open>pg\<close> and \<open>cb\<close> are the features \<open>postgres\<close> and \<open>circuit-breaker\<close>, \<open>check\<close> what the
  application's check answers if there is one, \<open>query\<close> the result of \<open>SELECT 1\<close>.
\<close>

definition database_failing :: "bool \<Rightarrow> bool \<Rightarrow> nanos \<Rightarrow> registry \<Rightarrow> bool \<times> registry" where
  "database_failing pg cb now r =
     (if cb \<and> pg
      then (case get_or_default ''database'' r of
              (h, r') \<Rightarrow> (is_fast_failing now (breaker_at h r'), r'))
      else (False, r))"

definition readiness_handler ::
  "bool \<Rightarrow> bool \<Rightarrow> readiness option \<Rightarrow> nanos \<Rightarrow> string + unit \<Rightarrow> registry \<Rightarrow> response \<times> registry" where
  "readiness_handler pg cb check now query r =
     (case check of
        Some (NotReady msg) \<Rightarrow> (text_response 503 (msg @ [CHR 0x0A]), r)
      | _ \<Rightarrow>
          (case database_failing pg cb now r of
             (failing, r') \<Rightarrow>
               (if failing then text_response 503 (''Database circuit open'' @ [CHR 0x0A])
                else if pg \<and> \<not> is_ok query
                     then text_response 503 (''Database unavailable'' @ [CHR 0x0A])
                     else text_response 200 (''OK'' @ [CHR 0x0A]),
                r')))"

definition liveness_handler :: response where
  "liveness_handler = text_response 200 (''OK'' @ [CHR 0x0A])"

lemma new_breaker_not_failing [simp]: "\<not> is_fast_failing now (cb_new cfg)"
  by (simp add: is_fast_failing_def cb_new_def)

lemma database_failing_iff:
  "fst (database_failing pg cb now r) \<longleftrightarrow>
     pg \<and> cb \<and> (\<exists>h. registry_get r ''database'' = Some h \<and> is_fast_failing now (breaker_at h r))"
  by (auto simp: database_failing_def get_or_default_def registry_get_def reg_insert_def breaker_at_def
      nth_append split: option.splits)

lemma database_failing_registry:
  "(h < length (reg_store r) \<longrightarrow> breaker_at h (snd (database_failing pg cb now r)) = breaker_at h r)
   \<and> (t \<noteq> ''database'' \<longrightarrow> registry_get (snd (database_failing pg cb now r)) t = registry_get r t)"
  using get_or_default_other [of t "''database''" r]
  by (auto simp: database_failing_def get_or_default_def reg_insert_def breaker_at_def nth_append
      registry_get_def split: option.splits)

text \<open>The probe answers 200 exactly when the application's check, if there is one, passes, the
database answers its query, and the database breaker, if there is one, is not failing
fast; otherwise 503.  It changes no breaker that exists and no other target of the registry:
at most it creates the breaker of the database.\<close>
theorem readiness_exact:
  "(rs_status (fst (readiness_handler pg cb check now query r)) = 200 \<longleftrightarrow>
      (\<forall>c. check = Some c \<longrightarrow> is_ready c) \<and> (pg \<longrightarrow> is_ok query)
      \<and> \<not> (pg \<and> cb \<and> (\<exists>h. registry_get r ''database'' = Some h
            \<and> is_fast_failing now (breaker_at h r))))
   \<and> rs_status (fst (readiness_handler pg cb check now query r)) \<in> {200, 503}
   \<and> (\<forall>h < length (reg_store r).
        breaker_at h (snd (readiness_handler pg cb check now query r)) = breaker_at h r)
   \<and> (\<forall>t. t \<noteq> ''database'' \<longrightarrow>
        registry_get (snd (readiness_handler pg cb check now query r)) t = registry_get r t)"
proof (cases "\<exists>msg. check = Some (NotReady msg)")
  case True
  then show ?thesis by (auto simp: readiness_handler_def text_response_def is_ready_def)
next
  case False
  then have passes: "\<forall>c. check = Some c \<longrightarrow> is_ready c"
    by (auto simp: is_ready_def intro: readiness.exhaust)
  obtain failing r' where f: "database_failing pg cb now r = (failing, r')" by fastforce
  have h: "readiness_handler pg cb check now query r =
      (if failing then text_response 503 (''Database circuit open'' @ [CHR 0x0A])
       else if pg \<and> \<not> is_ok query then text_response 503 (''Database unavailable'' @ [CHR 0x0A])
       else text_response 200 (''OK'' @ [CHR 0x0A]), r')"
  proof (cases check)
    case None
    show ?thesis unfolding readiness_handler_def None option.case f prod.case by (rule refl)
  next
    case (Some c)
    then have "check = Some Ready" using False by (cases c) auto
    then show ?thesis
      unfolding readiness_handler_def by (simp only: option.case readiness.case f prod.case)
  qed
  have "failing \<longleftrightarrow> pg \<and> cb \<and> (\<exists>h. registry_get r ''database'' = Some h
      \<and> is_fast_failing now (breaker_at h r))"
    using database_failing_iff [of pg cb now r] by (simp add: f)
  moreover have "rs_status (fst (readiness_handler pg cb check now query r))
      = (if failing \<or> pg \<and> \<not> is_ok query then 503 else 200)"
    by (simp add: h text_response_def)
  moreover have "\<forall>h < length (reg_store r). breaker_at h r' = breaker_at h r"
    "\<forall>t. t \<noteq> ''database'' \<longrightarrow> registry_get r' t = registry_get r t"
    using database_failing_registry [of _ r pg cb now] by (simp_all add: f)
  ultimately show ?thesis using passes by (simp add: h)
qed

theorem readiness_exact_witness:
  "rs_status (fst (readiness_handler True True (Some Ready) 0 (Inr ()) (registry_new \<lparr>targets = []\<rparr>))) = 200"
proof -
  have "\<not> (\<exists>h. registry_get (registry_new \<lparr>targets = []\<rparr>) ''database'' = Some h
      \<and> is_fast_failing 0 (breaker_at h (registry_new \<lparr>targets = []\<rparr>)))"
    by (simp add: registry_get_def registry_new_def)
  then show ?thesis
    using readiness_exact [of True True "Some Ready" 0 "Inr ()" "registry_new \<lparr>targets = []\<rparr>"]
    by (simp add: is_ready_def is_ok_iff)
qed

section \<open>API versions and spans\<close>

definition request_version :: "(string \<Rightarrow> nat) \<Rightarrow> u32 \<Rightarrow> request \<Rightarrow> api_version" where
  "request_version nd default_version rq =
     (case version_from_path nd (rq_path rq) of
        Some v \<Rightarrow> v
      | None \<Rightarrow>
     (case Option.bind (to_str_ok (rq_header rq ''x-api-version'')) (version_from_header nd) of
        Some v \<Rightarrow> v
      | None \<Rightarrow>
     (case Option.bind (to_str_ok (rq_header rq ''accept'')) (version_from_header nd) of
        Some v \<Rightarrow> v
      | None \<Rightarrow>
     (case Option.bind (rq_query rq) (version_from_query nd) of
        Some v \<Rightarrow> v
      | None \<Rightarrow> ApiVersion default_version))))"

definition api_versioning_middleware :: "(string \<Rightarrow> nat) \<Rightarrow> u32 \<Rightarrow> layer" where
  "api_versioning_middleware nd default_version rq =
     Next (rq\<lparr>rq_api_version := Some (request_version nd default_version rq)\<rparr>)"

definition span_request_id :: "request \<Rightarrow> string" where
  "span_request_id rq =
     (case to_str_ok (rq_header rq ''x-request-id'') of Some i \<Rightarrow> i | None \<Rightarrow> ''unknown'')"

section \<open>The CORS policy\<close>

text \<open>With a configured list of origins only the last usable one is allowed, because each
call of the builder replaces the one before, and none if no entry is usable.  With
credentials nothing is set to \<open>Any\<close>, and without them only what is not configured is.
Without any configuration production allows no origin and sends no credentials, while
elsewhere every origin is mirrored with credentials.\<close>
theorem cors_policy:
  "kl_origin (cors_from_config env c) =
      (case co_allowed_origins c of
         Some os \<Rightarrow> if usable_origins env os = [] then OriginUnset
                    else OriginExact (last (usable_origins env os))
       | None \<Rightarrow> if co_allow_credentials c = Some True then OriginUnset else OriginAny)
   \<and> kl_credentials (cors_from_config env c) = (co_allow_credentials c = Some True)
   \<and> (kl_methods (cors_from_config env c) = ListAny
      \<longleftrightarrow> co_allowed_methods c = None \<and> co_allow_credentials c \<noteq> Some True)
   \<and> (kl_headers (cors_from_config env c) = ListAny
      \<longleftrightarrow> co_allowed_headers c = None \<and> co_allow_credentials c \<noteq> Some True)
   \<and> kl_origin cors_new = OriginUnset \<and> \<not> kl_credentials cors_new
   \<and> kl_origin cors_very_permissive = OriginMirror \<and> kl_credentials cors_very_permissive"
  by (simp add: cors_fields cors_new_def cors_very_permissive_def split: option.split)

section \<open>Custom metrics\<close>

text \<open>
  Empty bucket lists are skipped, so if those are all that \<open>set_buckets_for_metric\<close> refuses, the
  configuration never fails, and the plain recorder is used only when none can be installed.
\<close>

lemma set_buckets_ok:
  assumes "\<forall>m bs rc. bs \<noteq> [] \<longrightarrow> is_ok (set_buckets m bs rc)" "is_ok acc"
  shows "is_ok (foldl (\<lambda>acc c. if mb_buckets c = [] then acc
      else and_then acc (set_buckets (to_matcher c) (mb_buckets c))) acc cs)"
  using assms(2)
proof (induction cs arbitrary: acc)
  case (Cons c cs)
  then show ?case using assms(1) by (auto simp: is_ok_iff result_simps)
qed simp

lemma configure_ok:
  assumes "\<forall>m bs rc. bs \<noteq> [] \<longrightarrow> is_ok (set_buckets m bs rc)" "duration_buckets \<noteq> []"
  shows "is_ok (configure_metrics_recorder set_buckets name duration_buckets buckets labels idle)"
  using set_buckets_ok [OF assms(1)] assms
  by (force simp: configure_metrics_recorder_def is_ok_iff result_simps)

lemma custom_recorder_used:
  assumes "\<forall>m bs rc. bs \<noteq> [] \<longrightarrow> is_ok (set_buckets m bs rc)" "duration_buckets \<noteq> []"
    "\<And>rc. install rc"
  shows "\<exists>rc. configure_metrics_recorder set_buckets name duration_buckets buckets labels idle = Inr rc
    \<and> rc_labels rc = labels
    \<and> fst (build_custom_metrics_recorder set_buckets name duration_buckets install buckets labels idle upkeep) = rc"
proof -
  obtain rc where rc: "configure_metrics_recorder set_buckets name duration_buckets buckets labels idle = Inr rc"
    using configure_ok [OF assms(1,2)] unfolding is_ok_iff by blast
  then have "rc_labels rc = labels"
    by (auto simp: configure_metrics_recorder_def result_simps Let_def split: option.splits)
  then show ?thesis using rc assms(3) by (simp add: build_custom_metrics_recorder_def)
qed

end
