(* ===== verification/Openapi.thy ===== *)
theory Openapi
  imports Router_Stack
begin

text \<open>
  \<open>src/openapi.rs\<close>: the routes that serve a documentation page and the specification behind it.
  \<open>to_json\<close> is the serialization of the \<open>utoipa\<close> crate, and the page is the router with the one
  route that \<open>Scalar::with_url\<close> of \<open>utoipa_scalar\<close> returns.
\<close>

record scalar_config =
  sc_path :: string
  sc_spec_path :: string
  sc_title :: "string option"

definition scalar_default :: scalar_config where
  "scalar_default = \<lparr>sc_path = ''/docs'', sc_spec_path = ''/openapi.json'', sc_title = None\<rparr>"

definition scalar_new :: "string \<Rightarrow> scalar_config" where
  "scalar_new path = scalar_default\<lparr>sc_path := path\<rparr>"

definition with_spec_path :: "string \<Rightarrow> scalar_config \<Rightarrow> scalar_config" where
  "with_spec_path path c = c\<lparr>sc_spec_path := path\<rparr>"

definition with_title :: "string \<Rightarrow> scalar_config \<Rightarrow> scalar_config" where
  "with_title title c = c\<lparr>sc_title := Some title\<rparr>"

definition with_openapi_config ::
  "('spec \<Rightarrow> string + string) \<Rightarrow> 'spec \<Rightarrow> scalar_config \<Rightarrow> 'k router_op list \<Rightarrow> 'k router_op list started" where
  "with_openapi_config to_json spec c ops =
     (case to_json spec of
        Inl e \<Rightarrow> Panicked
      | Inr json \<Rightarrow> Started (ops @ [AddRoute (sc_spec_path c) (AppEndpoint json),
                                   AddRoute (sc_path c) (AppEndpoint ''scalar'')]))"

definition with_openapi ::
  "('spec \<Rightarrow> string + string) \<Rightarrow> 'spec \<Rightarrow> string \<Rightarrow> 'k router_op list \<Rightarrow> 'k router_op list started" where
  "with_openapi to_json spec path ops = with_openapi_config to_json spec (scalar_new path) ops"

text \<open>The title of a configuration makes no difference to what is served.\<close>

lemma title_ignored:
  "with_openapi_config to_json spec (with_title t c) ops = with_openapi_config to_json spec c ops"
  by (simp add: with_openapi_config_def with_title_def split: sum.split)

lemma openapi_routes:
  assumes "with_openapi_config to_json spec c ops = Started ops'" "sc_path c \<noteq> sc_spec_path c"
    "route_stack (sc_spec_path c) ops = None" "route_stack (sc_path c) ops = None"
  shows "\<exists>json. to_json spec = Inr json
      \<and> route_stack (sc_spec_path c) ops' = Some (AppEndpoint json, [])
      \<and> route_stack (sc_path c) ops' = Some (AppEndpoint ''scalar'', [])"
    and "p \<noteq> sc_path c \<Longrightarrow> p \<noteq> sc_spec_path c \<Longrightarrow> route_stack p ops' = route_stack p ops"
  using assms by (auto simp: with_openapi_config_def route_stack_append split: sum.splits option.splits)

end
