(* ===== verification/Oidc_Session.thy ===== *)
theory Oidc_Session
  imports Oidc_Flow Proxy_Auth "HOL-Library.Multiset"
begin

text \<open>
  The life of one session under the authorization code flow: the handlers of \<open>oidc_flow.rs\<close>, the
  session middleware and the browser redirection composed, in any order and any number, as the
  requests of one browser (or of whoever holds its cookie) interleave.  A request works on its
  own handle and the session layer writes the whole record back at its end, so a request is one
  step.  Between requests the store hands back the record it was given or, once it has expired,
  an empty one, and the application writes its own keys only.
\<close>

section \<open>Reading a session after each handler\<close>

lemma login_read:
  assumes "session_laws api" "loaded api s"
  shows "ss_string api (snd (login_handler api challenge verifier csrf nonce oc s)) k
      = (if k = SESSION_NONCE then Inr (Some nonce)
         else if k = SESSION_CSRF_STATE then Inr (Some csrf)
         else if k = SESSION_PKCE_VERIFIER then Inr (Some verifier) else ss_string api s k)"
    and "ss_u64 api (snd (login_handler api challenge verifier csrf nonce oc s)) SESSION_TOKEN_EXPIRY
      = ss_u64 api s SESSION_TOKEN_EXPIRY"
    and "loaded api (snd (login_handler api challenge verifier csrf nonce oc s))"
  using assms by (simp_all add: login_handler_def session_simps)

lemma store_tokens_refresh:
  assumes "session_laws api" "loaded api s"
  shows "ss_string api (store_tokens api now tr jwt s) SESSION_REFRESH_TOKEN
    = (case tr_refresh_token tr of Some r \<Rightarrow> Inr (Some r)
       | None \<Rightarrow> ss_string api s SESSION_REFRESH_TOKEN)"
  using assms by (simp add: store_tokens_def Let_def session_simps split: option.split)

text \<open>The session after a successful callback.\<close>

definition after_callback :: "'s session_api \<Rightarrow> u64 \<Rightarrow> token_response \<Rightarrow> string \<Rightarrow> 's \<Rightarrow> 's" where
  "after_callback api now tr jwt s =
     ss_remove api SESSION_RETURN_URL (clear_flow_state api (store_tokens api now tr jwt s))"

lemma clear_flow_state_u64:
  "session_laws api \<Longrightarrow> loaded api s \<Longrightarrow>
   ss_u64 api (clear_flow_state api s) SESSION_TOKEN_EXPIRY = ss_u64 api s SESSION_TOKEN_EXPIRY"
  by (simp add: clear_flow_state_def session_simps)

lemma after_callback_read:
  assumes "session_laws api" "loaded api s"
  shows "k \<noteq> SESSION_TOKEN_EXPIRY \<Longrightarrow> ss_string api (after_callback api now tr jwt s) k
      = (if k \<in> {SESSION_RETURN_URL, SESSION_PKCE_VERIFIER, SESSION_CSRF_STATE, SESSION_NONCE}
           then Inr None
         else if k = SESSION_ACCESS_TOKEN then Inr (Some (tr_access_token tr))
         else if k = SESSION_ID_TOKEN then Inr (Some jwt)
         else if k = SESSION_REFRESH_TOKEN then
           (case tr_refresh_token tr of Some r \<Rightarrow> Inr (Some r)
            | None \<Rightarrow> ss_string api s SESSION_REFRESH_TOKEN)
         else ss_string api s k)"
    and "ss_u64 api (after_callback api now tr jwt s) SESSION_TOKEN_EXPIRY
      = Inr (Some (token_expiry now (tr_expires_in tr)))"
    and "loaded api (after_callback api now tr jwt s)"
  using assms
  by (simp_all add: after_callback_def session_simps store_tokens_refresh clear_flow_state_u64
      split: option.split)

lemma callback_success:
  assumes "callback_handler api now code state oc s = (Inr target, t)"
  obtains tr jwt where "callback_exchange api code state oc s = Inr (tr, jwt)"
    "t = after_callback api now tr jwt s"
proof (cases "callback_exchange api code state oc s")
  case (Inl e)
  then show ?thesis using assms by (simp add: callback_handler_def)
next
  case (Inr v)
  then show ?thesis using assms that
    by (cases v) (auto simp: callback_handler_def Let_def after_callback_def)
qed

lemma callback_failure:
  "callback_handler api now code state oc s = (Inl e, t) \<Longrightarrow> t = s"
  by (auto simp: callback_handler_def Let_def split: sum.splits prod.splits)

lemma store_refreshed_read:
  assumes "session_laws api" "loaded api s"
  shows "k \<noteq> SESSION_TOKEN_EXPIRY \<Longrightarrow> ss_string api (store_refreshed api r s) k
      = (if k = SESSION_ACCESS_TOKEN then Inr (Some (rt_access r))
         else if k = SESSION_ID_TOKEN \<and> rt_id_token r \<noteq> None then Inr (rt_id_token r)
         else if k = SESSION_REFRESH_TOKEN \<and> rt_refresh r \<noteq> None then Inr (rt_refresh r)
         else ss_string api s k)"
    and "ss_u64 api (store_refreshed api r s) SESSION_TOKEN_EXPIRY = Inr (Some (rt_expiry r))"
    and "loaded api (store_refreshed api r s)"
  using assms by (simp_all add: store_refreshed_def Let_def session_simps split: option.split)

lemma session_attach_session:
  "session_attach api verify parse rq client s = (rq', s', client') \<Longrightarrow> s' = s \<or> s' = ss_flush api s"
  by (auto simp: session_attach_def Let_def split: sum.splits option.splits prod.splits if_splits)

lemma session_to_identity_session:
  assumes "session_to_identity api verify parse now refresh_now rq client s = (d, t, client')"
  shows "t = s \<or> t = ss_flush api s \<or>
    (\<exists>oc token r. client = Some oc \<and> ss_string api s SESSION_REFRESH_TOKEN = Inr (Some token)
       \<and> refresh_tokens refresh_now oc token = Inr r
       \<and> (t = store_refreshed api r s \<or> t = ss_flush api (store_refreshed api r s)))"
proof -
  obtain ok u where u: "session_refresh api now refresh_now client s = (ok, u)" by fastforce
  have t: "t = s \<or> t = u \<or> t = ss_flush api u"
    using assms u
    by (auto simp: session_to_identity_def split: if_splits bool.splits prod.splits
        dest!: session_attach_session)
  from u show ?thesis
  proof (cases rule: session_refresh_cases)
    case failed
    have "t = s \<or> t = ss_flush api s"
      using assms u failed by (auto simp: session_to_identity_def split: if_splits)
    then show ?thesis by blast
  qed (use t in blast)+
qed

section \<open>The steps\<close>

text \<open>
  \<open>os_issued\<close> and \<open>os_redeemed\<close> record the state, verifier and nonce of the logins and of the
  successful callbacks; the code keeps neither.
\<close>

record 's oidc_session =
  os_session :: 's
  os_issued :: "(string \<times> string \<times> string) list"
  os_redeemed :: "(string \<times> string \<times> string) list"

definition oidc_keys :: "string set" where
  "oidc_keys = {SESSION_PKCE_VERIFIER, SESSION_CSRF_STATE, SESSION_NONCE, SESSION_ACCESS_TOKEN,
     SESSION_REFRESH_TOKEN, SESSION_ID_TOKEN, SESSION_RETURN_URL}"

definition store_return_url :: "'s session_api \<Rightarrow> (string \<times> string) list \<Rightarrow> 's \<Rightarrow> 's" where
  "store_return_url api kvs s = fold (\<lambda>(k, v). ss_put_string api k v) kvs s"

text \<open>
  \<open>ocs\<close> are the client with the answers its provider may give at one time or another.  \<open>callback\<close>
  takes any code and state, as a link that anyone made may carry them.
\<close>

inductive oidc_step ::
  "'s session_api \<Rightarrow> 'k oidc_client set \<Rightarrow> 's oidc_session \<Rightarrow> 's oidc_session \<Rightarrow> bool"
  for api :: "'s session_api" and ocs :: "'k oidc_client set" where
  login: "oc \<in> ocs \<Longrightarrow>
    oidc_step api ocs w
      (w\<lparr>os_session := snd (login_handler api challenge verifier csrf nonce oc (os_session w)),
         os_issued := (csrf, verifier, nonce) # os_issued w\<rparr>)"
| callback_ok: "oc \<in> ocs \<Longrightarrow> callback_handler api now code state oc (os_session w) = (Inr target, t) \<Longrightarrow>
    ss_string api (os_session w) SESSION_PKCE_VERIFIER = Inr (Some verifier) \<Longrightarrow>
    ss_string api (os_session w) SESSION_NONCE = Inr (Some nonce) \<Longrightarrow>
    oidc_step api ocs w
      (w\<lparr>os_session := t, os_redeemed := (state, verifier, nonce) # os_redeemed w\<rparr>)"
| callback_error: "oc \<in> ocs \<Longrightarrow> callback_handler api now code state oc (os_session w) = (Inl e, t) \<Longrightarrow>
    oidc_step api ocs w (w\<lparr>os_session := t\<rparr>)"
| logout: "oc \<in> ocs \<Longrightarrow>
    logout_handler api (parse_url :: string \<Rightarrow> string option) add_pair show fallback oc (os_session w) = (url, t) \<Longrightarrow>
    oidc_step api ocs w (w\<lparr>os_session := t\<rparr>)"
| request: "oc \<in> ocs \<Longrightarrow>
    session_to_identity api verify parse now refresh_now rq (Some oc) (os_session w) = (d, t, client') \<Longrightarrow>
    oidc_step api ocs w (w\<lparr>os_session := t\<rparr>)"
| redirected: "oidc_step api ocs w
    (w\<lparr>os_session := store_return_url api (snd (browser_redirect_middleware redirect c rq)) (os_session w)\<rparr>)"
| kept: "loaded api t \<Longrightarrow> \<forall>k \<in> oidc_keys. ss_string api t k = ss_string api (os_session w) k \<Longrightarrow>
    ss_u64 api t SESSION_TOKEN_EXPIRY = ss_u64 api (os_session w) SESSION_TOKEN_EXPIRY \<Longrightarrow>
    oidc_step api ocs w (w\<lparr>os_session := t\<rparr>)"
| lost: "\<forall>k \<in> oidc_keys. ss_string api t k = Inr None \<Longrightarrow>
    oidc_step api ocs w (w\<lparr>os_session := t\<rparr>)"

inductive_cases oidc_stepE: "oidc_step api ocs w w'"

inductive oidc_reachable ::
  "'s session_api \<Rightarrow> 'k oidc_client set \<Rightarrow> 's oidc_session \<Rightarrow> bool"
  for api :: "'s session_api" and ocs :: "'k oidc_client set" where
  fresh: "\<forall>k \<in> oidc_keys. ss_string api s k = Inr None \<Longrightarrow>
    oidc_reachable api ocs \<lparr>os_session = s, os_issued = [], os_redeemed = []\<rparr>"
| step: "oidc_reachable api ocs w \<Longrightarrow> oidc_step api ocs w w' \<Longrightarrow> oidc_reachable api ocs w'"

section \<open>Where the tokens of a session come from\<close>

text \<open>
  The answers of the provider that this browser's logins account for: an exchange with the
  verifier of a login whose ID token was verified against the nonce of that login, or a refresh
  with a refresh token of an earlier such answer.
\<close>

inductive granted ::
  "'k oidc_client set \<Rightarrow> (string \<times> string \<times> string) set \<Rightarrow> token_response \<Rightarrow> bool"
  for ocs :: "'k oidc_client set" and issued :: "(string \<times> string \<times> string) set" where
  exchanged: "oc \<in> ocs \<Longrightarrow> (csrf, verifier, nonce) \<in> issued \<Longrightarrow>
    cl_request_code (fl_client oc) code verifier = Inr tr \<Longrightarrow> tr_id_token tr = Some jwt \<Longrightarrow>
    cl_id_token_claims (fl_client oc) (\<lambda>aud. aud \<in> set (fl_audiences oc)) nonce jwt = Inr () \<Longrightarrow>
    granted ocs issued tr"
| refreshed: "granted ocs issued tr \<Longrightarrow> tr_refresh_token tr = Some token \<Longrightarrow> oc \<in> ocs \<Longrightarrow>
    cl_request_refresh (fl_client oc) token = Inr tr' \<Longrightarrow> granted ocs issued tr'"

lemma granted_mono: "granted ocs I tr \<Longrightarrow> I \<subseteq> J \<Longrightarrow> granted ocs J tr"
  by (induction rule: granted.induct) (blast intro: granted.intros)+

text \<open>The login that waits for its callback.\<close>

definition pending :: "'s session_api \<Rightarrow> 's \<Rightarrow> (string \<times> string \<times> string) multiset" where
  "pending api s =
     (case (ok_flatten (ss_string api s SESSION_CSRF_STATE),
            ok_flatten (ss_string api s SESSION_PKCE_VERIFIER),
            ok_flatten (ss_string api s SESSION_NONCE)) of
        (Some c, Some v, Some n) \<Rightarrow> {#(c, v, n)#}
      | _ \<Rightarrow> {#})"

lemma pending_cong:
  "(\<And>k. k \<in> {SESSION_CSRF_STATE, SESSION_PKCE_VERIFIER, SESSION_NONCE} \<Longrightarrow>
     ss_string api t k = ss_string api s k) \<Longrightarrow> pending api t = pending api s"
  by (simp add: pending_def)

lemma pending_none: "ss_string api s SESSION_CSRF_STATE = Inr None \<Longrightarrow> pending api s = {#}"
  by (simp add: pending_def)

definition from_grant ::
  "'s session_api \<Rightarrow> 's \<Rightarrow> string \<Rightarrow> (token_response \<Rightarrow> bool) \<Rightarrow> (token_response \<Rightarrow> string option) \<Rightarrow> bool" where
  "from_grant api s k G f \<longleftrightarrow> (\<forall>v. ss_string api s k = Inr (Some v) \<longrightarrow> (\<exists>tr. G tr \<and> f tr = Some v))"

lemma from_grant_mono: "from_grant api s k G f \<Longrightarrow> (\<And>tr. G tr \<Longrightarrow> H tr) \<Longrightarrow> from_grant api s k H f"
  by (auto simp: from_grant_def)

lemma from_grant_same:
  "from_grant api s k G f \<Longrightarrow> ss_string api t k = ss_string api s k \<Longrightarrow> from_grant api t k G f"
  by (simp add: from_grant_def)

lemma from_grant_none: "ss_string api s k = Inr None \<Longrightarrow> from_grant api s k G f"
  by (simp add: from_grant_def)

definition oidc_session_inv ::
  "'s session_api \<Rightarrow> 'k oidc_client set \<Rightarrow> 's oidc_session \<Rightarrow> bool" where
  "oidc_session_inv api ocs w \<longleftrightarrow>
     loaded api (os_session w)
   \<and> mset (os_redeemed w) + pending api (os_session w) \<subseteq># mset (os_issued w)
   \<and> from_grant api (os_session w) SESSION_ID_TOKEN (granted ocs (set (os_issued w))) tr_id_token
   \<and> from_grant api (os_session w) SESSION_REFRESH_TOKEN (granted ocs (set (os_issued w))) tr_refresh_token
   \<and> from_grant api (os_session w) SESSION_ACCESS_TOKEN (granted ocs (set (os_issued w)))
       (\<lambda>tr. Some (tr_access_token tr))
   \<and> (ss_string api (os_session w) SESSION_ACCESS_TOKEN \<noteq> Inr None
       \<longrightarrow> (\<exists>e. ss_u64 api (os_session w) SESSION_TOKEN_EXPIRY = Inr (Some e)))
   \<and> (\<forall>url. ss_string api (os_session w) SESSION_RETURN_URL = Inr (Some url) \<longrightarrow> is_safe_local_path url)"

lemma inv_session:
  assumes "oidc_session_inv api ocs w"
    and "loaded api t" "pending api t \<subseteq># pending api (os_session w)"
    and "\<And>k. k \<in> {SESSION_ID_TOKEN, SESSION_REFRESH_TOKEN, SESSION_ACCESS_TOKEN, SESSION_RETURN_URL} \<Longrightarrow>
      ss_string api t k = Inr None \<or> ss_string api t k = ss_string api (os_session w) k"
    and "ss_string api t SESSION_ACCESS_TOKEN = Inr None
      \<or> ss_u64 api t SESSION_TOKEN_EXPIRY = ss_u64 api (os_session w) SESSION_TOKEN_EXPIRY"
  shows "oidc_session_inv api ocs (w\<lparr>os_session := t\<rparr>)"
proof -
  have sub: "mset (os_redeemed w) + pending api t \<subseteq># mset (os_issued w)"
    using assms(1,3) subset_mset.order_trans [OF subset_mset.add_left_mono]
    unfolding oidc_session_inv_def by blast
  have key: "ss_string api t k = Inr None \<or> ss_string api t k = ss_string api (os_session w) k"
    if "k \<in> {SESSION_ID_TOKEN, SESSION_REFRESH_TOKEN, SESSION_ACCESS_TOKEN, SESSION_RETURN_URL}" for k
    using assms(4) that by blast
  have fg: "from_grant api t k G f"
    if "from_grant api (os_session w) k G f" "k \<in> {SESSION_ID_TOKEN, SESSION_REFRESH_TOKEN, SESSION_ACCESS_TOKEN}"
    for k G f
    using key [of k] that by (auto intro: from_grant_same from_grant_none)
  show ?thesis
    using assms(1,2,5) sub fg key [of SESSION_ACCESS_TOKEN] key [of SESSION_RETURN_URL]
    by (auto simp: oidc_session_inv_def)
qed

lemma inv_lost:
  assumes "oidc_session_inv api ocs w" "\<forall>k \<in> oidc_keys. ss_string api t k = Inr None"
  shows "oidc_session_inv api ocs (w\<lparr>os_session := t\<rparr>)"
  by (rule inv_session [OF assms(1)])
    (use assms(2) in \<open>auto simp: oidc_keys_def pending_none intro: loadedI\<close>)

lemma inv_flush:
  assumes "session_laws api" "oidc_session_inv api ocs w"
  shows "oidc_session_inv api ocs (w\<lparr>os_session := ss_flush api (os_session w)\<rparr>)"
  by (rule inv_lost [OF assms(2)])
    (use assms in \<open>simp add: string_after_flush oidc_session_inv_def\<close>)

lemma inv_login:
  assumes "session_laws api" "oidc_session_inv api ocs w"
  shows "oidc_session_inv api ocs
    (w\<lparr>os_session := snd (login_handler api challenge verifier csrf nonce oc (os_session w)),
       os_issued := (csrf, verifier, nonce) # os_issued w\<rparr>)"
proof -
  let ?t = "snd (login_handler api challenge verifier csrf nonce oc (os_session w))"
  have l: "loaded api (os_session w)" using assms(2) by (simp add: oidc_session_inv_def)
  note r = login_read [OF assms(1) l, of challenge verifier csrf nonce oc]
  have "pending api ?t = {#(csrf, verifier, nonce)#}" by (simp add: pending_def r)
  moreover have "mset (os_redeemed w) \<subseteq># mset (os_issued w)"
    using assms(2) by (auto simp: oidc_session_inv_def intro: subset_mset.order_trans [rotated])
  moreover have "from_grant api ?t k (granted ocs (insert (csrf, verifier, nonce) (set (os_issued w)))) f"
    if "from_grant api (os_session w) k (granted ocs (set (os_issued w))) f"
      "k \<notin> {SESSION_NONCE, SESSION_CSRF_STATE, SESSION_PKCE_VERIFIER}" for k f
    by (rule from_grant_same [OF from_grant_mono [OF that(1)]])
      (use that(2) in \<open>auto simp: r intro: granted_mono\<close>)
  ultimately show ?thesis using assms(2) r(3)
    by (simp add: oidc_session_inv_def r)
qed

lemma pending_read:
  "ss_string api s SESSION_CSRF_STATE = Inr (Some c) \<Longrightarrow>
   ss_string api s SESSION_PKCE_VERIFIER = Inr (Some v) \<Longrightarrow>
   ss_string api s SESSION_NONCE = Inr (Some n) \<Longrightarrow> pending api s = {#(c, v, n)#}"
  by (simp add: pending_def)

lemma inv_issued_pending:
  "oidc_session_inv api ocs w \<Longrightarrow> x \<in># pending api (os_session w) \<Longrightarrow> x \<in> set (os_issued w)"
  by (auto simp: oidc_session_inv_def dest!: mset_subset_eqD [of _ _ x])

lemma inv_callback:
  assumes laws: "session_laws api" and inv: "oidc_session_inv api ocs w" and oc: "oc \<in> ocs"
    and cb: "callback_handler api now code state oc (os_session w) = (Inr target, t)"
    and ver: "ss_string api (os_session w) SESSION_PKCE_VERIFIER = Inr (Some verifier)"
    and non: "ss_string api (os_session w) SESSION_NONCE = Inr (Some nonce)"
  shows "oidc_session_inv api ocs
    (w\<lparr>os_session := t, os_redeemed := (state, verifier, nonce) # os_redeemed w\<rparr>)"
proof -
  have l: "loaded api (os_session w)" using inv by (simp add: oidc_session_inv_def)
  obtain tr jwt where ex: "callback_exchange api code state oc (os_session w) = Inr (tr, jwt)"
    and t: "t = after_callback api now tr jwt (os_session w)"
    using cb by (rule callback_success)
  note e = callback_exchange_Inr [OF ex]
  note r = after_callback_read [OF laws l, where now = now and tr = tr and jwt = jwt]
  have p: "pending api (os_session w) = {#(state, verifier, nonce)#}"
    using e ver non by (intro pending_read) auto
  then have "(state, verifier, nonce) \<in> set (os_issued w)"
    using inv_issued_pending [OF inv] by simp
  then have g: "granted ocs (set (os_issued w)) tr" and jwt: "tr_id_token tr = Some jwt"
    using e ver non by (auto intro: granted.exchanged [OF oc])
  have "from_grant api t SESSION_REFRESH_TOKEN (granted ocs (set (os_issued w))) tr_refresh_token"
    using g inv by (auto simp: from_grant_def t r oidc_session_inv_def split: option.splits)
  moreover have "from_grant api t SESSION_ID_TOKEN (granted ocs (set (os_issued w))) tr_id_token"
    "from_grant api t SESSION_ACCESS_TOKEN (granted ocs (set (os_issued w))) (\<lambda>tr. Some (tr_access_token tr))"
    using g jwt by (auto simp: from_grant_def t r)
  moreover have "pending api t = {#}" by (rule pending_none) (simp add: t r)
  ultimately show ?thesis using inv p r(2,3)
    by (simp add: oidc_session_inv_def t after_callback_read(1) [OF laws l])
qed

lemma refresh_tokens_Inr:
  "refresh_tokens now oc token = Inr r \<Longrightarrow>
   \<exists>tr. cl_request_refresh (fl_client oc) token = Inr tr \<and> rt_access r = tr_access_token tr
     \<and> rt_refresh r = tr_refresh_token tr \<and> rt_id_token r = tr_id_token tr"
  by (auto simp: refresh_tokens_def result_simps)

lemma inv_refreshed:
  assumes laws: "session_laws api" and inv: "oidc_session_inv api ocs w" and oc: "oc \<in> ocs"
    and token: "ss_string api (os_session w) SESSION_REFRESH_TOKEN = Inr (Some token)"
    and ok: "refresh_tokens now oc token = Inr r"
  shows "oidc_session_inv api ocs (w\<lparr>os_session := store_refreshed api r (os_session w)\<rparr>)"
proof -
  let ?t = "store_refreshed api r (os_session w)"
  have l: "loaded api (os_session w)" using inv by (simp add: oidc_session_inv_def)
  note read = store_refreshed_read [OF laws l, where r = r]
  obtain tr' where tr': "cl_request_refresh (fl_client oc) token = Inr tr'"
    "rt_access r = tr_access_token tr'" "rt_refresh r = tr_refresh_token tr'"
    "rt_id_token r = tr_id_token tr'"
    using refresh_tokens_Inr [OF ok] by blast
  obtain tr where "granted ocs (set (os_issued w)) tr" "tr_refresh_token tr = Some token"
    using inv token by (auto simp: oidc_session_inv_def from_grant_def)
  then have g: "granted ocs (set (os_issued w)) tr'" by (rule granted.refreshed [OF _ _ oc tr'(1)])
  have "pending api ?t = pending api (os_session w)" by (rule pending_cong) (auto simp: read)
  moreover have "from_grant api ?t SESSION_ID_TOKEN (granted ocs (set (os_issued w))) tr_id_token"
    "from_grant api ?t SESSION_REFRESH_TOKEN (granted ocs (set (os_issued w))) tr_refresh_token"
    "from_grant api ?t SESSION_ACCESS_TOKEN (granted ocs (set (os_issued w))) (\<lambda>tr. Some (tr_access_token tr))"
    using g inv tr' by (auto simp: from_grant_def read oidc_session_inv_def)
  ultimately show ?thesis using inv read(2,3)
    by (simp add: oidc_session_inv_def store_refreshed_read(1) [OF laws l])
qed

lemma inv_request:
  assumes laws: "session_laws api" and inv: "oidc_session_inv api ocs w" and oc: "oc \<in> ocs"
    and run: "session_to_identity api verify parse now refresh_now rq (Some oc) (os_session w)
      = (d, t, client')"
  shows "oidc_session_inv api ocs (w\<lparr>os_session := t\<rparr>)"
proof -
  have refreshed: "oidc_session_inv api ocs (w\<lparr>os_session := t\<rparr>)"
    if "ss_string api (os_session w) SESSION_REFRESH_TOKEN = Inr (Some token)"
      "refresh_tokens refresh_now oc token = Inr r"
      "t = store_refreshed api r (os_session w) \<or> t = ss_flush api (store_refreshed api r (os_session w))"
    for token r
  proof -
    note i = inv_refreshed [OF laws inv oc that(1,2)]
    show ?thesis using that(3) i inv_flush [OF laws i] by (auto simp: oidc_session_inv_def)
  qed
  consider "t = os_session w" | "t = ss_flush api (os_session w)"
    | token r where "ss_string api (os_session w) SESSION_REFRESH_TOKEN = Inr (Some token)"
      "refresh_tokens refresh_now oc token = Inr r"
      "t = store_refreshed api r (os_session w) \<or> t = ss_flush api (store_refreshed api r (os_session w))"
    using session_to_identity_session [OF run] by blast
  then show ?thesis
  proof cases
    case 1
    then show ?thesis using inv by simp
  next
    case 2
    then show ?thesis using inv_flush [OF laws inv] by simp
  next
    case 3
    then show ?thesis by (rule refreshed)
  qed
qed

lemma inv_redirected:
  assumes laws: "session_laws api" and inv: "oidc_session_inv api ocs w"
  shows "oidc_session_inv api ocs
    (w\<lparr>os_session := store_return_url api (snd (browser_redirect_middleware redirect c rq)) (os_session w)\<rparr>)"
proof -
  have l: "loaded api (os_session w)" using inv by (simp add: oidc_session_inv_def)
  consider "snd (browser_redirect_middleware redirect c rq) = []"
    | "snd (browser_redirect_middleware redirect c rq) = [(SESSION_RETURN_URL, return_url rq)]"
    by (cases "snd (browser_redirect_middleware redirect c rq) = []")
      (simp_all add: browser_redirect_middleware_def split: if_split_asm)
  then show ?thesis
  proof cases
    case 1
    then show ?thesis using inv by (simp add: store_return_url_def)
  next
    case 2
    let ?t = "ss_put_string api SESSION_RETURN_URL (return_url rq) (os_session w)"
    have "pending api ?t = pending api (os_session w)"
      by (rule pending_cong) (auto simp: session_simps laws l)
    then show ?thesis using 2 inv
      by (simp add: store_return_url_def oidc_session_inv_def from_grant_def session_simps laws l
          return_url_safe)
  qed
qed

lemma inv_kept:
  assumes "oidc_session_inv api ocs w" "loaded api t"
    "\<forall>k \<in> oidc_keys. ss_string api t k = ss_string api (os_session w) k"
    "ss_u64 api t SESSION_TOKEN_EXPIRY = ss_u64 api (os_session w) SESSION_TOKEN_EXPIRY"
  shows "oidc_session_inv api ocs (w\<lparr>os_session := t\<rparr>)"
proof (rule inv_session [OF assms(1,2)])
  have "pending api t = pending api (os_session w)"
    by (rule pending_cong) (use assms(3) in \<open>auto simp: oidc_keys_def\<close>)
  then show "pending api t \<subseteq># pending api (os_session w)" by simp
qed (use assms(3,4) in \<open>auto simp: oidc_keys_def\<close>)

lemma logout_session: "snd (logout_handler api parse add_pair show fallback oc s) = ss_flush api s"
  by (simp add: logout_handler_def Let_def)

lemma oidc_step_inv:
  assumes laws: "session_laws api" and "oidc_step api ocs w w'" and inv: "oidc_session_inv api ocs w"
  shows "oidc_session_inv api ocs w'"
  using assms(2)
proof (cases rule: oidc_step.cases)
  case login
  then show ?thesis using inv_login [OF laws inv] by simp
next
  case callback_ok
  then show ?thesis using inv_callback [OF laws inv] by simp
next
  case callback_error
  then show ?thesis using inv callback_failure by fastforce
next
  case (logout oc f g h k url t)
  then have "t = ss_flush api (os_session w)"
    using logout_session [of api f g h k oc "os_session w"] by simp
  then show ?thesis using logout inv_flush [OF laws inv] by simp
next
  case request
  then show ?thesis using inv_request [OF laws inv] by simp
next
  case redirected
  then show ?thesis using inv_redirected [OF laws inv] by simp
next
  case kept
  then show ?thesis using inv_kept [OF inv] by simp
next
  case lost
  then show ?thesis using inv_lost [OF inv] by simp
qed

lemma oidc_reachable_inv:
  assumes "session_laws api" "oidc_reachable api ocs w"
  shows "oidc_session_inv api ocs w"
  using assms(2)
proof induction
  case (fresh s)
  then show ?case
    by (auto simp: oidc_session_inv_def oidc_keys_def from_grant_def pending_none intro: loadedI)
next
  case (step w w')
  then show ?case using oidc_step_inv [OF assms(1)] by blast
qed


section \<open>A login from beginning to end\<close>

text \<open>C10: (login round trip) A browser sent to the login page comes back to the page it asked for: the callback
with the state of its login, answered by a provider that accepts the code and the verifier
and issues a valid ID token, succeeds.  Until the token expires every request on the session
then has the identity of that token, and after a logout none has.\<close>
theorem login_roundtrip:
  assumes laws: "session_laws api" and load: "loaded api s"
    and sent: "fst (browser_redirect_middleware redirect c rq) \<noteq> Next rq" "rq_has_session rq"
    and stored: "s1 = store_return_url api (snd (browser_redirect_middleware redirect c rq)) s"
    and provider: "cl_token_endpoint (fl_client oc) = Inr ()"
      "cl_request_code (fl_client oc) code verifier = Inr tr" "tr_id_token tr = Some jwt"
      "cl_id_token_claims (fl_client oc) (\<lambda>aud. aud \<in> set (fl_audiences oc)) nonce jwt = Inr ()"
    and later: "\<not> is_expired now' (Some (token_expiry now (tr_expires_in tr)))"
      "fst (verify jwt oc) \<noteq> InvalidSignature" "\<not> present_in rq'" "rq_has_session rq'"
    and cb: "callback_handler api now code csrf oc
      (snd (login_handler api challenge verifier csrf nonce oc s1)) = (r, t)"
  shows "r = Inr (return_url rq)
    \<and> (case session_to_identity api verify parse now' refresh_now rq' (Some oc) t of (d, t', _) \<Rightarrow>
         d = Next (case parse jwt (Some (tr_access_token tr)) of
                     Some i \<Rightarrow> with_identity i rq' | None \<Rightarrow> rq') \<and> t' = t)
    \<and> fst (session_to_identity api verify parse now' refresh_now rq' (Some oc)
        (snd (logout_handler api parse_url add_pair show fallback oc t))) = Next rq'"
proof -
  have "snd (browser_redirect_middleware redirect c rq) = [(SESSION_RETURN_URL, return_url rq)]"
    using sent by (simp add: browser_redirect_middleware_def split: if_split_asm)
  then have s1: "s1 = ss_put_string api SESSION_RETURN_URL (return_url rq) s"
    using stored by (simp add: store_return_url_def)
  have l1: "loaded api s1" unfolding s1 using laws load by (rule loaded_after(1))
  let ?s = "snd (login_handler api challenge verifier csrf nonce oc s1)"
  note login = login_read [OF laws l1, of challenge verifier csrf nonce oc]
  have ret: "ss_string api ?s SESSION_RETURN_URL = Inr (Some (return_url rq))"
    by (simp add: login) (simp add: s1 session_simps laws load)
  have ex: "callback_exchange api code csrf oc ?s = Inr (tr, jwt)"
    by (simp add: callback_exchange_def session_get_def login provider ok_or_def)
  have "r = Inr (return_url rq)" and t: "t = after_callback api now tr jwt ?s"
    using cb ex return_url_safe [of rq]
    by (simp_all add: callback_handler_def Let_def after_callback_def session_simps laws login(3) ret
        redirect_target_def)
  note read = after_callback_read [OF laws login(3), where now = now and tr = tr and jwt = jwt]
  have "session_refresh api now' refresh_now (Some oc) t = (True, t)"
    using later(1) by (simp add: session_refresh_def t read)
  moreover have "session_attach api verify parse rq' (Some oc) t
      = (case parse jwt (Some (tr_access_token tr)) of Some i \<Rightarrow> with_identity i rq' | None \<Rightarrow> rq',
         t, Some (snd (verify jwt oc)))"
    using later(2) by (auto simp: session_attach_def t read split: prod.splits option.splits)
  ultimately have "session_to_identity api verify parse now' refresh_now rq' (Some oc) t
      = (Next (case parse jwt (Some (tr_access_token tr)) of Some i \<Rightarrow> with_identity i rq' | None \<Rightarrow> rq'),
         t, Some (snd (verify jwt oc)))"
    using later(3,4) by (simp add: session_to_identity_def t read)
  moreover have "loaded api t" by (simp add: t read)
  then have "fst (session_to_identity api verify parse now' refresh_now rq' (Some oc) (ss_flush api t))
      = Next rq'"
    by (simp add: session_to_identity_def session_simps laws)
  ultimately show ?thesis using \<open>r = _\<close> by (simp add: logout_session)
qed

section \<open>A refresh token that outlives its login\<close>

text \<open>C40: (stale refresh token) A callback whose answer has no refresh token keeps the one of an earlier login on
the session.  Once the new access token expires the middleware refreshes with the old one,
and the request gets the identity of whoever logged in before.\<close>
theorem earlier_refresh_token_survives:
  assumes laws: "session_laws api"
    and cb: "callback_handler api now code state oc s = (Inr target, t)"
    and answer: "callback_exchange api code state oc s = Inr (tr, jwt)" "tr_refresh_token tr = None"
    and old: "ss_string api s SESSION_REFRESH_TOKEN = Inr (Some token)"
    and later: "is_expired now' (Some (token_expiry now (tr_expires_in tr)))"
      "refresh_tokens refresh_now oc token = Inr r" "rt_id_token r = Some jwt'"
    and genuine: "fst (verify jwt' oc) \<noteq> InvalidSignature" "parse jwt' (Some (rt_access r)) = Some i"
    and rq: "\<not> present_in rq" "rq_has_session rq"
  shows "ss_string api t SESSION_ID_TOKEN = Inr (Some jwt)
    \<and> fst (session_to_identity api verify parse now' refresh_now rq (Some oc) t)
      = Next (with_identity i rq)"
proof -
  have load: "loaded api s" using old by (rule loadedI)
  have t: "t = after_callback api now tr jwt s"
    using cb answer(1) by (auto simp: callback_handler_def Let_def after_callback_def)
  note read = after_callback_read [OF laws load, where now = now and tr = tr and jwt = jwt]
  have "session_refresh api now' refresh_now (Some oc) t = (True, store_refreshed api r t)"
    using later(1,2) old answer(2) by (simp add: session_refresh_def t read)
  moreover have "fst (session_attach api verify parse rq (Some oc) (store_refreshed api r t))
      = with_identity i rq"
    using genuine later(3)
    by (auto simp: session_attach_def store_refreshed_read(1) [OF laws read(3)] t split: prod.splits)
  ultimately show ?thesis using rq
    by (auto simp: session_to_identity_def t read split: prod.split)
qed

section \<open>Example runs\<close>

definition no_session :: "(string \<rightharpoonup> string) \<times> (string \<rightharpoonup> u64)" where
  "no_session = (Map.empty, Map.empty)"

lemma no_session_read: "ss_string map_session no_session k = Inr None" "loaded map_session no_session"
  by (auto simp: no_session_def map_session_def loaded_def)

definition demo_logged_in :: "((string \<rightharpoonup> string) \<times> (string \<rightharpoonup> u64)) oidc_session" where
  "demo_logged_in =
     \<lparr>os_session = ([SESSION_ACCESS_TOKEN \<mapsto> ''at'', SESSION_ID_TOKEN \<mapsto> ''h.p.s''],
        [SESSION_TOKEN_EXPIRY \<mapsto> 305]),
      os_issued = [(''st'', ''v'', ''n'')], os_redeemed = [(''st'', ''v'', ''n'')]\<rparr>"

lemma demo_reachable: "oidc_reachable map_session {demo_client} demo_logged_in"
proof -
  let ?w = "\<lparr>os_session = no_session, os_issued = [], os_redeemed = []\<rparr>"
  let ?v = "?w\<lparr>os_session := snd (login_handler map_session ''ch'' ''v'' ''st'' ''n'' demo_client
      (os_session ?w)), os_issued := (''st'', ''v'', ''n'') # os_issued ?w\<rparr>"
  have "oidc_reachable map_session {demo_client} ?w" by (rule fresh) (simp add: no_session_read)
  then have v: "oidc_reachable map_session {demo_client} ?v" by (rule step) (rule login, simp)
  note r = login_read [OF map_session_laws no_session_read(2), of "''ch''" "''v''" "''st''" "''n''" demo_client]
  have "oidc_step map_session {demo_client} ?v
      (?v\<lparr>os_session := os_session demo_logged_in, os_redeemed := (''st'', ''v'', ''n'') # os_redeemed ?v\<rparr>)"
    by (rule callback_ok [where oc = demo_client and now = 5 and code = "''code''" and target = "''/''"])
      (simp_all add: r demo_logged_in_def demo_login_callback [folded no_session_def])
  from step [OF v this] show ?thesis by (simp add: demo_logged_in_def)
qed


definition browser_request :: request where
  "browser_request = session_request\<lparr>rq_path := ''/reports'', rq_path_and_query := Some ''/reports'',
     rq_header := (\<lambda>n. if n = ''accept'' then HeaderText ''text/html'' else Absent)\<rparr>"

lemma browser_request_redirected:
  "fst (browser_redirect_middleware (\<lambda>l. status_response 307) login_redirect browser_request)
     \<noteq> Next browser_request"
  "rq_has_session browser_request" "return_url browser_request = ''/reports''"
  by (simp_all add: browser_redirect_middleware_def login_redirect_def browser_request_def
      session_request_def sample_request_def present_in_def accepts_html_def starts_with_def
      return_url_def is_safe_local_path_def)

definition demo_return :: "(string \<rightharpoonup> string) \<times> (string \<rightharpoonup> u64)" where
  "demo_return = store_return_url map_session
     (snd (browser_redirect_middleware (\<lambda>l. status_response 307) login_redirect browser_request)) no_session"

lemma demo_client_answers:
  "cl_token_endpoint (fl_client demo_client) = Inr ()"
  "cl_request_code (fl_client demo_client) ''code'' ''v'' = Inr
     \<lparr>tr_access_token = ''at'', tr_refresh_token = None, tr_id_token = Some ''h.p.s'', tr_expires_in = None\<rparr>"
  "cl_id_token_claims (fl_client demo_client) (\<lambda>aud. aud \<in> set (fl_audiences demo_client)) ''n'' ''h.p.s'' = Inr ()"
  by (simp_all add: demo_client_def)

theorem login_roundtrip_witness:
  "fst (callback_handler map_session 5 ''code'' ''st'' demo_client
      (snd (login_handler map_session ''ch'' ''v'' ''st'' ''n'' demo_client demo_return)))
   = Inr ''/reports''"
proof -
  obtain r t where cb: "callback_handler map_session 5 ''code'' ''st'' demo_client
      (snd (login_handler map_session ''ch'' ''v'' ''st'' ''n'' demo_client demo_return)) = (r, t)"
    by (meson surj_pair)
  have fresh: "\<not> is_expired 5 (Some (token_expiry 5 (tr_expires_in
      \<lparr>tr_access_token = ''at'', tr_refresh_token = None, tr_id_token = Some ''h.p.s'', tr_expires_in = None\<rparr>)))"
    by (simp add: token_expiry_def is_expired_def)
  show ?thesis
    using login_roundtrip [OF map_session_laws no_session_read(2) browser_request_redirected(1,2)
        demo_return_def demo_client_answers(1,2) _ demo_client_answers(3) fresh _ session_request_anonymous cb,
        of "\<lambda>jwt oc. (Valid, oc)", THEN conjunct1]
    by (simp add: cb browser_request_redirected(3))
qed

definition forgetful_client :: "unit oidc_client" where
  "forgetful_client = demo_client\<lparr>fl_client := (fl_client demo_client)
     \<lparr>cl_request_refresh := (\<lambda>t. if t = ''ann'' then Inr \<lparr>tr_access_token = ''at2'', tr_refresh_token = None,
        tr_id_token = Some ''a.n.n'', tr_expires_in = None\<rparr> else Inl ''refused'')\<rparr>\<rparr>"

definition second_login :: "(string \<rightharpoonup> string) \<times> (string \<rightharpoonup> u64)" where
  "second_login = ([SESSION_PKCE_VERIFIER \<mapsto> ''v'', SESSION_CSRF_STATE \<mapsto> ''st'', SESSION_NONCE \<mapsto> ''n'',
     SESSION_REFRESH_TOKEN \<mapsto> ''ann''], Map.empty)"

theorem earlier_refresh_token_survives_witness:
  "\<exists>t. callback_handler map_session 5 ''code'' ''st'' forgetful_client second_login = (Inr ''/'', t)
    \<and> ss_string map_session t SESSION_ID_TOKEN = Inr (Some ''h.p.s'')
    \<and> fst (session_to_identity map_session (\<lambda>jwt oc. (Valid, oc))
        (\<lambda>jwt t. if jwt = ''a.n.n'' then Some sample_identity else None) 300 300 session_request
        (Some forgetful_client) t) = Next (with_identity sample_identity session_request)"
proof -
  let ?tr = "\<lparr>tr_access_token = ''at'', tr_refresh_token = None, tr_id_token = Some ''h.p.s'',
    tr_expires_in = None\<rparr>"
  let ?r = "\<lparr>rt_access = ''at2'', rt_refresh = None, rt_id_token = Some ''a.n.n'', rt_expiry = 600\<rparr>"
  have ex: "callback_exchange map_session ''code'' ''st'' forgetful_client second_login = Inr (?tr, ''h.p.s'')"
    by (simp add: callback_exchange_def session_get_def map_session_def second_login_def ok_or_def
        forgetful_client_def demo_client_def)
  obtain t where cb: "callback_handler map_session 5 ''code'' ''st'' forgetful_client second_login = (Inr ''/'', t)"
    by (simp add: callback_handler_def ex Let_def)
      (simp add: map_session_def clear_flow_state_def store_tokens_def second_login_def redirect_target_def
        forgetful_client_def demo_client_def)
  have r: "refresh_tokens 300 forgetful_client ''ann'' = Inr ?r"
    by (simp add: refresh_tokens_def forgetful_client_def demo_client_def token_expiry_def)
  have old: "ss_string map_session second_login SESSION_REFRESH_TOKEN = Inr (Some ''ann'')"
    by (simp add: map_session_def second_login_def)
  have late: "is_expired 300 (Some (token_expiry 5 (tr_expires_in ?tr)))"
    by (simp add: token_expiry_def is_expired_def)
  have none: "tr_refresh_token ?tr = None" by simp
  have "fst (session_to_identity map_session (\<lambda>jwt oc. (Valid, oc))
        (\<lambda>jwt t. if jwt = ''a.n.n'' then Some sample_identity else None) 300 300 session_request
        (Some forgetful_client) t) = Next (with_identity sample_identity session_request)
    \<and> ss_string map_session t SESSION_ID_TOKEN = Inr (Some ''h.p.s'')"
    using earlier_refresh_token_survives [OF map_session_laws cb ex none old late r _ _ _ session_request_anonymous,
        of "''a.n.n''" "\<lambda>jwt oc. (Valid, oc)"
          "\<lambda>jwt t. if jwt = ''a.n.n'' then Some sample_identity else None" sample_identity]
    by simp
  with cb show ?thesis by blast
qed

section \<open>Two requests that refresh at once\<close>

text \<open>
  A provider that rotates refresh tokens: a token can be used once.  \<open>first\<close> and \<open>second\<close> are the
  client as it answers before and after that.
\<close>

definition rotates ::
  "u64 \<Rightarrow> string \<Rightarrow> refreshed_tokens \<Rightarrow> 'k oidc_client \<Rightarrow> 'k oidc_client \<Rightarrow> bool" where
  "rotates now token r first second \<longleftrightarrow>
     refresh_tokens now first token = Inr r \<and> (\<exists>e. refresh_tokens now second token = Inl e)"

lemma session_kept:
  assumes "ss_string api s SESSION_ACCESS_TOKEN = Inr (Some access)"
    and "\<not> is_expired now (ok_flatten (ss_u64 api s SESSION_TOKEN_EXPIRY))"
    and "ss_string api s SESSION_ID_TOKEN = Inr (Some jwt)"
    and "fst (verify jwt oc) \<noteq> InvalidSignature" "parse jwt (Some access) = Some i"
    and "\<not> present_in rq" "rq_has_session rq"
  shows "session_to_identity api verify parse now refresh_now rq (Some oc) s
    = (Next (with_identity i rq), s, Some (snd (verify jwt oc)))"
  using assms
  by (auto simp: session_to_identity_def session_refresh_def session_attach_def split: prod.splits)


definition rotating_session :: "(string \<rightharpoonup> string) \<times> (string \<rightharpoonup> u64)" where
  "rotating_session = ([SESSION_ACCESS_TOKEN \<mapsto> ''at'', SESSION_ID_TOKEN \<mapsto> ''h.p.s'',
     SESSION_REFRESH_TOKEN \<mapsto> ''ann''], [SESSION_TOKEN_EXPIRY \<mapsto> 305])"

definition rotating_client :: "unit oidc_client" where
  "rotating_client = demo_client\<lparr>fl_client := (fl_client demo_client)
     \<lparr>cl_request_refresh := (\<lambda>t. Inr \<lparr>tr_access_token = ''at2'', tr_refresh_token = Some ''ben'',
        tr_id_token = None, tr_expires_in = None\<rparr>)\<rparr>\<rparr>"


end
