(* ===== verification/Jwks_Cache.thy ===== *)
theory Jwks_Cache
  imports Oidc_Bearer
begin

text \<open>
  The cache of signing keys over a whole run of the service: bearer tokens are validated
  (\<open>validate_token\<close>), stored ID tokens checked (\<open>verify_signature\<close>), and a background task refreshes
  the keys every minute, in any order, each with what a fetch of the key set would return at that
  moment.  At the end, refreshes that overlap.
\<close>

section \<open>Uses of the cache\<close>

text \<open>One tick of the background task: a refresh, whose failure is only logged.\<close>

definition background_refresh ::
  "('m jwk \<Rightarrow> 'k option) \<Rightarrow> error + 'm jwk list \<Rightarrow> 'k jwks_provider \<Rightarrow> 'k jwks_provider" where
  "background_refresh from_jwk fetched p = snd (refresh from_jwk fetched p)"

datatype key_use = ValidateToken string | VerifySignature string | BackgroundRefresh

fun use_keys ::
  "(string \<Rightarrow> string option option) \<Rightarrow> ('m jwk \<Rightarrow> 'k option) \<Rightarrow> 'k decoder
    \<Rightarrow> key_use \<times> (error + 'm jwk list) \<Rightarrow> 'k jwks_provider \<Rightarrow> 'k jwks_provider" where
  "use_keys decode_header from_jwk decode (ValidateToken t, fetched) p =
     snd (validate_token decode_header from_jwk decode fetched t p)"
| "use_keys decode_header from_jwk decode (VerifySignature t, fetched) p =
     snd (verify_signature decode_header from_jwk decode fetched t p)"
| "use_keys decode_header from_jwk decode (BackgroundRefresh, fetched) p =
     background_refresh from_jwk fetched p"

text \<open>Whether the key set is fetched: by the background task, or for a key that is not in the cache.\<close>

definition names_unknown ::
  "(string \<Rightarrow> string option option) \<Rightarrow> string \<Rightarrow> 'k jwks_provider \<Rightarrow> bool" where
  "names_unknown decode_header t p =
     (case decode_header t of Some (Some kid) \<Rightarrow> jp_keys p kid = None | _ \<Rightarrow> False)"

fun fetches :: "(string \<Rightarrow> string option option) \<Rightarrow> key_use \<Rightarrow> 'k jwks_provider \<Rightarrow> bool" where
  "fetches decode_header (ValidateToken t) p = names_unknown decode_header t p"
| "fetches decode_header (VerifySignature t) p = names_unknown decode_header t p"
| "fetches decode_header BackgroundRefresh p = True"

definition cache_of ::
  "('m jwk \<Rightarrow> 'k option) \<Rightarrow> 'm jwk list \<Rightarrow> 'k jwks_provider \<Rightarrow> 'k jwks_provider" where
  "cache_of from_jwk jwks p =
     p\<lparr>jp_keys := build_keys from_jwk jwks (jp_issuer p) (jp_audiences p) (jp_is_production p)\<rparr>"

lemma refresh_cache:
  "refresh from_jwk (Inr jwks) p = (Inr (), cache_of from_jwk jwks p)"
  "refresh from_jwk (Inl e) p = (Inl e, p)"
  by (simp_all add: refresh_def cache_of_def)

lemma use_keys_step:
  "use_keys decode_header from_jwk decode (u, fetched) p =
     (if fetches decode_header u p
      then case fetched of Inr jwks \<Rightarrow> cache_of from_jwk jwks p | Inl e \<Rightarrow> p else p)"
  by (cases u; cases fetched)
    (auto simp: validate_token_def verify_signature_def background_refresh_def try_decode_def refresh_cache
      names_unknown_def ok_or_def Let_def split: option.split token_error.split)

lemma cache_of_twice [simp]: "cache_of from_jwk j (cache_of from_jwk i p) = cache_of from_jwk j p"
  by (simp add: cache_of_def)

lemma cache_of_use [simp]:
  "cache_of from_jwk jwks (use_keys decode_header from_jwk decode u p) = cache_of from_jwk jwks p"
  by (cases u) (simp add: use_keys_step split: sum.split)

text \<open>A run, with the number of fetches in it, and the key set that the last successful one returned.\<close>

fun key_run ::
  "(string \<Rightarrow> string option option) \<Rightarrow> ('m jwk \<Rightarrow> 'k option) \<Rightarrow> 'k decoder
    \<Rightarrow> (key_use \<times> (error + 'm jwk list)) list \<Rightarrow> 'k jwks_provider \<Rightarrow> 'k jwks_provider \<times> nat" where
  "key_run decode_header from_jwk decode [] p = (p, 0)"
| "key_run decode_header from_jwk decode (u # us) p =
     (case key_run decode_header from_jwk decode us (use_keys decode_header from_jwk decode u p) of
        (p', n) \<Rightarrow> (p', (if fetches decode_header (fst u) p then Suc n else n)))"

fun last_fetched ::
  "(string \<Rightarrow> string option option) \<Rightarrow> ('m jwk \<Rightarrow> 'k option) \<Rightarrow> 'k decoder
    \<Rightarrow> (key_use \<times> (error + 'm jwk list)) list \<Rightarrow> 'k jwks_provider \<Rightarrow> 'm jwk list option" where
  "last_fetched decode_header from_jwk decode [] p = None"
| "last_fetched decode_header from_jwk decode (u # us) p =
     (case last_fetched decode_header from_jwk decode us (use_keys decode_header from_jwk decode u p) of
        Some jwks \<Rightarrow> Some jwks
      | None \<Rightarrow> if fetches decode_header (fst u) p
                then (case snd u of Inr jwks \<Rightarrow> Some jwks | Inl e \<Rightarrow> None) else None)"

section \<open>What the cache follows\<close>

lemma key_run_cache:
  "fst (key_run decode_header from_jwk decode us p) =
     (case last_fetched decode_header from_jwk decode us p of
        Some jwks \<Rightarrow> cache_of from_jwk jwks p | None \<Rightarrow> p)"
proof (induction us arbitrary: p)
  case (Cons u us)
  show ?case
    using Cons.IH [of "use_keys decode_header from_jwk decode u p"]
    by (cases u) (simp add: case_prod_unfold use_keys_step split: option.split sum.split)
qed simp

text \<open>No fetch of the run returns the key.\<close>

definition never_served ::
  "('m jwk \<Rightarrow> 'k option) \<Rightarrow> 'k jwks_provider \<Rightarrow> string \<Rightarrow> (key_use \<times> (error + 'm jwk list)) list \<Rightarrow> bool" where
  "never_served from_jwk p kid us \<longleftrightarrow>
     (\<forall>(u, fetched) \<in> set us. \<forall>jwks. fetched = Inr jwks \<longrightarrow> jp_keys (cache_of from_jwk jwks p) kid = None)"

lemma never_served_use:
  "never_served from_jwk p kid (u # us) \<Longrightarrow> jp_keys p kid = None \<Longrightarrow>
   jp_keys (use_keys decode_header from_jwk decode u p) kid = None
   \<and> never_served from_jwk (use_keys decode_header from_jwk decode u p) kid us"
  by (cases u) (auto simp: never_served_def use_keys_step split: sum.split)

lemma withdrawn_key_run:
  "never_served from_jwk p kid us \<Longrightarrow> jp_keys p kid = None \<Longrightarrow>
   jp_keys (fst (key_run decode_header from_jwk decode us p)) kid = None"
proof (induction us arbitrary: p)
  case (Cons u us)
  then show ?case
    using Cons.IH [of "use_keys decode_header from_jwk decode u p"] never_served_use
    by (fastforce simp: case_prod_unfold)
qed simp

lemma validate_unknown:
  assumes "decode_header token = Some (Some kid)" "jp_keys p kid = None"
    "\<And>jwks. fetched = Inr jwks \<Longrightarrow> jp_keys (cache_of from_jwk jwks p) kid = None"
  shows "\<exists>e. fst (validate_token decode_header from_jwk decode fetched token p) = Inl e"
  using assms by (cases fetched) (auto simp: validate_token_def try_decode_def refresh_cache ok_or_def)

lemma unknown_key_run:
  assumes "\<forall>(u, fetched) \<in> set us. \<exists>t. u \<in> {ValidateToken t, VerifySignature t} \<and> decode_header t = Some (Some kid)"
    and "never_served from_jwk p kid us" "jp_keys p kid = None"
  shows "snd (key_run decode_header from_jwk decode us p) = length us"
  using assms
proof (induction us arbitrary: p)
  case (Cons u us)
  have "fetches decode_header (fst u) p"
    using Cons.prems(1,3) by (cases u) (auto simp: names_unknown_def)
  then show ?case
    using Cons.IH [of "use_keys decode_header from_jwk decode u p"] Cons.prems never_served_use [OF Cons.prems(2,3)]
    by (simp add: case_prod_unfold)
qed simp


section \<open>Refreshes that overlap\<close>

text \<open>
  A refresh first fetches and then takes the lock to write, so that other tasks may refresh in
  between: \<open>Fetched\<close> and \<open>Written\<close> are the two halves, named by their task.
\<close>

datatype 'm refresh_half = Fetched nat "'m jwk list" | Written nat

fun refresh_halves ::
  "('m jwk \<Rightarrow> 'k option) \<Rightarrow> 'm refresh_half list \<Rightarrow> (nat \<rightharpoonup> 'm jwk list) \<Rightarrow> 'k jwks_provider \<Rightarrow> 'k jwks_provider" where
  "refresh_halves from_jwk [] held p = p"
| "refresh_halves from_jwk (Fetched i jwks # hs) held p = refresh_halves from_jwk hs (held(i \<mapsto> jwks)) p"
| "refresh_halves from_jwk (Written i # hs) held p =
     refresh_halves from_jwk hs (held(i := None))
       (case held i of Some jwks \<Rightarrow> cache_of from_jwk jwks p | None \<Rightarrow> p)"

lemma refresh_halves_alone:
  "refresh_halves from_jwk [Fetched i jwks, Written i] held p = snd (refresh from_jwk (Inr jwks) p)"
  by (simp add: refresh_cache)

lemma overtaken_refresh:
  assumes "i \<noteq> j"
  shows "refresh_halves from_jwk [Fetched i old, Fetched j new, Written j, Written i] held p = cache_of from_jwk old p"
  using assms by simp

section \<open>An example run\<close>

lemma demo_cache: "jp_keys demo_provider ''k1'' \<noteq> None"
  by (simp add: demo_provider_def build_keys_def demo_jwk_def)


end
