(* ===== verification/Stored_Sessions.thy ===== *)
theory Stored_Sessions
  imports Oidc_Session Session_Store
begin

text \<open>
  Many sessions in one store, and requests in flight at the same time: the handlers of
  \<open>oidc_flow.rs\<close> on the back ends of \<open>session_store.rs\<close>.  The session layer of \<open>tower_sessions\<close> between
  them is what its documentation says: it loads the record that the cookie names, or starts an
  empty one, and at the end of the request saves the record, deletes it, or leaves the store as
  it is.  Nothing keeps two requests of a session apart: what is saved last stays.
\<close>

section \<open>A service\<close>

text \<open>
  \<open>sw_flight\<close> are the handles of the requests that are running, \<open>sw_issued\<close> the logins recorded for
  each session.
\<close>

record ('d, 't) service =
  sw_store :: 't
  sw_flight :: "(string \<times> 'd) list"
  sw_issued :: "string \<Rightarrow> (string \<times> string \<times> string) list"

inductive service_step ::
  "(string option \<Rightarrow> 'd session_record \<Rightarrow> 't \<Rightarrow> (store_error + unit) \<times> 't)
    \<Rightarrow> (int \<Rightarrow> string \<Rightarrow> 't \<Rightarrow> store_error + 'd session_record option)
    \<Rightarrow> (string option \<Rightarrow> string \<Rightarrow> 't \<Rightarrow> (store_error + unit) \<times> 't) \<Rightarrow> ('t \<Rightarrow> 't \<Rightarrow> bool)
    \<Rightarrow> 'd session_api \<Rightarrow> 'k oidc_client set \<Rightarrow> ('d, 't) service \<Rightarrow> ('d, 't) service \<Rightarrow> bool"
  for save :: "string option \<Rightarrow> 'd session_record \<Rightarrow> 't \<Rightarrow> (store_error + unit) \<times> 't"
    and load :: "int \<Rightarrow> string \<Rightarrow> 't \<Rightarrow> store_error + 'd session_record option"
    and delete :: "string option \<Rightarrow> string \<Rightarrow> 't \<Rightarrow> (store_error + unit) \<times> 't"
    and expire :: "'t \<Rightarrow> 't \<Rightarrow> bool"
    and api :: "'d session_api" and ocs :: "'k oidc_client set" where
  begins: "load now i (sw_store w) = Inr (Some r) \<Longrightarrow>
    service_step save load delete expire api ocs w (w\<lparr>sw_flight := (sr_id r, sr_data r) # sw_flight w\<rparr>)"
| creates: "\<forall>k \<in> oidc_keys. ss_string api d k = Inr None \<Longrightarrow>
    service_step save load delete expire api ocs w (w\<lparr>sw_flight := (i, d) # sw_flight w\<rparr>)"
| works: "sw_flight w = as @ (i, d) # bs \<Longrightarrow>
    oidc_step api ocs \<lparr>os_session = d, os_issued = sw_issued w i, os_redeemed = []\<rparr> x \<Longrightarrow>
    service_step save load delete expire api ocs w
      (w\<lparr>sw_flight := as @ (i, os_session x) # bs, sw_issued := (sw_issued w)(i := os_issued x)\<rparr>)"
| saves: "sw_flight w = as @ (i, d) # bs \<Longrightarrow>
    save down \<lparr>sr_id = i, sr_data = d, sr_expiry = e\<rparr> (sw_store w) = (res, t) \<Longrightarrow>
    service_step save load delete expire api ocs w (w\<lparr>sw_store := t, sw_flight := as @ bs\<rparr>)"
| deletes: "sw_flight w = as @ (i, d) # bs \<Longrightarrow> delete down i (sw_store w) = (res, t) \<Longrightarrow>
    service_step save load delete expire api ocs w (w\<lparr>sw_store := t, sw_flight := as @ bs\<rparr>)"
| leaves: "sw_flight w = as @ (i, d) # bs \<Longrightarrow>
    service_step save load delete expire api ocs w (w\<lparr>sw_flight := as @ bs\<rparr>)"
| sweeps: "expire (sw_store w) t \<Longrightarrow>
    service_step save load delete expire api ocs w (w\<lparr>sw_store := t\<rparr>)"

inductive service_reachable ::
  "(string option \<Rightarrow> 'd session_record \<Rightarrow> 't \<Rightarrow> (store_error + unit) \<times> 't)
    \<Rightarrow> (int \<Rightarrow> string \<Rightarrow> 't \<Rightarrow> store_error + 'd session_record option)
    \<Rightarrow> (string option \<Rightarrow> string \<Rightarrow> 't \<Rightarrow> (store_error + unit) \<times> 't) \<Rightarrow> ('t \<Rightarrow> 't \<Rightarrow> bool)
    \<Rightarrow> 'd session_api \<Rightarrow> 'k oidc_client set \<Rightarrow> 't \<Rightarrow> ('d, 't) service \<Rightarrow> bool"
  for save :: "string option \<Rightarrow> 'd session_record \<Rightarrow> 't \<Rightarrow> (store_error + unit) \<times> 't"
    and load :: "int \<Rightarrow> string \<Rightarrow> 't \<Rightarrow> store_error + 'd session_record option"
    and delete :: "string option \<Rightarrow> string \<Rightarrow> 't \<Rightarrow> (store_error + unit) \<times> 't"
    and expire :: "'t \<Rightarrow> 't \<Rightarrow> bool"
    and api :: "'d session_api" and ocs :: "'k oidc_client set" and t0 :: 't where
  start: "service_reachable save load delete expire api ocs t0
    \<lparr>sw_store = t0, sw_flight = [], sw_issued = (\<lambda>i. [])\<rparr>"
| next_step: "service_reachable save load delete expire api ocs t0 w \<Longrightarrow>
    service_step save load delete expire api ocs w w' \<Longrightarrow>
    service_reachable save load delete expire api ocs t0 w'"

section \<open>Every session on its own\<close>

definition session_ok ::
  "'d session_api \<Rightarrow> 'k oidc_client set \<Rightarrow> (string \<times> string \<times> string) list \<Rightarrow> 'd \<Rightarrow> bool" where
  "session_ok api ocs issued d \<longleftrightarrow>
     oidc_session_inv api ocs \<lparr>os_session = d, os_issued = issued, os_redeemed = []\<rparr>"

lemma session_ok_weaken:
  assumes "oidc_session_inv api ocs x" "mset (os_issued x) \<subseteq># mset J"
  shows "session_ok api ocs J (os_session x)"
proof -
  have "pending api (os_session x) \<subseteq># mset (os_redeemed x) + pending api (os_session x)" by simp
  also have "\<dots> \<subseteq># mset (os_issued x)" using assms(1) by (simp add: oidc_session_inv_def)
  finally have p: "pending api (os_session x) \<subseteq># mset J" using assms(2) by simp
  have "set (os_issued x) \<subseteq> set J" using set_mset_mono [OF assms(2)] by simp
  then have g: "granted ocs (set (os_issued x)) tr \<Longrightarrow> granted ocs (set J) tr" for tr
    by (rule granted_mono [rotated])
  show ?thesis
    using assms(1) p
    by (auto simp: session_ok_def oidc_session_inv_def intro: from_grant_mono g)
qed

lemma oidc_step_issued: "oidc_step api ocs x y \<Longrightarrow> mset (os_issued x) \<subseteq># mset (os_issued y)"
  by (cases rule: oidc_step.cases) auto

lemma session_ok_empty:
  "\<forall>k \<in> oidc_keys. ss_string api d k = Inr None \<Longrightarrow> session_ok api ocs I d"
  unfolding session_ok_def oidc_session_inv_def
  by (auto simp: oidc_keys_def from_grant_def pending_none intro: loadedI)

definition service_inv ::
  "(int \<Rightarrow> string \<Rightarrow> 't \<Rightarrow> store_error + 'd session_record option)
    \<Rightarrow> 'd session_api \<Rightarrow> 'k oidc_client set \<Rightarrow> ('d, 't) service \<Rightarrow> bool" where
  "service_inv load api ocs w \<longleftrightarrow>
     (\<forall>now i r. load now i (sw_store w) = Inr (Some r)
        \<longrightarrow> sr_id r = i \<and> session_ok api ocs (sw_issued w i) (sr_data r))
   \<and> (\<forall>(i, d) \<in> set (sw_flight w). session_ok api ocs (sw_issued w i) d)"

text \<open>A session store whose records only disappear when they are swept or their deletion succeeds.\<close>

locale swept_store = session_store lawful save load delete valid
  for lawful :: bool
    and save :: "string option \<Rightarrow> 'd session_record \<Rightarrow> 't \<Rightarrow> (store_error + unit) \<times> 't"
    and load :: "int \<Rightarrow> string \<Rightarrow> 't \<Rightarrow> store_error + 'd session_record option"
    and delete :: "string option \<Rightarrow> string \<Rightarrow> 't \<Rightarrow> (store_error + unit) \<times> 't"
    and valid :: "int \<Rightarrow> int \<Rightarrow> bool" +
  fixes expire :: "'t \<Rightarrow> 't \<Rightarrow> bool"
  assumes delete_failed: "delete down i t = (Inl e, t') \<Longrightarrow> t' = t"
    and load_swept: "expire t t' \<Longrightarrow> load now i t' = load now i t \<or> load now i t' = Inr None"
begin

lemma deleted_subset:
  assumes "delete down j t = (res, t')"
  shows "load now i t' = load now i t \<or> load now i t' = Inr None"
proof (cases res)
  case (Inl e)
  then show ?thesis using delete_failed [of down j t e t'] assms by simp
next
  case (Inr u)
  then show ?thesis using assms load_deleted [of down j t t'] load_other_deleted [OF assms]
    by (cases "i = j") auto
qed

lemma saved_cases:
  assumes "lawful" "save down r t = (res, t')" "load now i t' = Inr (Some q)"
  shows "load now i t = Inr (Some q) \<or> i = sr_id r \<and> q = r"
proof (cases res)
  case (Inl e)
  then have "t' = t" using save_failed [of down r t e t'] assms(2) by simp
  then show ?thesis using assms(3) by simp
next
  case (Inr u)
  then show ?thesis
    using assms load_saved [OF assms(1), of down r t t'] load_other_saved [OF assms(2)]
    by (cases "i = sr_id r") (auto split: if_splits)
qed

lemma service_inv_shrinks:
  assumes "service_inv load api ocs w" "set fl \<subseteq> set (sw_flight w)"
    "\<And>now i. load now i t = load now i (sw_store w) \<or> load now i t = Inr None"
  shows "service_inv load api ocs (w\<lparr>sw_store := t, sw_flight := fl\<rparr>)"
proof -
  have "sr_id r = i \<and> session_ok api ocs (sw_issued w i) (sr_data r)"
    if "load now i t = Inr (Some r)" for now i r
    using assms(1) assms(3) [of now i] that by (auto simp: service_inv_def)
  then show ?thesis using assms(1,2) by (auto simp: service_inv_def)
qed

lemma service_inv_works:
  assumes laws: "session_laws api" and inv: "service_inv load api ocs w"
    and fl: "sw_flight w = as @ (i, d) # bs"
    and step: "oidc_step api ocs \<lparr>os_session = d, os_issued = sw_issued w i, os_redeemed = []\<rparr> x"
  shows "service_inv load api ocs
    (w\<lparr>sw_flight := as @ (i, os_session x) # bs, sw_issued := (sw_issued w)(i := os_issued x)\<rparr>)"
proof -
  let ?J = "(sw_issued w)(i := os_issued x)"
  have grow: "mset (sw_issued w j) \<subseteq># mset (?J j)" for j
    using oidc_step_issued [OF step] by simp
  have ok: "session_ok api ocs (?J j) e" if "session_ok api ocs (sw_issued w j) e" for j e
    using session_ok_weaken [OF that [unfolded session_ok_def]] grow [of j] by simp
  have "session_ok api ocs (sw_issued w i) d" using inv fl by (auto simp: service_inv_def)
  then have "oidc_session_inv api ocs x"
    unfolding session_ok_def by (rule oidc_step_inv [OF laws step])
  then have new: "session_ok api ocs (?J i) (os_session x)"
    using session_ok_weaken [of api ocs x "os_issued x"] by simp
  have "session_ok api ocs (?J j) e" if "(j, e) \<in> set (as @ (i, os_session x) # bs)" for j e
  proof (cases "(j, e) = (i, os_session x)")
    case True
    then show ?thesis using new by simp
  next
    case False
    then have "(j, e) \<in> set (sw_flight w)" using that fl by auto
    then have "session_ok api ocs (sw_issued w j) e" using inv by (auto simp: service_inv_def)
    then show ?thesis by (rule ok)
  qed
  moreover have "sr_id r = j \<and> session_ok api ocs (?J j) (sr_data r)"
    if "load now j (sw_store w) = Inr (Some r)" for now j r
    using inv ok [of j "sr_data r"] that by (simp add: service_inv_def)
  ultimately show ?thesis unfolding service_inv_def
    by (auto simp del: fun_upd_apply)
qed

lemma service_inv_step:
  assumes law: "lawful" and laws: "session_laws api"
    and step: "service_step save load delete expire api ocs w w'" and inv: "service_inv load api ocs w"
  shows "service_inv load api ocs w'"
  using step
proof cases
  case (begins now i r)
  then show ?thesis using inv by (auto simp: service_inv_def)
next
  case (creates d i)
  then show ?thesis using inv session_ok_empty [OF creates(2)] by (auto simp: service_inv_def)
next
  case (works as i d bs x)
  then show ?thesis using service_inv_works [OF laws inv works(2,3)] by simp
next
  case (saves as i d bs down e res t)
  have d: "session_ok api ocs (sw_issued w i) d" using inv saves(2) by (auto simp: service_inv_def)
  have "sr_id r = j \<and> session_ok api ocs (sw_issued w j) (sr_data r)"
    if "load now j t = Inr (Some r)" for now j r
    using saved_cases [OF law saves(3) that] inv d by (auto simp: service_inv_def)
  then show ?thesis using inv saves(1,2) by (auto simp: service_inv_def)
next
  case (deletes as i d bs down res t)
  then have "set (as @ bs) \<subseteq> set (sw_flight w)" by auto
  then show ?thesis
    using service_inv_shrinks [OF inv _ deleted_subset [OF deletes(3)]] deletes(1) by blast
next
  case (leaves as i d bs)
  then show ?thesis using inv by (auto simp: service_inv_def)
next
  case (sweeps t)
  then show ?thesis
    using service_inv_shrinks [OF inv _ load_swept [OF sweeps(2)], of "sw_flight w"] by simp
qed

lemma service_inv_reachable:
  assumes "lawful" "session_laws api" "\<And>now i. load now i t0 = Inr None"
    "service_reachable save load delete expire api ocs t0 w"
  shows "service_inv load api ocs w"
  using assms(4)
proof induction
  case start
  then show ?case using assms(3) by (simp add: service_inv_def)
next
  case (next_step w w')
  then show ?case using service_inv_step [OF assms(1,2)] by blast
qed

end

section \<open>On Postgres and on Redis\<close>

text \<open>The clean-up task sweeps the table of Postgres; Redis drops its keys by itself.\<close>

definition pg_expire :: "pg_table \<Rightarrow> pg_table \<Rightarrow> bool" where
  "pg_expire t t' \<longleftrightarrow> (\<exists>now. t' = delete_expired now t)"

lemma pg_load_swept:
  "pg_load c key None now i (delete_expired swept t) = pg_load c key None now i t
   \<or> pg_load c key None now i (delete_expired swept t) = Inr None"
  by (cases "t i") (auto simp: pg_load_def pg_select_def delete_expired_def)

interpretation pg_swept: swept_store "codec_laws c" "pg_save c key" "pg_load c key None" pg_delete
    "\<lambda>now expiry. expiry > now" pg_expire for c key
  by unfold_locales
    (auto simp: pg_delete_def backend_def pg_expire_def split: option.splits
      dest: pg_load_swept [THEN disjE] intro: pg_load_swept [THEN disjE])

interpretation redis_swept: swept_store "codec_laws c" "redis_save c key" "redis_load c key live None"
    redis_delete "\<lambda>now expiry. live now (unix_timestamp expiry)" "(=)" for c key live
  by unfold_locales (auto simp: redis_delete_def backend_def split: option.splits)

section \<open>What the stores hand out\<close>

definition session_tokens_own ::
  "'d session_api \<Rightarrow> 'k oidc_client set \<Rightarrow> (string \<times> string \<times> string) list \<Rightarrow> 'd \<Rightarrow> bool" where
  "session_tokens_own api ocs issued d \<longleftrightarrow>
     (\<forall>v. (ss_string api d SESSION_ID_TOKEN = Inr (Some v)
        \<longrightarrow> (\<exists>tr. granted ocs (set issued) tr \<and> tr_id_token tr = Some v))
      \<and> (ss_string api d SESSION_REFRESH_TOKEN = Inr (Some v)
        \<longrightarrow> (\<exists>tr. granted ocs (set issued) tr \<and> tr_refresh_token tr = Some v))
      \<and> (ss_string api d SESSION_ACCESS_TOKEN = Inr (Some v)
        \<longrightarrow> (\<exists>tr. granted ocs (set issued) tr \<and> tr_access_token tr = v)))"

lemma session_ok_own: "session_ok api ocs issued d \<Longrightarrow> session_tokens_own api ocs issued d"
  by (simp add: session_ok_def oidc_session_inv_def from_grant_def session_tokens_own_def)

text \<open>C9: (sessions in one store) Any number of sessions in one Postgres or Redis store, with requests that run at
the same time, saves and deletions that fail, and rows that are swept: what is loaded under
an identifier is the record of that identifier, and the tokens in it come from the logins of
that session and of no other.\<close>
theorem stored_sessions_isolated:
  assumes "codec_laws c" "session_laws api"
  shows "(service_reachable (pg_save c key) (pg_load c key None) pg_delete pg_expire api ocs Map.empty w
        \<and> pg_load c key None now i (sw_store w) = Inr (Some r)
      \<longrightarrow> sr_id r = i \<and> session_tokens_own api ocs (sw_issued w i) (sr_data r))
    \<and> (service_reachable (redis_save c key) (redis_load c key live None) redis_delete (=) api ocs Map.empty v
        \<and> redis_load c key live None now i (sw_store v) = Inr (Some r)
      \<longrightarrow> sr_id r = i \<and> session_tokens_own api ocs (sw_issued v i) (sr_data r))"
proof -
  have "pg_load c key None n j Map.empty = Inr None" for n j by (simp add: pg_load_def pg_select_def)
  moreover have "redis_load c key live None n j Map.empty = Inr None" for n j
    by (simp add: redis_load_def redis_get_def)
  ultimately show ?thesis
    using pg_swept.service_inv_reachable [OF assms, of key Map.empty ocs w]
      redis_swept.service_inv_reachable [OF assms, of key live Map.empty ocs v]
    by (auto simp: service_inv_def intro: session_ok_own)
qed

section \<open>A logout that a running request undoes\<close>

text \<open>C38: (logout undone) A request that has refreshed the tokens of its session, and saves it only after a
logout has deleted the record, brings the session back: the store, in which nothing was left
under the identifier, has the record again, and the next request with the old cookie has the
identity that was logged out.\<close>
theorem logout_undone_by_running_request:
  assumes laws: "codec_laws c" "session_laws api"
    and session: "ss_string api s SESSION_ACCESS_TOKEN = Inr (Some access)"
      "ss_string api s SESSION_REFRESH_TOKEN = Inr (Some token)"
      "ss_string api s SESSION_ID_TOKEN = Inr (Some jwt)"
      "is_expired now (ok_flatten (ss_u64 api s SESSION_TOKEN_EXPIRY))"
    and provider: "refresh_tokens refresh_now oc token = Inr r" "rt_id_token r = None"
      "\<not> is_expired later (Some (rt_expiry r))"
    and genuine: "\<And>oc. fst (verify jwt oc) \<noteq> InvalidSignature" "parse jwt (Some (rt_access r)) = Some i"
    and rq: "\<not> present_in rq" "rq_has_session rq"
    and running: "session_to_identity api verify parse now refresh_now rq (Some oc) s = (d, s', client')"
    and logout: "pg_delete None j t = (Inr (), t1)"
    and saved: "pg_save c key None \<lparr>sr_id = j, sr_data = s', sr_expiry = e\<rparr> t1 = (Inr (), t2)" "e > clock"
  shows "pg_load c key None clock j t1 = Inr None
    \<and> pg_load c key None clock j t2 = Inr (Some \<lparr>sr_id = j, sr_data = s', sr_expiry = e\<rparr>)
    \<and> fst (session_to_identity api verify parse later refresh_now rq (Some oc) s') = Next (with_identity i rq)"
proof -
  have load: "loaded api s" using session(1) by (rule loadedI)
  let ?s = "store_refreshed api r s"
  note read = store_refreshed_read [OF laws(2) load, where r = r]
  have ref: "session_refresh api now refresh_now (Some oc) s = (True, ?s)"
    using session provider(1) by (simp add: session_refresh_def)
  have tokens: "ss_string api ?s SESSION_ACCESS_TOKEN = Inr (Some (rt_access r))"
    "ss_string api ?s SESSION_ID_TOKEN = Inr (Some jwt)"
    "\<not> is_expired later (ok_flatten (ss_u64 api ?s SESSION_TOKEN_EXPIRY))"
    using provider(2,3) session(3) by (simp_all add: read)
  have "session_attach api verify parse rq (Some oc) ?s
      = (with_identity i rq, ?s, Some (snd (verify jwt oc)))"
    using genuine(1) [of oc] genuine(2) tokens(1,2)
    by (auto simp: session_attach_def split: prod.splits)
  then have "s' = ?s" using running session(1) rq ref by (simp add: session_to_identity_def)
  moreover have "session_to_identity api verify parse later refresh_now rq (Some oc) ?s
      = (Next (with_identity i rq), ?s, Some (snd (verify jwt oc)))"
    by (rule session_kept [where verify = verify and parse = parse, OF tokens(1,3,2) genuine(1) genuine(2) rq])
  ultimately show ?thesis
    using pg.load_deleted [OF logout] pg.load_saved [OF laws(1) saved(1)] saved(2) by simp
qed

section \<open>Example runs\<close>

definition one_record_codec :: "'d session_record \<Rightarrow> 'd codec" where
  "one_record_codec r =
     \<lparr>cd_mac = (\<lambda>key data. replicate TAG_LEN 0), cd_encode = (\<lambda>q. if q = r then Inr [1] else Inl ''unsupported''),
      cd_decode = (\<lambda>b. if b = [1] then Inr r else Inl ''unknown'')\<rparr>"

lemma one_record_codec_laws: "codec_laws (one_record_codec r)"
  by (auto simp: codec_laws_def mac_tags_def one_record_codec_def split: if_splits)

lemma one_record_codec_save:
  "pg_save (one_record_codec r) key None r t
   = (Inr (), t(sr_id r \<mapsto> \<lparr>row_data = seal (cd_mac (one_record_codec r)) key [1], row_expiry = sr_expiry r\<rparr>))"
  by (simp add: pg_save_def sealed_record_def one_record_codec_def backend_def)

definition demo_record :: "((string \<rightharpoonup> string) \<times> (string \<rightharpoonup> u64)) session_record" where
  "demo_record = \<lparr>sr_id = ''a'', sr_data = os_session demo_logged_in, sr_expiry = 9\<rparr>"

lemma demo_step:
  "oidc_step api ocs \<lparr>os_session = d, os_issued = I, os_redeemed = []\<rparr> x \<Longrightarrow>
   sw_flight w = [(i, d)] \<Longrightarrow> sw_issued w i = I \<Longrightarrow>
   service_step save load delete expire api ocs w
     (w\<lparr>sw_flight := [(i, os_session x)], sw_issued := (sw_issued w)(i := os_issued x)\<rparr>)"
  using works [of w "[]" i d "[]"] by simp

lemma demo_saved_session:
  "\<exists>t. service_reachable (pg_save (one_record_codec demo_record) [3])
      (pg_load (one_record_codec demo_record) [3] None) pg_delete pg_expire map_session {demo_client} Map.empty
      \<lparr>sw_store = t, sw_flight = [], sw_issued = (\<lambda>i. [])(''a'' := [(''st'', ''v'', ''n'')])\<rparr>
    \<and> t ''a'' = Some \<lparr>row_data = seal (cd_mac (one_record_codec demo_record)) [3] [1], row_expiry = 9\<rparr>"
proof -
  let ?reach = "service_reachable (pg_save (one_record_codec demo_record) [3])
      (pg_load (one_record_codec demo_record) [3] None) pg_delete pg_expire map_session {demo_client} Map.empty"
  let ?s = "snd (login_handler map_session ''ch'' ''v'' ''st'' ''n'' demo_client no_session)"
  let ?I = "(\<lambda>i. [])(''a'' := [(''st'', ''v'', ''n'')])"
  let ?t = "[''a'' \<mapsto> \<lparr>row_data = seal (cd_mac (one_record_codec demo_record)) [3] [1], row_expiry = 9\<rparr>]"
  note r = login_read [OF map_session_laws no_session_read(2), of "''ch''" "''v''" "''st''" "''n''" demo_client]
  have "?reach \<lparr>sw_store = Map.empty, sw_flight = [(''a'', no_session)], sw_issued = (\<lambda>i. [])\<rparr>"
    using next_step [OF start creates [where api = map_session and d = no_session and i = "''a''"]]
    by (simp add: no_session_read)
  moreover have "oidc_step map_session {demo_client} \<lparr>os_session = no_session, os_issued = [], os_redeemed = []\<rparr>
      \<lparr>os_session = ?s, os_issued = [(''st'', ''v'', ''n'')], os_redeemed = []\<rparr>"
    using oidc_step.login [where oc = demo_client and ocs = "{demo_client}" and api = map_session
        and challenge = "''ch''" and verifier = "''v''" and csrf = "''st''" and nonce = "''n''"
        and w = "\<lparr>os_session = no_session, os_issued = [], os_redeemed = []\<rparr>"]
    by simp
  ultimately have "?reach \<lparr>sw_store = Map.empty, sw_flight = [(''a'', ?s)], sw_issued = ?I\<rparr>"
    using next_step [OF _ demo_step] by fastforce
  moreover have "oidc_step map_session {demo_client}
      \<lparr>os_session = ?s, os_issued = [(''st'', ''v'', ''n'')], os_redeemed = []\<rparr>
      \<lparr>os_session = os_session demo_logged_in, os_issued = [(''st'', ''v'', ''n'')],
        os_redeemed = [(''st'', ''v'', ''n'')]\<rparr>"
    using callback_ok [where oc = demo_client and ocs = "{demo_client}" and api = map_session and now = 5
        and code = "''code''" and state = "''st''" and target = "''/''" and t = "os_session demo_logged_in"
        and verifier = "''v''" and nonce = "''n''"
        and w = "\<lparr>os_session = ?s, os_issued = [(''st'', ''v'', ''n'')], os_redeemed = []\<rparr>"]
    by (simp add: r demo_logged_in_def demo_login_callback [folded no_session_def])
  ultimately have "?reach \<lparr>sw_store = Map.empty, sw_flight = [(''a'', os_session demo_logged_in)], sw_issued = ?I\<rparr>"
    using next_step [OF _ demo_step] by fastforce
  moreover have "service_step (pg_save (one_record_codec demo_record) [3])
      (pg_load (one_record_codec demo_record) [3] None) pg_delete pg_expire map_session {demo_client}
      \<lparr>sw_store = Map.empty, sw_flight = [(''a'', os_session demo_logged_in)], sw_issued = ?I\<rparr>
      \<lparr>sw_store = ?t, sw_flight = [], sw_issued = ?I\<rparr>"
    using saves [where w = "\<lparr>sw_store = Map.empty, sw_flight = [(''a'', os_session demo_logged_in)],
          sw_issued = ?I\<rparr>" and save = "pg_save (one_record_codec demo_record) [3]"
        and as = "[]" and bs = "[]" and down = None and i = "''a''" and e = 9 and res = "Inr ()"
        and d = "os_session demo_logged_in" and t = ?t]
      one_record_codec_save [of demo_record "[3]" Map.empty]
    by (simp add: demo_record_def)
  ultimately have "?reach \<lparr>sw_store = ?t, sw_flight = [], sw_issued = ?I\<rparr>" by (rule next_step)
  then show ?thesis by (intro exI [of _ ?t]) simp
qed

theorem stored_sessions_isolated_witness:
  "pg_load (one_record_codec demo_record) [3] None 8 ''a''
     [''a'' \<mapsto> \<lparr>row_data = seal (cd_mac (one_record_codec demo_record)) [3] [1], row_expiry = 9\<rparr>]
   = Inr (Some demo_record)
   \<and> session_tokens_own map_session {demo_client} [(''st'', ''v'', ''n'')] (sr_data demo_record)"
proof -
  obtain t where reach: "service_reachable (pg_save (one_record_codec demo_record) [3])
      (pg_load (one_record_codec demo_record) [3] None) pg_delete pg_expire map_session {demo_client} Map.empty
      \<lparr>sw_store = t, sw_flight = [], sw_issued = (\<lambda>i. [])(''a'' := [(''st'', ''v'', ''n'')])\<rparr>"
    and t: "t ''a'' = Some \<lparr>row_data = seal (cd_mac (one_record_codec demo_record)) [3] [1], row_expiry = 9\<rparr>"
    using demo_saved_session by blast
  have decode: "unsealed_record (one_record_codec demo_record) [3]
      (Some (seal (cd_mac (one_record_codec demo_record)) [3] [1])) = Inr (Some demo_record)"
    using one_record_codec_laws [of demo_record]
    by (simp add: codec_laws_def unsealed_record_def) (simp add: one_record_codec_def)
  then have "pg_load (one_record_codec demo_record) [3] None 8 ''a'' t = Inr (Some demo_record)"
    by (simp add: pg_load_def pg_select_def t)
  then have "session_tokens_own map_session {demo_client} [(''st'', ''v'', ''n'')] (sr_data demo_record)"
    using stored_sessions_isolated [OF one_record_codec_laws map_session_laws, THEN conjunct1, rule_format,
        OF conjI, OF reach] by fastforce
  then show ?thesis using decode by (simp add: pg_load_def pg_select_def)
qed

definition rotated :: refreshed_tokens where
  "rotated = \<lparr>rt_access = ''at2'', rt_refresh = Some ''ben'', rt_id_token = None, rt_expiry = 600\<rparr>"

definition rotated_record :: "((string \<rightharpoonup> string) \<times> (string \<rightharpoonup> u64)) session_record" where
  "rotated_record =
     \<lparr>sr_id = ''a'', sr_data = store_refreshed map_session rotated rotating_session, sr_expiry = 9\<rparr>"

lemma rotated_tokens:
  "refresh_tokens 300 rotating_client ''ann'' = Inr rotated" "rt_id_token rotated = None"
  "\<not> is_expired 301 (Some (rt_expiry rotated))"
  by (simp_all add: refresh_tokens_def rotating_client_def demo_client_def token_expiry_def is_expired_def
      rotated_def)

lemma rotating_session_reads:
  "ss_string map_session rotating_session SESSION_ACCESS_TOKEN = Inr (Some ''at'')"
  "ss_string map_session rotating_session SESSION_REFRESH_TOKEN = Inr (Some ''ann'')"
  "ss_string map_session rotating_session SESSION_ID_TOKEN = Inr (Some ''h.p.s'')"
  "is_expired 300 (ok_flatten (ss_u64 map_session rotating_session SESSION_TOKEN_EXPIRY))"
  by (simp_all add: map_session_def rotating_session_def is_expired_def)

theorem logout_undone_by_running_request_witness:
  "pg_load (one_record_codec rotated_record) [3] None 8 ''a''
     (snd (pg_save (one_record_codec rotated_record) [3] None rotated_record
       (snd (pg_delete None ''a'' [''a'' \<mapsto> \<lparr>row_data = [], row_expiry = 9\<rparr>]))))
   = Inr (Some rotated_record)"
proof -
  let ?t = "[''a'' \<mapsto> \<lparr>row_data = [], row_expiry = 9\<rparr>]"
  let ?s = "store_refreshed map_session rotated rotating_session"
  have "session_refresh map_session 300 300 (Some rotating_client) rotating_session = (True, ?s)"
    using rotating_session_reads rotated_tokens(1) by (simp add: session_refresh_def)
  moreover have "ss_string map_session ?s SESSION_ID_TOKEN = Inr (Some ''h.p.s'')"
    by (simp add: map_session_def store_refreshed_def rotated_def rotating_session_def)
  ultimately have run: "session_to_identity map_session (\<lambda>jwt oc. (Valid, oc)) (\<lambda>jwt t. Some sample_identity)
      300 300 session_request (Some rotating_client) rotating_session
    = (Next (with_identity sample_identity session_request), ?s, Some rotating_client)"
    using rotating_session_reads(1) session_request_anonymous
    by (simp add: session_to_identity_def session_attach_def)
  have del: "pg_delete None ''a'' ?t = (Inr (), snd (pg_delete None ''a'' ?t))"
    by (simp add: pg_delete_def backend_def)
  have save: "pg_save (one_record_codec rotated_record) [3] None \<lparr>sr_id = ''a'', sr_data = ?s, sr_expiry = 9\<rparr>
      (snd (pg_delete None ''a'' ?t))
    = (Inr (), snd (pg_save (one_record_codec rotated_record) [3] None rotated_record
        (snd (pg_delete None ''a'' ?t))))"
    using one_record_codec_save [of rotated_record] by (simp add: rotated_record_def)
  show ?thesis
    using logout_undone_by_running_request [where clock = 8 and verify = "\<lambda>jwt oc. (Valid, oc)",
        OF one_record_codec_laws map_session_laws rotating_session_reads rotated_tokens _ _
          session_request_anonymous run del save, THEN conjunct2, THEN conjunct1]
    by (simp add: rotated_record_def)
qed

end
