(* ===== verification/Router_Start.thy ===== *)
theory Router_Start
  imports Router_Auth
begin

text \<open>
  The router from its construction to the end of the server: the accessors of
  \<open>src/fluent/router.rs\<close>, \<open>setup_opentelemetry\<close> of \<open>observability.rs\<close> and \<open>start\<close> of
  \<open>builder.rs\<close>, which hands the router's notifier, shutdown timeout and tracer provider to the
  server of \<open>Shutdown\<close>.  A handle (a notifier, a registry) is shared by its clones; the router's
  field is its state.
\<close>

section \<open>Accessors\<close>

definition shutdown_notifier :: "'k fluent_router \<Rightarrow> notifier" where
  "shutdown_notifier r = fr_notifier r"

text \<open>What a token that the router or its notifier gave out says.\<close>

definition token_cancelled :: "'k fluent_router \<Rightarrow> bool" where
  "token_cancelled r = is_shutdown_initiated (fr_notifier r)"

definition subscribe_to_shutdown :: "'k fluent_router \<Rightarrow> nat \<times> 'k fluent_router" where
  "subscribe_to_shutdown r = (case subscribe (fr_notifier r) of (i, n) \<Rightarrow> (i, r\<lparr>fr_notifier := n\<rparr>))"

definition circuit_breakers :: "'k fluent_router \<Rightarrow> registry" where
  "circuit_breakers r = fr_registry r"

definition guarded_db_pool :: "string \<Rightarrow> 'k fluent_router \<Rightarrow> guarded_pool \<times> registry" where
  "guarded_db_pool target r = (guarded_pool_new target, fr_registry r)"

section \<open>OpenTelemetry\<close>

definition setup_opentelemetry ::
  "(string \<Rightarrow> string + unit) \<Rightarrow> 'k fluent_router \<Rightarrow> process_globals
    \<Rightarrow> error + 'k fluent_router \<times> process_globals" where
  "setup_opentelemetry build_exporter r g =
     (case install_opentelemetry build_exporter (fr_config r) g of
        Inl e \<Rightarrow> Inl e
      | Inr (None, g') \<Rightarrow> Inr (r, g')
      | Inr (Some p, g') \<Rightarrow> Inr (r\<lparr>fr_otel_provider := Some p\<rparr>, g'))"

section \<open>Starting\<close>

text \<open>\<open>bind\<close> is the result of binding a listener to an address.\<close>

definition router_start ::
  "(string \<Rightarrow> string + unit) \<Rightarrow> nanos \<Rightarrow> 'k fluent_router \<Rightarrow> error + server" where
  "router_start bind now r = start_server (bind (full_bind_addr (fr_http r))) (fr_notifier r) now"

inductive router_served :: "bool \<times> bool \<Rightarrow> nanos \<Rightarrow> 'k fluent_router \<Rightarrow> server \<Rightarrow> bool"
  for handlers now r where
  bound: "router_start (\<lambda>a. Inr ()) now r = Inr sv \<Longrightarrow> router_served handlers now r sv"
| runs: "router_served handlers now r sv \<Longrightarrow>
    serve_step (fr_otel_provider r \<noteq> None) handlers (hc_shutdown_timeout (fr_http r)) sv sv' \<Longrightarrow>
    router_served handlers now r sv'"

lemma router_served_served:
  "router_served handlers now r sv \<Longrightarrow>
   served (fr_otel_provider r \<noteq> None) handlers (hc_shutdown_timeout (fr_http r)) (fr_notifier r) now sv"
  by (induction rule: router_served.induct)
    (auto simp: router_start_def intro: served.started served.step)

text \<open>Spans are flushed exactly when the server ended without an error and there is a provider.\<close>

lemma serve_step_flushed:
  assumes "serve_step otel handlers timeout sv sv'"
    and "sv_spans_flushed sv = (otel \<and> sv_stage sv = Exited (Inr ()))"
  shows "sv_spans_flushed sv' = (otel \<and> sv_stage sv' = Exited (Inr ()))"
  using assms
  by (induction rule: serve_step.induct) (auto simp: on_signal_def on_served_def on_timeout_def)

lemma served_flushed:
  "served otel handlers timeout n now sv \<Longrightarrow> sv_spans_flushed sv = (otel \<and> sv_stage sv = Exited (Inr ()))"
proof (induction rule: served.induct)
  case (started sv)
  then show ?case by (auto simp: start_server_def result_simps split: prod.splits)
next
  case (step sv sv')
  show ?case by (rule serve_step_flushed [OF step.hyps(2) step.IH])
qed

section \<open>What set-up leaves alone\<close>

text \<open>The handles that set-up must not replace, or what was subscribed before would hear nothing.\<close>

definition handles :: "'k fluent_router \<Rightarrow> notifier \<times> registry \<times> otel_provider option" where
  "handles r = (fr_notifier r, fr_registry r, fr_otel_provider r)"

lemma handles_call [simp]:
  "handles (call_inner ops r) = handles r" "handles (r\<lparr>fr_tasks := ts\<rparr>) = handles r"
  "handles (r\<lparr>fr_config := c\<rparr>) = handles r" "handles (r\<lparr>fr_inner := i\<rparr>) = handles r"
  by (simp_all add: handles_def call_inner_def)

lemma handles_featured: "(\<And>r. handles (f r) = handles r) \<Longrightarrow> handles (featured b f r) = handles r"
  by (simp add: featured_def)

lemma handles_nests: "nest_directories env protected ds r = Inr r' \<Longrightarrow> handles r' = handles r"
proof (induction ds arbitrary: r)
  case (Cons d ds)
  then show ?case
    by (auto simp: result_simps router_nest_service_def split: static_dir_route.splits if_splits)
qed simp

lemma handles_files:
  "setup_protected_files env r = Inr r' \<Longrightarrow> handles r' = handles r"
  "setup_public_files env r = Inr r' \<Longrightarrow> handles r' = handles r"
  "setup_fallback_files env r = Inr r' \<Longrightarrow> handles r' = handles r"
  by (auto simp: setup_protected_files_def setup_public_files_def setup_directories_def
      setup_fallback_files_def result_simps split: option.splits dest: handles_nests)

lemma handles_steps [simp]:
  "handles (setup_browser_login_redirect r) = handles r"
  "handles (setup_basic_auth r) = handles r"
  "handles (setup_proxy_oidc r) = handles r"
  "handles (setup_user_span r) = handles r"
  "handles (setup_deduplication r) = handles r"
  "handles (setup_concurrency_limit r) = handles r"
  "handles (setup_max_payload_size r) = handles r"
  "handles (setup_compression r) = handles r"
  "handles (setup_path_normalization r) = handles r"
  "handles (setup_sensitive_headers ft env r) = handles r"
  "handles (setup_api_versioning v r) = handles r"
  "handles (setup_logging r) = handles r"
  "handles (setup_readiness r) = handles r"
  "handles (setup_timeout r) = handles r"
  "handles (setup_request_id r) = handles r"
  "handles (setup_liveness r) = handles r"
  "handles (setup_catch_panic r) = handles r"
  by (simp_all add: setup_browser_login_redirect_def setup_basic_auth_def setup_proxy_oidc_def
      setup_user_span_def setup_deduplication_def setup_concurrency_limit_def
      setup_max_payload_size_def setup_compression_def setup_path_normalization_def
      setup_sensitive_headers_def setup_api_versioning_def setup_logging_def
      setup_readiness_def setup_timeout_def setup_request_id_def setup_liveness_def
      setup_catch_panic_def Let_def split: option.split)

lemma handles_rest:
  "handles (setup_helmet env r) = handles r"
  "handles (setup_metrics env r) = handles r"
  "setup_oidc env r = Inr r' \<Longrightarrow> handles r' = handles r"
  "setup_rate_limiting r = Started r' \<Longrightarrow> handles r' = handles r"
  "setup_cors env r = Started r' \<Longrightarrow> handles r' = handles r"
  "setup_oidc_routes env r = Inr r' \<Longrightarrow> handles r' = handles r"
  "setup_session_handling env r = Inr r' \<Longrightarrow> handles r' = handles r"
  by (auto simp: setup_helmet_def setup_metrics_def setup_oidc_def setup_rate_limiting_def setup_cors_def
      setup_oidc_routes_def setup_session_handling_def apply_session_layer_def result_simps Let_def
      split: option.splits if_splits session_store_config.splits)

lemma handles_tries:
  "featured_try b (setup_oidc env) r = Inr r' \<Longrightarrow> handles r' = handles r"
  "featured_try b (setup_oidc_routes env) r = Inr r' \<Longrightarrow> handles r' = handles r"
  "featured_try b (setup_session_handling env) r = Inr r' \<Longrightarrow> handles r' = handles r"
  by (auto simp: featured_try_Inr handles_rest split: if_splits)

lemma handles_request_stack:
  assumes "setup_request_stack ft env v r = Started r'"
  shows "handles r' = handles r"
  using assms
  by (rule request_stack_stages)
    (auto simp: setup_before_cors_def setup_after_cors_def featured_start_def Let_def handles_featured
      handles_rest(1,2) dest!: handles_rest(5) split: if_splits)

lemma handles_middleware:
  assumes "setup_middleware ft env r = Started (Inr r')"
  shows "handles r' = handles r"
  using assms
proof (rule middleware_stages, goal_cases)
  case (1 r1 r2 r3)
  from 1(1) have "handles r1 = handles r"
    by (rule auth_stages) (simp add: handles_files handles_tries handles_featured)
  moreover have "handles r2 = handles r1" by (rule handles_request_stack [OF 1(2)])
  moreover have "handles r3 = handles r2"
    using 1(3) handles_rest(4) by (auto simp: featured_start_def split: if_splits)
  moreover have "handles r' = handles r3"
    using 1(4) by (auto simp: setup_outer_stack_def dest!: handles_files(3))
  ultimately show ?thesis by simp
qed

text \<open>The router as it is constructed: nobody subscribed, nothing cancelled, no provider.\<close>

lemma with_state_handles:
  "with_state pool c = Inr r \<Longrightarrow>
   fr_notifier r = notifier_default \<and> fr_registry r = registry_new \<lparr>targets = cf_circuit_breakers c\<rparr>
   \<and> fr_otel_provider r = None"
  by (auto simp: with_state_def result_simps)

lemma setup_opentelemetry_cases:
  assumes "setup_opentelemetry build r g = Inr (r', g')"
  shows "r' = r\<lparr>fr_otel_provider := if lc_opentelemetry (cf_logging (fr_config r)) = None
      then fr_otel_provider r else map_option otel_provider_of (lc_opentelemetry (cf_logging (fr_config r)))\<rparr>"
  using assms
  by (auto simp: setup_opentelemetry_def install_opentelemetry_def result_simps Let_def
      split: option.splits sum.splits)

lemma settings_timeout:
  assumes "settings r' = settings r"
  shows "hc_shutdown_timeout (fr_http r') = hc_shutdown_timeout (fr_http r)"
  using arg_cong [OF assms, of "\<lambda>c. hc_shutdown_timeout (cf_http c)"] by (simp add: settings_def)

text \<open>A receiver from before the start, while it exists, has heard what the server itself has heard.\<close>

definition hears_all :: "nat \<Rightarrow> server \<Rightarrow> bool" where
  "hears_all k sv \<longleftrightarrow>
     (let rs = nf_receivers (sv_notifier sv)
      in k \<le> length rs \<and> sv_watch sv < length rs \<and> fst (rs ! sv_watch sv)
       \<and> (\<forall>i < k. fst (rs ! i) \<longrightarrow> snd (rs ! i) = snd (rs ! sv_watch sv)))"

lemma hears_all_emit:
  "hears_all k sv \<Longrightarrow> hears_all k (sv\<lparr>sv_notifier := snd (emit p (sv_notifier sv))\<rparr>)"
  by (auto simp: hears_all_def emit_def Let_def deliver_def)

lemma hears_all_cong:
  "hears_all k sv \<Longrightarrow> sv_notifier sv' = sv_notifier sv \<Longrightarrow> sv_watch sv' = sv_watch sv \<Longrightarrow> hears_all k sv'"
  by (simp add: hears_all_def)

lemma hears_all_step:
  assumes "serve_step otel handlers timeout sv sv'" "hears_all k sv"
  shows "hears_all k sv'"
  using assms(1)
proof (cases rule: serve_step.cases)
  case subscribes
  then show ?thesis using assms(2) by (auto simp: hears_all_def subscribe_def nth_append Let_def)
next
  case drops
  then show ?thesis using assms(2) by (auto simp: hears_all_def drop_receiver_def Let_def nth_list_update)
next
  case signal
  have "hears_all k (sv\<lparr>sv_notifier := snd (emit (GracePeriodStarted timeout) (snd (emit Initiated (sv_notifier sv))))\<rparr>)"
    using hears_all_emit [OF hears_all_emit [OF assms(2)], of "GracePeriodStarted timeout" Initiated] by simp
  then show ?thesis using signal by (auto simp: on_signal_def elim: hears_all_cong)
next
  case (expired d)
  then show ?thesis using hears_all_emit [OF assms(2), of GracePeriodEnded]
    by (auto simp: on_timeout_def elim: hears_all_cong)
qed (use assms(2) in \<open>auto simp: on_served_def elim!: hears_all_cong\<close>)

lemma served_hears_all:
  assumes "served otel handlers timeout n now sv" "fresh_notifier n"
  shows "hears_all (length (nf_receivers n)) sv"
  using assms(1)
proof (induction rule: served.induct)
  case (started sv)
  then show ?case using assms(2)
    by (fastforce simp: start_server_def subscribe_def hears_all_def fresh_notifier_def nth_append)
next
  case (step sv sv')
  show ?case by (rule hears_all_step [OF step.hyps(2) step.IH])
qed

lemma fresh_subscribed: "fresh_notifier n \<Longrightarrow> fresh_notifier (snd (subscribe n))"
  by (auto simp: fresh_notifier_def subscribe_def)

lemma default_fresh: "fresh_notifier notifier_default"
  by (simp add: fresh_notifier_def notifier_default_def notifier_new_def)


definition traced_config :: "unit config" where
  "traced_config = with_opentelemetry_config (otel_new ''http://collector:4317'') sample_config"

lemma traced_config_valid: "config_validate traced_config = Inr ()"
  using sample_config_valid
  by (simp add: traced_config_def with_opentelemetry_config_def config_validate_def logging_validate_def)

lemma traced_fields:
  "cf_http traced_config = cf_http sample_config"
  "cf_logging traced_config = \<lparr>lc_format = DefaultFormat, lc_opentelemetry = Some (otel_new ''http://collector:4317'')\<rparr>"
  "hc_session_signing_key (cf_http sample_config) \<noteq> None"
  by (simp_all add: traced_config_def with_opentelemetry_config_def sample_config_def logging_default_def)


end
