(* ===== verification/Request_Flow.thy ===== *)
theory Request_Flow
  imports Router_Auth
begin

text \<open>
  Request identifiers through the assembled stack: what reaches the deduplication of \<open>dedup.rs\<close>
  behind the layers that \<open>setup_request_id\<close> of \<open>request.rs\<close> installs.
\<close>

section \<open>Layers of later steps are around those of earlier ones\<close>

lemma new_layers_inner:
  assumes "grows lo hi r r1" "grows lo' hi' r1 r2" "grows lo'' hi'' r2 r3"
  shows "set (new_layers P r1 r2) \<subseteq> set (new_layers P r r3)"
  using assms by (auto simp: grows_def new_layers_def)

lemma sorted_split:
  assumes "sorted_wrt (\<ge>) (map f xs)" "y \<in> set xs" "z \<in> set xs" "f y < (f z :: nat)"
  shows "\<exists>as bs. xs = as @ y # bs \<and> z \<in> set as"
proof -
  obtain as bs where xs: "xs = as @ y # bs" using split_list [OF assms(2)] by blast
  have "z \<notin> set bs" "z \<noteq> y" using assms(1,4) by (auto simp: xs sorted_wrt_append)
  then show ?thesis using assms(3) xs by auto
qed

lemma grows_after_deduplication:
  assumes "setup_request_stack ft env v r = Started r'"
  shows "grows 11 22 (featured (ft_deduplication ft) setup_deduplication r) r'"
proof -
  obtain q where q: "featured_start (ft_cors ft) (setup_cors env) (setup_before_cors ft env v r) = Started q"
    "r' = setup_after_cors ft env q"
    using assms by (rule request_stack_stages)
  have "grows 11 16 (featured (ft_deduplication ft) setup_deduplication r) (setup_before_cors ft env v r)"
    unfolding setup_before_cors_def Let_def
    by (rule grows_then [OF _ grows_featured [OF grows_steps(11)]],
        rule grows_then [OF _ grows_featured [OF grows_steps(10)]],
        rule grows_then [OF _ grows_featured [OF grows_steps(9)]],
        rule grows_then [OF _ grows_featured [OF grows_steps(8)]],
        rule grows_then [OF _ grows_featured [OF grows_steps(7)]],
        rule grows_featured [OF grows_steps(6)]) simp_all
  then show ?thesis unfolding q(2) by (rule grows_trans [OF _ grows_from_cors [OF q(1)]]) auto
qed

abbreviation X_REQUEST_ID :: string where
  "X_REQUEST_ID \<equiv> ''x-request-id''"

text \<open>Both layers are around the routes of the application, the identifiers outside.\<close>

lemma request_id_layers:
  assumes "setup_middleware ft env r = Started (Inr r')" "ft_deduplication ft"
    and "is_middleware_enabled r RequestDeduplication" "is_middleware_enabled r RequestId"
    and "hc_deduplication (fr_http r) = Some c"
  shows "DedupLayer (dedup_layer_new (dd_cfg_ttl c) (dd_cfg_max_entries c) X_REQUEST_ID)
      \<in> set (new_layers (\<lambda>_. True) r r')"
    and "SetRequestIdLayer X_REQUEST_ID \<in> set (new_layers (\<lambda>_. True) r r')"
proof -
  obtain r1 r2 r3 where m: "setup_auth_stack ft env r = Inr r1"
    "setup_request_stack ft env (hc_default_api_version (fr_http r)) r1 = Started r2"
    "featured_start (ft_rate_limiting ft) setup_rate_limiting r2 = Started r3"
    "setup_outer_stack env r3 = Inr r'"
    using assms(1) by (rule middleware_stages)
  let ?d = "featured (ft_deduplication ft) setup_deduplication r1"
  have g1: "grows 1 9 r r1" by (rule grows_auth_stack [OF m(1)])
  have gd: "grows 10 10 r1 ?d" by (rule grows_featured [OF grows_steps(5)])
  have g2: "grows 11 22 ?d r2" by (rule grows_after_deduplication [OF m(2)])
  have g3: "grows 23 23 r2 r3" by (rule grows_start_stage(2) [OF m(3)])
  have g4: "grows 24 27 r3 r'" by (rule grows_outer_stack [OF m(4)])
  have rest: "grows 11 27 ?d r'" by (rule grows_trans [OF grows_trans [OF g2 g3] g4]) auto
  note same = same_settings [OF grows_settings [OF g1]]
  have "hc_deduplication (fr_http r1) = Some c"
    using arg_cong [OF grows_settings [OF g1], of "\<lambda>c. hc_deduplication (cf_http c)"] assms(5)
    by (simp add: settings_def)
  then have "?d = call_inner [AddLayer (DedupLayer
      (dedup_layer_new (dd_cfg_ttl c) (dd_cfg_max_entries c) X_REQUEST_ID))]
      (r1\<lparr>fr_tasks := List.insert DedupCleanup (fr_tasks r1)\<rparr>)"
    using assms(2-4) same(1) by (simp add: featured_def setup_deduplication_def)
  then have "DedupLayer (dedup_layer_new (dd_cfg_ttl c) (dd_cfg_max_entries c) X_REQUEST_ID)
      \<in> set (new_layers (\<lambda>_. True) r1 ?d)" by simp
  then show "DedupLayer (dedup_layer_new (dd_cfg_ttl c) (dd_cfg_max_entries c) X_REQUEST_ID)
      \<in> set (new_layers (\<lambda>_. True) r r')"
    using new_layers_inner [OF g1 gd rest] by blast
  have g: "grows 1 23 r r3"
    by (rule grows_trans [OF grows_trans [OF g1 grows_trans [OF gd g2]] g3]) auto
  have "SetRequestIdLayer X_REQUEST_ID \<in> set (new_layers (\<lambda>_. True) r3 (setup_request_id r3))"
    using assms(4) grows_enabled [OF g] by (simp add: setup_request_id_def)
  moreover have "grows 25 27 (setup_request_id r3) r'"
    using m(4) unfolding setup_outer_stack_def
    by (intro grows_trans [OF grows_then [OF grows_steps(16) grows_steps(17)] grows_files(3)]) auto
  ultimately show "SetRequestIdLayer X_REQUEST_ID \<in> set (new_layers (\<lambda>_. True) r r')"
    using new_layers_inner [OF g grows_steps(15)] by blast
qed

section \<open>The header on its way in\<close>

text \<open>
  What \<open>tower_http\<close> documents of its layer, and the tests of the repository confirm: an
  identifier the request has is kept as it is, and only a request without one is given what the
  generator makes.
\<close>

definition sets_request_id :: "(request \<Rightarrow> string option) \<Rightarrow> layer \<Rightarrow> bool" where
  "sets_request_id gen mw \<longleftrightarrow>
     (\<forall>rq. \<exists>rq'. mw rq = Next rq' \<and> rq_header rq' X_REQUEST_ID =
        (if header_present (rq_header rq X_REQUEST_ID) then rq_header rq X_REQUEST_ID
         else case gen rq of Some i \<Rightarrow> HeaderText i | None \<Rightarrow> Absent))"

definition keeps_request_id :: "layer \<Rightarrow> bool" where
  "keeps_request_id mw \<longleftrightarrow>
     (\<forall>rq rq'. mw rq = Next rq' \<longrightarrow> rq_header rq' X_REQUEST_ID = rq_header rq X_REQUEST_ID)"

definition request_id_generator :: "string \<Rightarrow> (string \<Rightarrow> string option) \<Rightarrow> request \<Rightarrow> string option" where
  "request_id_generator uuid from_str rq = make_request_id uuid from_str (rq_header rq)"

lemma generator_absent:
  "\<not> header_present (rq_header rq X_REQUEST_ID) \<Longrightarrow> request_id_generator uuid from_str rq = from_str uuid"
  by (cases "rq_header rq X_REQUEST_ID") (simp_all add: request_id_generator_def make_request_id_def)

lemma request_id_through:
  assumes "\<forall>l \<in> set ls. (\<exists>gen. sets_request_id gen (sem l) \<and>
      (\<forall>rq. \<not> header_present (rq_header rq X_REQUEST_ID) \<longrightarrow> gen rq = Some i)) \<or> keeps_request_id (sem l)"
    and "run_layers (map sem ls) rq = Next rq'"
  shows "rq_header rq' X_REQUEST_ID = rq_header rq X_REQUEST_ID
    \<or> \<not> header_present (rq_header rq X_REQUEST_ID) \<and> rq_header rq' X_REQUEST_ID = HeaderText i"
  using assms
proof (induction ls arbitrary: rq)
  case (Cons l ls)
  then obtain rq1 where 1: "sem l rq = Next rq1" "run_layers (map sem ls) rq1 = Next rq'"
    by (auto split: decision.splits)
  have "rq_header rq1 X_REQUEST_ID = rq_header rq X_REQUEST_ID
      \<or> \<not> header_present (rq_header rq X_REQUEST_ID) \<and> rq_header rq1 X_REQUEST_ID = HeaderText i"
  proof (cases "keeps_request_id (sem l)")
    case True
    then show ?thesis using 1(1) by (simp add: keeps_request_id_def)
  next
    case False
    then obtain gen where g: "sets_request_id gen (sem l)"
      "\<not> header_present (rq_header rq X_REQUEST_ID) \<Longrightarrow> gen rq = Some i"
      using Cons.prems(1) by auto
    obtain q where "sem l rq = Next q" "rq_header q X_REQUEST_ID =
        (if header_present (rq_header rq X_REQUEST_ID) then rq_header rq X_REQUEST_ID
         else case gen rq of Some i \<Rightarrow> HeaderText i | None \<Rightarrow> Absent)"
      using g(1) unfolding sets_request_id_def by blast
    then show ?thesis using 1(1) g(2) by auto
  qed
  then show ?case using Cons.IH [OF _ 1(2)] Cons.prems(1) by auto
qed simp

lemma run_layers_append:
  "run_layers (as @ bs) rq = (case run_layers as rq of Next q \<Rightarrow> run_layers bs q | Reply r \<Rightarrow> Reply r)"
  by (induction as arbitrary: rq) (auto split: decision.split)

lemma request_id_set:
  assumes "\<forall>l \<in> set ls. (\<exists>gen. sets_request_id gen (sem l) \<and>
      (\<forall>rq. \<not> header_present (rq_header rq X_REQUEST_ID) \<longrightarrow> gen rq = Some i)) \<or> keeps_request_id (sem l)"
    and "z \<in> set ls" "sets_request_id gen (sem z)"
      "\<And>rq. \<not> header_present (rq_header rq X_REQUEST_ID) \<Longrightarrow> gen rq = Some i"
    and "run_layers (map sem ls) rq = Next rq'"
  shows "rq_header rq' X_REQUEST_ID =
    (if header_present (rq_header rq X_REQUEST_ID) then rq_header rq X_REQUEST_ID else HeaderText i)"
proof -
  obtain as bs where ls: "ls = as @ z # bs" using split_list [OF assms(2)] by blast
  obtain q where q: "run_layers (map sem as) rq = Next q" "run_layers (map sem (z # bs)) q = Next rq'"
    using assms(5) by (auto simp: ls run_layers_append split: decision.splits)
  obtain q' where q': "sem z q = Next q'" "rq_header q' X_REQUEST_ID =
      (if header_present (rq_header q X_REQUEST_ID) then rq_header q X_REQUEST_ID
       else case gen q of Some i \<Rightarrow> HeaderText i | None \<Rightarrow> Absent)"
    using assms(3) unfolding sets_request_id_def by blast
  have "rq_header q X_REQUEST_ID = rq_header rq X_REQUEST_ID
      \<or> \<not> header_present (rq_header rq X_REQUEST_ID) \<and> rq_header q X_REQUEST_ID = HeaderText i"
    by (rule request_id_through [OF _ q(1)]) (use assms(1) ls in auto)
  then have h: "rq_header q' X_REQUEST_ID =
      (if header_present (rq_header rq X_REQUEST_ID) then rq_header rq X_REQUEST_ID else HeaderText i)"
    using q'(2) assms(4) [of q] by auto
  have "run_layers (map sem bs) q' = Next rq'" using q(2) q'(1) by simp
  then have "rq_header rq' X_REQUEST_ID = rq_header q' X_REQUEST_ID
      \<or> \<not> header_present (rq_header q' X_REQUEST_ID) \<and> rq_header rq' X_REQUEST_ID = HeaderText i"
    by (rule request_id_through [rotated]) (use assms(1) ls in auto)
  then show ?thesis using h by auto
qed

text \<open>C20: (identifiers before deduplication) With request identifiers and deduplication enabled, every route of the
application has the deduplication behind the identifiers, and every request that reaches it
has one: the client's, or a fresh one.  The client's is taken as it is; the rule that an
identifier which is too long or has odd characters is replaced, \<open>is_valid_request_id\<close>, is
never asked, because the generator is called only for requests without the header.\<close>
theorem request_ids_before_dedup:
  assumes ok: "setup_middleware ft env r = Started (Inr r')" "ft_deduplication ft"
      "is_middleware_enabled r RequestDeduplication" "is_middleware_enabled r RequestId"
      "hc_deduplication (fr_http r) = Some c"
    and route: "route_stack p (fr_inner r) = Some (e, ls)"
    and gen: "from_str uuid = Some fresh"
    and laws: "sets_request_id (request_id_generator uuid from_str) (sem (SetRequestIdLayer X_REQUEST_ID))"
      "\<And>l. l \<noteq> SetRequestIdLayer X_REQUEST_ID \<Longrightarrow> keeps_request_id (sem l)"
  shows "\<exists>outside l inside. route_stack p (fr_inner r') = Some (e, outside @ DedupLayer l # inside)
    \<and> dl_header_name l = X_REQUEST_ID
    \<and> (\<forall>rq rq'. run_layers (map sem outside) rq = Next rq' \<longrightarrow>
        rq_header rq' X_REQUEST_ID =
          (if header_present (rq_header rq X_REQUEST_ID) then rq_header rq X_REQUEST_ID
           else HeaderText fresh))"
proof -
  let ?new = "new_layers (\<lambda>_. True) r r'"
  let ?l = "dedup_layer_new (dd_cfg_ttl c) (dd_cfg_max_entries c) X_REQUEST_ID"
  note g = grows_middleware [OF ok(1)]
  note inside = request_id_layers [OF ok]
  have order: "sorted_wrt (\<ge>) (map layer_position (rev ?new))"
    using grows_sorted [OF g] by (simp add: rev_map [symmetric] sorted_wrt_rev)
  have "DedupLayer ?l \<in> set (rev ?new)" "SetRequestIdLayer X_REQUEST_ID \<in> set (rev ?new)"
    by (simp_all only: set_rev inside)
  then have "\<exists>as bs. rev ?new = as @ DedupLayer ?l # bs \<and> SetRequestIdLayer X_REQUEST_ID \<in> set as"
    by (rule sorted_split [OF order]) simp
  then obtain as bs where split: "rev ?new = as @ DedupLayer ?l # bs" "SetRequestIdLayer X_REQUEST_ID \<in> set as"
    by blast
  have fresh: "\<not> header_present (rq_header rq X_REQUEST_ID) \<Longrightarrow>
      request_id_generator uuid from_str rq = Some fresh" for rq
    using gen by (simp add: generator_absent)
  have each: "\<forall>l \<in> set as. (\<exists>gen. sets_request_id gen (sem l) \<and>
      (\<forall>rq. \<not> header_present (rq_header rq X_REQUEST_ID) \<longrightarrow> gen rq = Some fresh)) \<or> keeps_request_id (sem l)"
  proof
    fix l
    show "(\<exists>gen. sets_request_id gen (sem l) \<and>
      (\<forall>rq. \<not> header_present (rq_header rq X_REQUEST_ID) \<longrightarrow> gen rq = Some fresh)) \<or> keeps_request_id (sem l)"
      using laws(2) [of l] by (cases "l = SetRequestIdLayer X_REQUEST_ID")
        (simp_all, intro disjI1 exI conjI allI impI, rule laws(1), rule fresh)
  qed
  have "rq_header rq' X_REQUEST_ID =
      (if header_present (rq_header rq X_REQUEST_ID) then rq_header rq X_REQUEST_ID else HeaderText fresh)"
    if "run_layers (map sem as) rq = Next rq'" for rq rq'
    by (rule request_id_set [OF each split(2) laws(1) fresh that])
  moreover have "route_stack p (fr_inner r') = Some (e, as @ DedupLayer ?l # (bs @ ls))"
    using grows_route [OF g route] split(1) by simp
  ultimately show ?thesis
    by (intro exI [of _ as] exI [of _ ?l] exI [of _ "bs @ ls"]) (simp add: dedup_layer_new_def)
qed

section \<open>An example router\<close>

definition set_id :: "(request \<Rightarrow> string option) \<Rightarrow> layer" where
  "set_id gen rq =
     Next (if header_present (rq_header rq X_REQUEST_ID) then rq
           else rq\<lparr>rq_header := (rq_header rq)(X_REQUEST_ID :=
                  case gen rq of Some i \<Rightarrow> HeaderText i | None \<Rightarrow> Absent)\<rparr>)"

fun demo_sem :: "unit layer_kind \<Rightarrow> layer" where
  "demo_sem (SetRequestIdLayer h) rq =
     (if h = X_REQUEST_ID then set_id (request_id_generator ''u7'' Some) rq else Next rq)"
| "demo_sem l rq = Next rq"

lemma demo_sem_laws:
  "sets_request_id (request_id_generator ''u7'' Some) (demo_sem (SetRequestIdLayer X_REQUEST_ID))"
  "l \<noteq> SetRequestIdLayer X_REQUEST_ID \<Longrightarrow> keeps_request_id (demo_sem l)"
  by (simp add: sets_request_id_def set_id_def) (cases l; simp add: keeps_request_id_def)

definition dedup_http :: http_config where
  "dedup_http = http_default\<lparr>hc_deduplication := Some \<lparr>dd_cfg_ttl = secs 300, dd_cfg_max_entries = 100\<rparr>,
     hc_middleware := Some (Include [RequestId, RequestDeduplication])\<rparr>"

definition dedup_features :: features where
  "dedup_features = bare_features\<lparr>ft_deduplication := True\<rparr>"

definition tagged_request :: "string \<Rightarrow> request" where
  "tagged_request i = sample_request\<lparr>rq_header := (\<lambda>n. if n = X_REQUEST_ID then HeaderText i else Absent)\<rparr>"

theorem request_ids_before_dedup_witness:
  "\<exists>r' outside l. setup_middleware dedup_features demo_env (app_router dedup_http) = Started (Inr r')
    \<and> (\<exists>inside. route_stack ''/api'' (fr_inner r') = Some (AppEndpoint ''api'', outside @ DedupLayer l # inside))
    \<and> (\<forall>rq'. run_layers (map demo_sem outside) (tagged_request ''no good id!'') = Next rq'
         \<longrightarrow> rq_header rq' X_REQUEST_ID = HeaderText ''no good id!'')
    \<and> \<not> is_valid_request_id ''no good id!''"
proof -
  let ?r = "app_router dedup_http"
  have store: "\<not> store_is_external (hc_session_store (fr_http ?r))"
    by (simp add: dedup_http_def http_default_def)
  obtain r' where r': "setup_middleware dedup_features demo_env ?r = Started (Inr r')"
    using setup_succeeds [OF demo_env_ok, of dedup_features ?r] store
    by (auto simp: dedup_features_def bare_features_off)
  have en: "ft_deduplication dedup_features" "is_middleware_enabled ?r RequestDeduplication"
    "is_middleware_enabled ?r RequestId"
    "hc_deduplication (fr_http ?r) = Some \<lparr>dd_cfg_ttl = secs 300, dd_cfg_max_entries = 100\<rparr>"
    by (simp_all add: dedup_features_def dedup_http_def)
  have route: "route_stack ''/api'' (fr_inner ?r) = Some (AppEndpoint ''api'', [])" by simp
  obtain outside l inside where o: "route_stack ''/api'' (fr_inner r')
      = Some (AppEndpoint ''api'', outside @ DedupLayer l # inside)"
    "\<And>rq rq'. run_layers (map demo_sem outside) rq = Next rq' \<Longrightarrow> rq_header rq' X_REQUEST_ID =
       (if header_present (rq_header rq X_REQUEST_ID) then rq_header rq X_REQUEST_ID else HeaderText ''u7'')"
    using request_ids_before_dedup [OF r' en route, of Some "''u7''" "''u7''" demo_sem] demo_sem_laws
    by blast
  have "\<not> is_valid_request_id ''no good id!''"
    by (simp add: is_valid_request_id_def is_ascii_alphanumeric_def is_ascii_digit_def is_ascii_upper_def
        is_ascii_lower_def)
  moreover have "rq_header rq' X_REQUEST_ID = HeaderText ''no good id!''"
    if "run_layers (map demo_sem outside) (tagged_request ''no good id!'') = Next rq'" for rq'
    using o(2) [OF that] by (simp add: tagged_request_def)
  ultimately show ?thesis using r' o(1) by blast
qed

end
