(* ===== verification/Database_Health.thy ===== *)
theory Database_Health
  imports Health
begin

text \<open>
  The guarded pool of \<open>circuit_breaker/database.rs\<close> and the readiness probe of \<open>features.rs\<close> on one
  registry: the queries of the application drive the breaker, the probe reads it.
\<close>

section \<open>The probe and the breaker of the database\<close>

lemma readiness_known:
  assumes "registry_get r ''database'' = Some h" "\<forall>c. check = Some c \<longrightarrow> is_ready c"
  shows "readiness_handler True True check now query r =
    (if is_fast_failing now (breaker_at h r) then text_response 503 (''Database circuit open'' @ [CHR 0x0A])
     else if is_ok query then text_response 200 (''OK'' @ [CHR 0x0A])
     else text_response 503 (''Database unavailable'' @ [CHR 0x0A]), r)"
proof -
  have c: "check = None \<or> check = Some Ready" using assms(2) by (cases check) (auto simp: is_ready_def)
  have "get_or_default ''database'' r = (h, r)"
    using assms(1) by (simp add: get_or_default_def registry_get_def)
  then have "database_failing True True now r = (is_fast_failing now (breaker_at h r), r)"
    by (simp add: database_failing_def)
  then show ?thesis using c by (auto simp: readiness_handler_def)
qed

text \<open>C27: (tripped database) After \<open>failure_threshold\<close> queries in a row that time out or fail with a connectivity
error, within the reset timeout every further query is refused with \<open>CircuitOpen\<close>, whatever it would
have done, and the probe answers 503 without a query of its own; neither changes the registry.
After the timeout the probe answers 200 again if its own query succeeds.\<close>
theorem tripped_database_not_ready:
  assumes reg: "reg_wf r" "registry_get r ''database'' = Some h" "breaker_at h r = cb_new cfg"
    and pool: "gp_target gp = ''database''" "\<forall>(t0, t1, f) \<in> set qs. pool_verdict cfg f = Failure"
      "length qs = threshold_nat (failure_threshold cfg)"
    and run: "r' = snd (pool_run gp qs r)" and check: "\<forall>c. check = Some c \<longrightarrow> is_ready c"
  shows "(now - fst (snd (last qs)) < reset_timeout cfg
      \<longrightarrow> pool_query gp now between t1 f r' = (Inl (CircuitOpen ''database''), r')
        \<and> readiness_handler True True check now query r'
          = (text_response 503 (''Database circuit open'' @ [CHR 0x0A]), r'))
    \<and> (now - fst (snd (last qs)) \<ge> reset_timeout cfg
      \<longrightarrow> readiness_handler True True check now (Inr ()) r'
          = (text_response 200 (''OK'' @ [CHR 0x0A]), r'))"
proof -
  have q: "qs \<noteq> []" using pool(3) by (auto simp: threshold_nat_def)
  have cfg: "cb_config (breaker_at h r) = cfg" using reg(3) by (simp add: cb_new_def)
  have "let r' = snd (pool_run gp qs r) in registry_get r' (gp_target gp) = Some h
    \<and> current_state (breaker_at h r') = Open
    \<and> last_failure_time (cb_guarded (breaker_at h r')) = Some (fst (snd (last qs)))
    \<and> cb_config (breaker_at h r') = cb_config (breaker_at h r)"
    by (rule pool_run_failures) (use reg pool q in \<open>auto simp: cb_new_def current_state_def\<close>)
  then have known: "registry_get r' ''database'' = Some h"
    and ff: "is_fast_failing now (breaker_at h r') \<longleftrightarrow> now - fst (snd (last qs)) < reset_timeout cfg"
    using pool(1) cfg by (auto simp: Let_def cb_view_defs run)
  have "pool_query gp now between t1 f r' = (Inl (CircuitOpen ''database''), r')"
    if "is_fast_failing now (breaker_at h r')"
    unfolding pool_query_known [of r' gp, unfolded pool(1), OF known] pool(1)
    by (rule registry_target.failing_call [OF that])
  then show ?thesis by (auto simp: readiness_known [OF known check] ff is_ok_iff)
qed

theorem tripped_database_not_ready_witness:
  "fst (readiness_handler True True None 20 (Inr ())
     (snd (pool_run (guarded_pool_new ''database'') [(1, 2, demo_call (Inl SqlxPoolTimedOut))]
       (registry_new demo_config)))) = text_response 503 (''Database circuit open'' @ [CHR 0x0A])"
proof -
  let ?gp = "guarded_pool_new ''database''" and ?qs = "[(1, 2, demo_call (Inl SqlxPoolTimedOut))]"
  let ?r = "snd (pool_run ?gp ?qs (registry_new demo_config))"
  have "20 - fst (snd (last ?qs)) < reset_timeout one_failure
      \<longrightarrow> readiness_handler True True None 20 (Inr ()) ?r
        = (text_response 503 (''Database circuit open'' @ [CHR 0x0A]), ?r)"
    using tripped_database_not_ready [where r = "registry_new demo_config" and h = 0
        and cfg = one_failure and gp = ?gp and qs = ?qs and r' = ?r and check = None and now = 20
        and query = "Inr ()"
        and between = id and ?t1.0 = 21 and f = "demo_call (Inr 7)"]
    by (simp add: demo_registry guarded_pool_new_def demo_call_def pool_verdict_def
        call_verdict_def one_failure_def threshold_nat_def del: pool_run.simps)
  then show ?thesis by (simp add: one_failure_def del: pool_run.simps)
qed

section \<open>A database that looks ready\<close>

text \<open>The breaker of a target is half-open and has counted \<open>n\<close> probes.\<close>

definition half_open_at :: "string \<Rightarrow> nat \<Rightarrow> cb_target_config \<Rightarrow> nat \<Rightarrow> registry \<Rightarrow> bool" where
  "half_open_at target h cfg n r \<longleftrightarrow>
     reg_wf r \<and> registry_get r target = Some h
     \<and> current_state (breaker_at h r) = HalfOpen \<and> cb_config (breaker_at h r) = cfg
     \<and> unat (half_open_calls (cb_guarded (breaker_at h r))) = n"

lemma half_open_query:
  assumes "half_open_at (gp_target gp) h cfg n r" "n + 1 < 2 ^ 32"
    "pool_verdict cfg f = Neutral \<or> unat (half_open_max_calls cfg) \<le> n"
  shows "half_open_at (gp_target gp) h cfg (n + 1) (snd (pool_query gp t0 id t1 f r))"
    and "unat (half_open_max_calls cfg) \<le> n
      \<Longrightarrow> fst (pool_query gp t0 id t1 f r) = Inl (CircuitOpen (gp_target gp))"
proof -
  let ?b = "breaker_at h r"
  let ?c = "half_open_calls (cb_guarded ?b)"
  let ?b' = "?b\<lparr>cb_guarded := (cb_guarded ?b)\<lparr>half_open_calls := ?c + 1\<rparr>\<rparr>"
  have reg: "reg_wf r" "registry_get r (gp_target gp) = Some h" and b: "cb_state (cb_guarded ?b) = HalfOpen"
    and cfg: "cb_config ?b = cfg" and n: "unat ?c = n"
    using assms(1) by (simp_all add: half_open_at_def current_state_def)
  have h: "h < length (reg_store r)" by (rule registry_get_range [OF reg])
  have allow: "allow_at h t0 r = (?c < half_open_max_calls cfg, set_breaker h ?b' r)"
    by (simp add: allow_at_def should_allow_def b cfg Let_def)
  have max: "?c < half_open_max_calls cfg \<longleftrightarrow> \<not> unat (half_open_max_calls cfg) \<le> n"
    using n by (simp add: word_less_nat_alt not_le)
  have at: "breaker_at h (set_breaker h ?b' r) = ?b'" using h by (simp add: breaker_at_set)
  have "on_breaker h record_neutral (set_breaker h ?b' r) = set_breaker h ?b' r"
    by (simp add: on_breaker_def at record_neutral_def b Let_def) (simp add: set_breaker_def)
  then have "snd (pool_query gp t0 id t1 f r) = set_breaker h ?b' r"
    using assms(3) unfolding pool_query_known [OF reg(2)] guarded_run_def allow max
    by (auto simp: get_call_timeout_def at cfg pool_verdict_def call_verdict_def Let_def
        split: option.splits sum.splits if_splits)
  moreover have "unat (?c + 1) = n + 1" using n assms(2) by (simp add: unat_Suc_u32_small)
  ultimately show "half_open_at (gp_target gp) h cfg (n + 1) (snd (pool_query gp t0 id t1 f r))"
    using reg b cfg by (simp add: half_open_at_def current_state_def at)
  show "fst (pool_query gp t0 id t1 f r) = Inl (CircuitOpen (gp_target gp))"
    if "unat (half_open_max_calls cfg) \<le> n"
    using that unfolding pool_query_known [OF reg(2)] guarded_run_def allow max by simp
qed

lemma neutral_probes_run:
  assumes "half_open_at (gp_target gp) h cfg n r" "n + length qs < 2 ^ 32"
    "\<forall>(t0, t1, f) \<in> set qs. pool_verdict cfg f = Neutral"
  shows "half_open_at (gp_target gp) h cfg (n + length qs) (snd (pool_run gp qs r))"
  using assms
proof (induction gp qs r arbitrary: n rule: pool_run.induct)
  case (2 gp t0 t1 f qs r)
  have "half_open_at (gp_target gp) h cfg (n + 1) (snd (pool_query gp t0 id t1 f r))"
    by (rule half_open_query(1)) (use 2(2-4) in auto)
  then have "half_open_at (gp_target gp) h cfg (n + 1 + length qs)
      (snd (pool_run gp qs (snd (pool_query gp t0 id t1 f r))))"
    by (intro 2(1) [OF refl prod.collapse]) (use 2(3,4) in auto)
  then show ?case by (simp add: case_prod_unfold Let_def)
qed simp

lemma wedged_run:
  assumes "half_open_at (gp_target gp) h cfg n r" "n + length qs < 2 ^ 32"
    "unat (half_open_max_calls cfg) \<le> n"
  shows "fst (pool_run gp qs r) = replicate (length qs) (Inl (CircuitOpen (gp_target gp)))
    \<and> half_open_at (gp_target gp) h cfg (n + length qs) (snd (pool_run gp qs r))"
  using assms
proof (induction gp qs r arbitrary: n rule: pool_run.induct)
  case (2 gp t0 t1 f qs r)
  let ?q = "pool_query gp t0 id t1 f r"
  have q: "half_open_at (gp_target gp) h cfg (n + 1) (snd ?q)" "fst ?q = Inl (CircuitOpen (gp_target gp))"
    by (rule half_open_query(1) half_open_query(2); use 2(2-4) in auto)+
  have "fst (pool_run gp qs (snd ?q)) = replicate (length qs) (Inl (CircuitOpen (gp_target gp)))
    \<and> half_open_at (gp_target gp) h cfg (n + 1 + length qs) (snd (pool_run gp qs (snd ?q)))"
    by (rule 2(1) [OF refl prod.collapse q(1)]) (use 2(3,4) in auto)
  then show ?case using q(2) by (simp add: case_prod_unfold Let_def)
qed simp

text \<open>C28: (a database that looks ready) Once enough half-open probes of the database have ended neither in a
success nor in a degradation -- a missing row, a violated constraint -- for \<open>half_open_max_calls\<close> to be
used up, every later query is refused with \<open>CircuitOpen\<close>, however much time passes and whatever it
would have answered, while the readiness probe, whose own query goes past the breaker, answers 200
at every instant. (Up to the wrap-around of the 32-bit counter of probes.)\<close>
theorem wedged_database_looks_ready:
  assumes "half_open_at ''database'' h cfg n r" "gp_target gp = ''database''"
    "\<forall>(t0, t1, f) \<in> set probes. pool_verdict cfg f = Neutral"
    "unat (half_open_max_calls cfg) \<le> n + length probes"
    "n + length probes + length qs < 2 ^ 32"
    "\<forall>c. check = Some c \<longrightarrow> is_ready c"
    "r' = snd (pool_run gp qs (snd (pool_run gp probes r)))"
  shows "fst (pool_run gp qs (snd (pool_run gp probes r)))
      = replicate (length qs) (Inl (CircuitOpen ''database''))
    \<and> readiness_handler True True check now (Inr ()) r' = (text_response 200 (''OK'' @ [CHR 0x0A]), r')"
proof -
  note at = assms(1) [folded assms(2)]
  have "half_open_at (gp_target gp) h cfg (n + length probes) (snd (pool_run gp probes r))"
    by (rule neutral_probes_run [OF at _ assms(3)]) (use assms(5) in simp)
  from wedged_run [OF this assms(5,4)]
  have run: "fst (pool_run gp qs (snd (pool_run gp probes r)))
      = replicate (length qs) (Inl (CircuitOpen ''database''))"
    and r': "half_open_at ''database'' h cfg (n + length probes + length qs) r'"
    unfolding assms(2,7) by simp_all
  have "registry_get r' ''database'' = Some h" "\<not> is_fast_failing now (breaker_at h r')"
    using r' by (simp_all add: half_open_at_def cb_view_defs)
  then show ?thesis using run by (simp add: readiness_known [OF _ assms(6)] is_ok_iff)
qed

lemma demo_half_open:
  "half_open_at ''database'' 0 one_failure 1
     (snd (pool_run (guarded_pool_new ''database'')
       [(1, 2, demo_call (Inl SqlxPoolTimedOut)), (40, 41, demo_call (Inl SqlxRowNotFound))]
       (registry_new demo_config)))"
proof -
  let ?r = "registry_new demo_config" and ?gp = "guarded_pool_new ''database''"
  let ?open = "on_breaker 0 (cb_apply 2 Failure) ?r"
  have len: "0 < length (reg_store ?r)" using registry_get_range [OF demo_registry(1,2)] .
  have "snd (pool_query ?gp 1 id 2 (demo_call (Inl SqlxPoolTimedOut)) ?r) = ?open"
    using pool_query_closed [of ?r ?gp 0 1 2 "demo_call (Inl SqlxPoolTimedOut)"]
    by (simp add: demo_registry guarded_pool_new_def current_state_def cb_new_def pool_verdict_def
        call_verdict_def demo_call_def one_failure_def)
  moreover have "registry_get ?open (gp_target ?gp) = Some 0"
    by (simp add: on_breaker_def demo_registry guarded_pool_new_def)
  moreover from this have "half_open_at ''database'' 0 one_failure 1
      (snd (pool_query ?gp 40 id 41 (demo_call (Inl SqlxRowNotFound)) ?open))"
    by (simp add: pool_query_known guarded_run_def allow_at_def on_breaker_def
        breaker_at_set len [unfolded length_greater_0_conv] half_open_at_def demo_registry cb_op_defs cb_new_def cb_transition_defs
        one_failure_def current_state_def get_call_timeout_def demo_call_def guarded_pool_new_def)
  ultimately show ?thesis by (simp add: case_prod_unfold Let_def)
qed

theorem wedged_database_looks_ready_witness:
  "fst (pool_run (guarded_pool_new ''database'') [(1000000, 1000001, demo_call (Inr 7))]
    (snd (pool_run (guarded_pool_new ''database'')
      [(42, 43, demo_call (Inl SqlxRowNotFound)), (44, 45, demo_call (Inl SqlxRowNotFound))]
      (snd (pool_run (guarded_pool_new ''database'')
        [(1, 2, demo_call (Inl SqlxPoolTimedOut)), (40, 41, demo_call (Inl SqlxRowNotFound))]
        (registry_new demo_config))))))
    = [Inl (CircuitOpen ''database'')]"
  using conjunct1 [OF wedged_database_looks_ready [OF demo_half_open, of "guarded_pool_new ''database''"
    "[(42, 43, demo_call (Inl SqlxRowNotFound)), (44, 45, demo_call (Inl SqlxRowNotFound))]"
    "[(1000000, 1000001, demo_call (Inr 7))]" None]]
  by (simp add: guarded_pool_new_def demo_call_def pool_verdict_def call_verdict_def one_failure_def)

end
